(* ===== verification/Prelude.thy ===== *)
theory Prelude
  imports Complex_Main "HOL-Library.Word" "HOL-Library.Sublist"
begin

text \<open>
  The prelude of the development: the collections of facts the component theories fill,
  the abbreviations for the integer types of the Go sources, and the generic lemmas on
  lists and options that several components share.
\<close>

section \<open>Collections\<close>

text \<open>
  \<open>frame\<close> collects, for every operation, the equations saying which parts of the state it
  leaves alone; \<open>op_defs\<close> the definitions that a proof by cases over an operation
  unfolds; \<open>inv_intros\<close> the preservation lemmas of the invariants.
\<close>

named_theorems frame
named_theorems op_defs
named_theorems inv_intros

section \<open>Machine integers\<close>

type_synonym i32 = "32 word"
type_synonym i64 = "64 word"

text \<open>
  Go's \<open>int\<close> is 64 bits wide on the platforms of the repository. Comparisons of Go integers
  are signed; \<open>sint\<close> reads a word as a signed number.
\<close>

definition int32_of_int64 :: "i64 \<Rightarrow> i32" where
  "int32_of_int64 x = ucast x"

definition int64_of_int32 :: "i32 \<Rightarrow> i64" where
  "int64_of_int32 x = scast x"

abbreviation in_int64 :: "int \<Rightarrow> bool" where
  "in_int64 i \<equiv> - (2 ^ 63) \<le> i \<and> i < 2 ^ 63"

lemma sint_i64_range: "in_int64 (sint (x :: i64))"
  using sint_range_size [of x] by (simp add: word_size)

lemma sint_word_of_int_i64: "in_int64 i \<Longrightarrow> sint (word_of_int i :: i64) = i"
  by (simp add: signed_take_bit_int_eq_self sint_sbintrunc')

lemma sint_word_of_int_i64_wrap:
  assumes "2 ^ 63 \<le> i" "i < 2 ^ 64"
  shows "sint (word_of_int i :: i64) = i - 2 ^ 64"
proof -
  have eq: "(word_of_int i :: i64) = word_of_int (i - 2 ^ 64)"
    by (simp add: word_of_int_eq_iff take_bit_eq_mod mod_diff_right_eq [symmetric, of i "2 ^ 64"])
  have "in_int64 (i - 2 ^ 64)" using assms by simp
  from sint_word_of_int_i64 [OF this] show ?thesis by (simp only: eq)
qed

lemma sint_i64_inject: "sint (x :: i64) = sint y \<longleftrightarrow> x = y"
  by (auto intro: signed_word_eqI)

section \<open>Lists\<close>

text \<open>Positions of a slice: \<open>sql_limit\<close> is the \<open>OFFSET o LIMIT n\<close> window of a result.\<close>

definition window :: "nat \<Rightarrow> nat \<Rightarrow> 'a list \<Rightarrow> 'a list" where
  "window off n xs = take n (drop off xs)"

lemma set_window: "set (window off n xs) \<subseteq> set xs"
  unfolding window_def by (meson order_trans set_drop_subset set_take_subset)

lemma length_window: "length (window off n xs) = min n (length xs - off)"
  by (simp add: window_def)

text \<open>The last \<open>n\<close> elements: what a bounded buffer that drops its oldest element keeps.\<close>

definition lastn :: "nat \<Rightarrow> 'a list \<Rightarrow> 'a list" where
  "lastn n xs = drop (length xs - n) xs"

lemma length_lastn [simp]: "length (lastn n xs) = min n (length xs)"
  by (simp add: lastn_def)

lemma lastn_all: "length xs \<le> n \<Longrightarrow> lastn n xs = xs"
  by (simp add: lastn_def)

lemma lastn_append: "lastn n (lastn n ys @ xs) = lastn n (ys @ xs)"
  by (cases "length ys \<le> n") (auto simp: lastn_def add.commute)

lemma lastn_snoc: "0 < n \<Longrightarrow> lastn n (lastn n xs @ [x]) = lastn n (xs @ [x])"
  by (cases "length xs \<le> n") (auto simp: lastn_def Suc_diff_le)

lemma lastn_drop_one: "length xs = n \<Longrightarrow> 0 < n \<Longrightarrow> lastn n (xs @ [x]) = tl xs @ [x]"
  by (cases xs) (auto simp: lastn_def)

text \<open>A list is duplicate free under a key iff no two of its positions share the key.\<close>

abbreviation distinct_by :: "('a \<Rightarrow> 'k) \<Rightarrow> 'a list \<Rightarrow> bool" where
  "distinct_by f xs \<equiv> distinct (map f xs)"

lemma distinct_by_filter: "distinct_by f xs \<Longrightarrow> distinct_by f (filter P xs)"
  by (induction xs) auto

lemma distinct_by_snoc:
  "distinct_by f xs \<Longrightarrow> f x \<notin> f ` set xs \<Longrightarrow> distinct_by f (xs @ [x])"
  by auto

lemma distinct_by_map: "distinct_by f xs \<Longrightarrow> (\<And>x. f (g x) = f x) \<Longrightarrow> distinct_by f (map g xs)"
  by (simp add: comp_def)

lemma find_filter_hd:
  "List.find P xs = (case filter P xs of [] \<Rightarrow> None | x # _ \<Rightarrow> Some x)"
  by (induction xs) auto

lemma takeWhile_dropWhile_notin:
  "c \<notin> set xs \<Longrightarrow> takeWhile (\<lambda>x. x \<noteq> c) (xs @ c # ys) = xs"
  by (induction xs) auto

end
