(* ===== verification/GoStrings.thy ===== *)
theory GoStrings
  imports Prelude "HOL-Library.Char_ord"
begin

text \<open>
  The parts of Go's \<open>strings\<close>, \<open>strconv\<close> and \<open>fmt\<close> packages the sources use. A Go string is
  its list of bytes. The case mapping and the white space are those of ASCII; the sources
  compare the mapped text with ASCII words only. The lemmas give the round trip of the
  decimal conversions and the facts on separators that make keys unambiguous.
\<close>

section \<open>Decimal conversion\<close>

definition digit_char :: "nat \<Rightarrow> char" where
  "digit_char d = char_of (48 + d)"

fun nat_dec :: "nat \<Rightarrow> string" where
  "nat_dec n = (if n < 10 then [digit_char n] else nat_dec (n div 10) @ [digit_char (n mod 10)])"

declare nat_dec.simps [simp del]

definition format_int :: "int \<Rightarrow> string" where
  "format_int i = (if i < 0 then CHR ''-'' # nat_dec (nat (- i)) else nat_dec (nat i))"

datatype num_error = ErrSyntax | ErrRange

definition is_digit :: "char \<Rightarrow> bool" where
  "is_digit c \<longleftrightarrow> 48 \<le> (of_char c :: nat) \<and> (of_char c :: nat) \<le> 57"

text \<open>\<open>strconv.ParseUint(s, 10, 64)\<close>: the digit loop, with its overflow check on every digit.\<close>

fun parse_uint_loop :: "nat \<Rightarrow> string \<Rightarrow> num_error + nat" where
  "parse_uint_loop acc [] = Inr acc"
| "parse_uint_loop acc (c # cs) =
     (if \<not> is_digit c then Inl ErrSyntax
      else let n = acc * 10 + (of_char c - 48) in
           if 2 ^ 64 \<le> n then Inl ErrRange else parse_uint_loop n cs)"

definition parse_uint :: "string \<Rightarrow> num_error + nat" where
  "parse_uint s = (if s = [] then Inl ErrSyntax else parse_uint_loop 0 s)"

text \<open>\<open>strconv.ParseInt(s, 10, 64)\<close>, which is also \<open>strconv.Atoi\<close> on a 64 bit platform.\<close>

definition parse_int :: "string \<Rightarrow> num_error + int" where
  "parse_int s =
     (case s of [] \<Rightarrow> Inl ErrSyntax
      | c # cs \<Rightarrow>
          let neg = (c = CHR ''-'');
              ds = (if c = CHR ''+'' \<or> c = CHR ''-'' then cs else s)
          in case parse_uint ds of
               Inl e \<Rightarrow> Inl e
             | Inr un \<Rightarrow>
                 if \<not> neg \<and> 2 ^ 63 \<le> un then Inl ErrRange
                 else if neg \<and> 2 ^ 63 < un then Inl ErrRange
                 else Inr (if neg then - int un else int un))"

lemma digit_char_inv: "d < 10 \<Longrightarrow> of_char (digit_char d) = 48 + d"
  by (simp add: digit_char_def)

lemma is_digit_digit_char: "d < 10 \<Longrightarrow> is_digit (digit_char d)"
  by (simp add: is_digit_def digit_char_inv)

lemma nat_dec_nonempty [simp]: "nat_dec n \<noteq> []"
  by (subst nat_dec.simps) simp

lemma nat_dec_digits: "\<forall>c \<in> set (nat_dec n). is_digit c"
proof (induction n rule: nat_dec.induct)
  case (1 n)
  then show ?case
    by (cases "n < 10") (auto simp: nat_dec.simps [of n] is_digit_digit_char)
qed

lemma parse_uint_loop_append:
  "parse_uint_loop a (xs @ ys) =
     (case parse_uint_loop a xs of Inl e \<Rightarrow> Inl e | Inr b \<Rightarrow> parse_uint_loop b ys)"
  by (induction xs arbitrary: a) (auto simp: Let_def)

lemma parse_uint_loop_nat_dec: "n < 2 ^ 64 \<Longrightarrow> parse_uint_loop 0 (nat_dec n) = Inr n"
proof (induction n rule: nat_dec.induct)
  case (1 n)
  show ?case
  proof (cases "n < 10")
    case True
    then show ?thesis
      by (simp add: nat_dec.simps [of n] is_digit_digit_char digit_char_inv)
  next
    case False
    with 1 have "parse_uint_loop 0 (nat_dec (n div 10)) = Inr (n div 10)" by simp
    moreover have "n div 10 * 10 + n mod 10 = n" by simp
    ultimately show ?thesis
      using False 1(2)
      by (simp add: nat_dec.simps [of n] parse_uint_loop_append is_digit_digit_char digit_char_inv)
  qed
qed

lemma parse_uint_nat_dec: "n < 2 ^ 64 \<Longrightarrow> parse_uint (nat_dec n) = Inr n"
  by (simp add: parse_uint_def parse_uint_loop_nat_dec)

lemma not_digit_sign: "\<not> is_digit CHR ''-''" "\<not> is_digit CHR ''+''" "\<not> is_digit CHR '':''"
  by (simp_all add: is_digit_def)

lemma nat_dec_no_sep: "\<not> is_digit c \<Longrightarrow> c \<notin> set (nat_dec n)"
  using nat_dec_digits by blast

lemma parse_int_format_int:
  assumes "in_int64 i"
  shows "parse_int (format_int i) = Inr i"
proof (cases "i < 0")
  case True
  with assms have "nat (- i) < 2 ^ 64" "nat (- i) \<le> 2 ^ 63" by simp_all
  with True show ?thesis
    by (simp add: parse_int_def format_int_def parse_uint_nat_dec)
next
  case False
  with assms have b: "nat i < 2 ^ 64" "nat i < 2 ^ 63" by simp_all
  obtain c cs where cs: "nat_dec (nat i) = c # cs" by (cases "nat_dec (nat i)") auto
  then have "is_digit c" using nat_dec_digits [of "nat i"] by auto
  then have "c \<noteq> CHR ''-''" "c \<noteq> CHR ''+''" using not_digit_sign by auto
  with False b cs parse_uint_nat_dec [OF b(1)] show ?thesis
    by (simp add: parse_int_def format_int_def)
qed

lemma format_int_inject_range:
  "in_int64 i \<Longrightarrow> in_int64 j \<Longrightarrow> format_int i = format_int j \<longleftrightarrow> i = j"
  by (metis parse_int_format_int sum.inject(2))

lemma parse_int_range: "parse_int s = Inr i \<Longrightarrow> in_int64 i"
  by (auto simp: parse_int_def Let_def split: list.splits sum.splits if_splits)

lemma format_int_no_colon: "CHR '':'' \<notin> set (format_int i)"
  by (simp add: format_int_def nat_dec_no_sep not_digit_sign)

lemma format_int_char: "c \<in> set (format_int i) \<Longrightarrow> is_digit c \<or> c = CHR ''-''"
  using nat_dec_digits by (auto simp: format_int_def split: if_splits)

section \<open>Splitting, prefixes, case and white space\<close>

text \<open>\<open>strings.Split\<close> with a separator of one character.\<close>

fun split_on :: "char \<Rightarrow> string \<Rightarrow> string list" where
  "split_on c [] = [[]]"
| "split_on c (x # xs) =
     (if x = c then [] # split_on c xs
      else (case split_on c xs of [] \<Rightarrow> [[x]] | p # ps \<Rightarrow> (x # p) # ps))"

fun join_with :: "string \<Rightarrow> string list \<Rightarrow> string" where
  "join_with s [] = []"
| "join_with s [x] = x"
| "join_with s (x # y # ys) = x @ s @ join_with s (y # ys)"

definition has_prefix :: "string \<Rightarrow> string \<Rightarrow> bool" where
  "has_prefix s p \<longleftrightarrow> take (length p) s = p"

definition trim_prefix :: "string \<Rightarrow> string \<Rightarrow> string" where
  "trim_prefix s p = (if has_prefix s p then drop (length p) s else s)"

definition lower_char :: "char \<Rightarrow> char" where
  "lower_char c = (let n = (of_char c :: nat) in if 65 \<le> n \<and> n \<le> 90 then char_of (n + 32) else c)"

definition upper_char :: "char \<Rightarrow> char" where
  "upper_char c = (let n = (of_char c :: nat) in if 97 \<le> n \<and> n \<le> 122 then char_of (n - 32) else c)"

definition to_lower :: "string \<Rightarrow> string" where
  "to_lower s = map lower_char s"

definition to_upper :: "string \<Rightarrow> string" where
  "to_upper s = map upper_char s"

definition is_space :: "char \<Rightarrow> bool" where
  "is_space c \<longleftrightarrow> (of_char c :: nat) \<in> {9, 10, 11, 12, 13, 32}"

definition trim_space :: "string \<Rightarrow> string" where
  "trim_space s = rev (dropWhile is_space (rev (dropWhile is_space s)))"

text \<open>\<open>fmt\<close>'s \<open>%v\<close> of a slice of strings.\<close>

definition fmt_strings :: "string list \<Rightarrow> string" where
  "fmt_strings xs = ''['' @ join_with '' '' xs @ '']''"

lemma split_on_nonempty [simp]: "split_on c s \<noteq> []"
  by (induction s) (auto split: list.splits)

lemma split_on_no_sep: "c \<notin> set s \<Longrightarrow> split_on c s = [s]"
  by (induction s) auto

lemma split_on_append_sep: "c \<notin> set p \<Longrightarrow> split_on c (p @ c # s) = p # split_on c s"
  by (induction p) auto

lemma join_split_on: "join_with [c] (split_on c s) = s"
proof (induction s)
  case Nil
  then show ?case by simp
next
  case (Cons x s)
  then show ?case by (cases "split_on c s"; cases "tl (split_on c s)") auto
qed

lemma split_on_parts_no_sep: "p \<in> set (split_on c s) \<Longrightarrow> c \<notin> set p"
  by (induction s arbitrary: p) (auto split: list.splits if_splits)

lemma has_prefix_append [simp]: "has_prefix (p @ s) p"
  by (simp add: has_prefix_def)

lemma trim_prefix_append [simp]: "trim_prefix (p @ s) p = s"
  by (simp add: trim_prefix_def)

lemma has_prefixE: "has_prefix s p \<Longrightarrow> (\<And>r. s = p @ r \<Longrightarrow> P) \<Longrightarrow> P"
  unfolding has_prefix_def by (metis append_take_drop_id)

lemma has_prefix_append_left: "has_prefix k (p @ q) \<Longrightarrow> has_prefix k p"
  by (auto elim!: has_prefixE)

text \<open>
  A key \<open>a ++ ":" ++ b\<close> whose last part holds no colon determines both parts, whatever the
  first part holds.
\<close>

lemma last_sep_inject:
  assumes "c \<notin> set b" "c \<notin> set b'" "a @ c # b = a' @ c # b'"
  shows "a = a' \<and> b = b'"
proof -
  from assms(3) have "rev b @ c # rev a = rev b' @ c # rev a'"
    by (metis append.assoc append_Cons append_Nil rev_append rev_rev_ident rev.simps(2))
  moreover have "takeWhile (\<lambda>x. x \<noteq> c) (rev b @ c # rev a) = rev b"
    "takeWhile (\<lambda>x. x \<noteq> c) (rev b' @ c # rev a') = rev b'"
    using assms(1,2) by (auto intro!: takeWhile_dropWhile_notin)
  ultimately have "rev b = rev b'" by metis
  with assms(3) show ?thesis by simp
qed

definition contains :: "string \<Rightarrow> string \<Rightarrow> bool" where
  "contains s sub \<longleftrightarrow> list_ex (\<lambda>i. has_prefix (drop i s) sub) [0..<Suc (length s)]"

lemma containsI: "contains (p @ sub @ q) sub"
proof -
  have "length p \<in> set [0..<Suc (length (p @ sub @ q))]" by auto
  moreover have "has_prefix (drop (length p) (p @ sub @ q)) sub" by simp
  ultimately show ?thesis unfolding contains_def list_ex_iff by blast
qed

end
