(* ===== verification/GoTime.thy ===== *)
theory GoTime
  imports Prelude
begin

text \<open>
  Go's \<open>time.Time\<close> without a monotonic reading, as the sources use it after \<open>UTC()\<close>: a
  signed 64 bit count of seconds since 1 January of year 1 and the nanoseconds within the
  second. Construction from Unix seconds adds a constant and wraps; \<open>Add\<close> and \<open>Sub\<close>
  saturate. A duration is its number of nanoseconds.
\<close>

datatype gotime = GoTime (tsec: i64) (tnsec: nat)

definition unix_to_internal :: i64 where
  "unix_to_internal = 62135596800"

definition time_unix :: "i64 \<Rightarrow> gotime" where
  "time_unix s = GoTime (s + unix_to_internal) 0"

definition unix_secs :: "gotime \<Rightarrow> i64" where
  "unix_secs t = tsec t - unix_to_internal"

definition unix_nano :: "gotime \<Rightarrow> i64" where
  "unix_nano t = unix_secs t * 1000000000 + of_nat (tnsec t)"

definition zero_time :: gotime where
  "zero_time = GoTime 0 0"

definition is_zero_time :: "gotime \<Rightarrow> bool" where
  "is_zero_time t \<longleftrightarrow> tsec t = 0 \<and> tnsec t = 0"

definition time_before :: "gotime \<Rightarrow> gotime \<Rightarrow> bool" where
  "time_before t u \<longleftrightarrow> sint (tsec t) < sint (tsec u) \<or> tsec t = tsec u \<and> tnsec t < tnsec u"

definition time_after :: "gotime \<Rightarrow> gotime \<Rightarrow> bool" where
  "time_after t u \<longleftrightarrow> time_before u t"

text \<open>The order of times as the library's linear order: SQL compares timestamps with it.\<close>

instantiation gotime :: linorder
begin

definition less_gotime :: "gotime \<Rightarrow> gotime \<Rightarrow> bool" where
  "less_gotime t u \<longleftrightarrow> time_before t u"

definition less_eq_gotime :: "gotime \<Rightarrow> gotime \<Rightarrow> bool" where
  "less_eq_gotime t u \<longleftrightarrow> time_before t u \<or> t = u"

instance
proof
  fix x y z :: gotime
  show "(x < y) = (x \<le> y \<and> \<not> y \<le> x)"
    by (auto simp: less_gotime_def less_eq_gotime_def time_before_def)
  show "x \<le> x" by (simp add: less_eq_gotime_def)
  show "x \<le> y \<Longrightarrow> y \<le> z \<Longrightarrow> x \<le> z"
    by (auto simp: less_eq_gotime_def time_before_def)
  show "x \<le> y \<Longrightarrow> y \<le> x \<Longrightarrow> x = y"
    by (auto simp: less_eq_gotime_def time_before_def)
  show "x \<le> y \<or> y \<le> x"
    by (cases x; cases y) (auto simp: less_eq_gotime_def time_before_def sint_i64_inject [symmetric])
qed

end

definition add_secs :: "i64 \<Rightarrow> int \<Rightarrow> i64" where
  "add_secs x d =
     (let s = sint x + d in
      if in_int64 s then word_of_int s
      else if 0 < d then word_of_int (2 ^ 63 - 1)
      else word_of_int (- (2 ^ 63 - 1)))"

definition time_add :: "gotime \<Rightarrow> int \<Rightarrow> gotime" where
  "time_add t d =
     (let n = int (tnsec t) + d
      in GoTime (add_secs (tsec t) (n div 1000000000)) (nat (n mod 1000000000)))"

definition clamp64 :: "int \<Rightarrow> int" where
  "clamp64 i = (if i < - (2 ^ 63) then - (2 ^ 63) else if 2 ^ 63 \<le> i then 2 ^ 63 - 1 else i)"

definition time_sub :: "gotime \<Rightarrow> gotime \<Rightarrow> int" where
  "time_sub t u =
     clamp64 ((sint (tsec t) - sint (tsec u)) * 1000000000 + (int (tnsec t) - int (tnsec u)))"

definition seconds :: "int \<Rightarrow> int" where "seconds n = n * 1000000000"
definition minutes :: "int \<Rightarrow> int" where "minutes n = seconds (n * 60)"
definition hours :: "int \<Rightarrow> int" where "hours n = minutes (n * 60)"

text \<open>
  A \<open>*timestamppb.Timestamp\<close> is an optional time. \<open>AsTime\<close> of the nil pointer is the Unix
  epoch, not Go's zero time.
\<close>

type_synonym pb_time = "gotime option"

definition as_time :: "pb_time \<Rightarrow> gotime" where
  "as_time p = (case p of None \<Rightarrow> time_unix 0 | Some t \<Rightarrow> t)"

definition pb_new :: "gotime \<Rightarrow> pb_time" where
  "pb_new t = Some t"

lemma as_time_pb_new [simp]: "as_time (pb_new t) = t"
  by (simp add: as_time_def pb_new_def)

lemma as_time_None_not_zero: "\<not> is_zero_time (as_time None)"
  by (simp add: as_time_def time_unix_def is_zero_time_def unix_to_internal_def)

lemma unix_secs_time_unix [simp]: "unix_secs (time_unix s) = s"
  by (simp add: unix_secs_def time_unix_def)

lemma time_unix_unix_secs: "tnsec t = 0 \<Longrightarrow> time_unix (unix_secs t) = t"
  by (cases t) (simp add: unix_secs_def time_unix_def)

lemma time_unix_inject [simp]: "time_unix s = time_unix s' \<longleftrightarrow> s = s'"
  by (simp add: time_unix_def)

lemma not_time_before_refl [simp]: "\<not> time_before t t"
  by (simp add: time_before_def)

lemma sint_unix_to_internal: "sint unix_to_internal = 62135596800"
  by (simp add: unix_to_internal_def)

text \<open>Without wrap-around the internal seconds are the Unix seconds plus the constant.\<close>

lemma tsec_time_unix: "tsec (time_unix s) = word_of_int (sint s + 62135596800)"
  by (simp add: time_unix_def unix_to_internal_def)

lemma sint_time_unix:
  assumes "sint s < 2 ^ 63 - 62135596800"
  shows "sint (tsec (time_unix s)) = sint s + 62135596800"
proof -
  from assms sint_i64_range [of s] have "in_int64 (sint s + 62135596800)" by simp
  then show ?thesis unfolding tsec_time_unix by (rule sint_word_of_int_i64)
qed

text \<open>With wrap-around they are far below every time the code ever compares with.\<close>

lemma sint_time_unix_wrap:
  assumes "2 ^ 63 - 62135596800 \<le> sint s"
  shows "sint (tsec (time_unix s)) = sint s + 62135596800 - 2 ^ 64"
proof -
  have "(word_of_int (sint s + 62135596800) :: i64) = word_of_int (sint s + 62135596800 - 2 ^ 64)"
    by simp
  moreover from assms sint_i64_range [of s] have "in_int64 (sint s + 62135596800 - 2 ^ 64)" by simp
  ultimately show ?thesis unfolding tsec_time_unix by (metis sint_word_of_int_i64)
qed

lemma sint_add_secs:
  assumes "in_int64 (sint x + d)"
  shows "sint (add_secs x d) = sint x + d"
proof -
  from assms have "add_secs x d = word_of_int (sint x + d)"
    unfolding add_secs_def Let_def by (rule if_P)
  then show ?thesis by (simp only: sint_word_of_int_i64 [OF assms])
qed

end
