(* ===== verification/GoFloat.thy ===== *)
theory GoFloat
  imports GoStrings "HOL-Library.Log_Nat"
begin

text \<open>
  Go's \<open>float64\<close>: the special values and, for a finite number other than minus zero, its exact
  rational value. Comparison is exact and false on NaN; arithmetic computes the exact result
  and rounds it to binary64, ties to even, with the IEEE special cases the sources can reach.
\<close>

datatype float64 = NaN | PosInf | NegInf | NegZero | Fin rat

definition f_is_nan :: "float64 \<Rightarrow> bool" where
  "f_is_nan x \<longleftrightarrow> x = NaN"

definition f_is_inf :: "float64 \<Rightarrow> bool" where
  "f_is_inf x \<longleftrightarrow> x = PosInf \<or> x = NegInf"

fun f_num :: "float64 \<Rightarrow> rat" where
  "f_num (Fin q) = q"
| "f_num _ = 0"

fun f_lt :: "float64 \<Rightarrow> float64 \<Rightarrow> bool" where
  "f_lt NaN _ = False"
| "f_lt _ NaN = False"
| "f_lt PosInf _ = False"
| "f_lt _ NegInf = False"
| "f_lt NegInf _ = True"
| "f_lt _ PosInf = True"
| "f_lt x y = (f_num x < f_num y)"

definition f_gt :: "float64 \<Rightarrow> float64 \<Rightarrow> bool" where
  "f_gt x y = f_lt y x"

fun f_eq :: "float64 \<Rightarrow> float64 \<Rightarrow> bool" where
  "f_eq NaN _ = False"
| "f_eq _ NaN = False"
| "f_eq PosInf y = (y = PosInf)"
| "f_eq NegInf y = (y = NegInf)"
| "f_eq x PosInf = False"
| "f_eq x NegInf = False"
| "f_eq x y = (f_num x = f_num y)"

definition f_ge :: "float64 \<Rightarrow> float64 \<Rightarrow> bool" where
  "f_ge x y \<longleftrightarrow> f_gt x y \<or> f_eq x y"

definition f_le :: "float64 \<Rightarrow> float64 \<Rightarrow> bool" where
  "f_le x y \<longleftrightarrow> f_lt x y \<or> f_eq x y"

abbreviation f_zero :: float64 where "f_zero \<equiv> Fin 0"

section \<open>Rounding to binary64\<close>

definition rat_pow2 :: "int \<Rightarrow> rat" where
  "rat_pow2 e = (if 0 \<le> e then 2 ^ nat e else 1 / 2 ^ nat (- e))"

text \<open>The exponent \<open>e\<close> with \<open>2 ^ e \<le> q < 2 ^ (e + 1)\<close> of a positive \<open>q\<close>.\<close>

definition rat_exponent :: "rat \<Rightarrow> int" where
  "rat_exponent q =
     (let (a, b) = quotient_of q; e = bitlen a - bitlen b
      in if rat_pow2 e \<le> q then e else e - 1)"

definition round_half_even :: "rat \<Rightarrow> int" where
  "round_half_even q =
     (let n = \<lfloor>q\<rfloor>; r = q - of_int n
      in if r < 1 / 2 then n else if 1 / 2 < r then n + 1 else if even n then n else n + 1)"

definition round_mag :: "rat \<Rightarrow> rat option" where
  \<comment> \<open>binary64 magnitude nearest to a positive number; \<open>None\<close> is an overflow to infinity\<close>
  "round_mag q =
     (let u = max (rat_exponent q - 52) (- 1074);
          r = of_int (round_half_even (q / rat_pow2 u)) * rat_pow2 u
      in if 2 ^ 1024 \<le> r then None else Some r)"

definition f_round :: "rat \<Rightarrow> float64" where
  \<comment> \<open>the result of an operation whose exact value \<open>q\<close> is not zero\<close>
  "f_round q =
     (if 0 < q then (case round_mag q of None \<Rightarrow> PosInf | Some r \<Rightarrow> Fin r)
      else (case round_mag (- q) of None \<Rightarrow> NegInf
            | Some r \<Rightarrow> if r = 0 then NegZero else Fin (- r)))"

fun f_neg_sign :: "float64 \<Rightarrow> bool" where
  "f_neg_sign (Fin q) = (q < 0)"
| "f_neg_sign NegInf = True"
| "f_neg_sign NegZero = True"
| "f_neg_sign _ = False"

fun f_neg :: "float64 \<Rightarrow> float64" where
  "f_neg NaN = NaN"
| "f_neg PosInf = NegInf"
| "f_neg NegInf = PosInf"
| "f_neg NegZero = Fin 0"
| "f_neg (Fin q) = (if q = 0 then NegZero else Fin (- q))"

fun f_add :: "float64 \<Rightarrow> float64 \<Rightarrow> float64" where
  "f_add NaN _ = NaN"
| "f_add _ NaN = NaN"
| "f_add PosInf y = (if y = NegInf then NaN else PosInf)"
| "f_add NegInf y = (if y = PosInf then NaN else NegInf)"
| "f_add _ PosInf = PosInf"
| "f_add _ NegInf = NegInf"
| "f_add x y =
     (if f_num x + f_num y = 0
      then (if f_neg_sign x \<and> f_neg_sign y then NegZero else Fin 0)
      else f_round (f_num x + f_num y))"

definition f_sub :: "float64 \<Rightarrow> float64 \<Rightarrow> float64" where
  "f_sub x y = f_add x (f_neg y)"

definition f_signed_zero :: "float64 \<Rightarrow> float64 \<Rightarrow> float64" where
  "f_signed_zero x y = (if f_neg_sign x \<noteq> f_neg_sign y then NegZero else Fin 0)"

definition f_signed_inf :: "float64 \<Rightarrow> float64 \<Rightarrow> float64" where
  "f_signed_inf x y = (if f_neg_sign x \<noteq> f_neg_sign y then NegInf else PosInf)"

definition f_mul :: "float64 \<Rightarrow> float64 \<Rightarrow> float64" where
  "f_mul x y =
     (if x = NaN \<or> y = NaN then NaN
      else if f_is_inf x \<or> f_is_inf y
      then (if f_eq x (Fin 0) \<or> f_eq y (Fin 0) then NaN else f_signed_inf x y)
      else if f_num x * f_num y = 0 then f_signed_zero x y
      else f_round (f_num x * f_num y))"

definition f_div :: "float64 \<Rightarrow> float64 \<Rightarrow> float64" where
  "f_div x y =
     (if x = NaN \<or> y = NaN then NaN
      else if f_is_inf x then (if f_is_inf y then NaN else f_signed_inf x y)
      else if f_is_inf y then f_signed_zero x y
      else if f_eq y (Fin 0) then (if f_eq x (Fin 0) then NaN else f_signed_inf x y)
      else if f_num x = 0 then f_signed_zero x y
      else f_round (f_num x / f_num y))"

text \<open>\<open>math.Max\<close>, with its special cases in the order of the library.\<close>

definition f_max :: "float64 \<Rightarrow> float64 \<Rightarrow> float64" where
  "f_max x y =
     (if x = PosInf \<or> y = PosInf then PosInf
      else if x = NaN \<or> y = NaN then NaN
      else if f_eq x (Fin 0) \<and> f_eq x y then (if f_neg_sign x then y else x)
      else if f_gt x y then x else y)"

section \<open>Formatting with a fixed number of decimals\<close>

fun pad_zeros :: "nat \<Rightarrow> string \<Rightarrow> string" where
  "pad_zeros n s = replicate (n - length s) CHR ''0'' @ s"

definition fmt_mag :: "nat \<Rightarrow> rat \<Rightarrow> string" where
  "fmt_mag p q =
     (let n = nat (round_half_even (q * 10 ^ p))
      in nat_dec (n div 10 ^ p) @ ''.'' @ pad_zeros p (nat_dec (n mod 10 ^ p)))"

text \<open>\<open>%.2f\<close> and \<open>%.1f\<close>: the exact value rounded to \<open>p \<ge> 1\<close> decimals, ties to even.\<close>

fun fmt_f :: "nat \<Rightarrow> float64 \<Rightarrow> string" where
  "fmt_f p NaN = ''NaN''"
| "fmt_f p PosInf = ''+Inf''"
| "fmt_f p NegInf = ''-Inf''"
| "fmt_f p NegZero = ''-'' @ fmt_mag p 0"
| "fmt_f p (Fin q) = (if q < 0 then ''-'' @ fmt_mag p (- q) else fmt_mag p q)"

section \<open>Facts\<close>

lemma f_lt_irrefl [simp]: "\<not> f_lt x x"
  by (cases x) auto

lemma f_lt_NaN [simp]: "\<not> f_lt NaN y" "\<not> f_lt x NaN"
  by (simp_all, cases x, auto)

lemma f_eq_NaN [simp]: "\<not> f_eq NaN y" "\<not> f_eq x NaN"
  by (simp_all, cases x, auto)

lemma f_lt_Fin [simp]: "f_lt (Fin p) (Fin q) \<longleftrightarrow> p < q"
  by simp

lemma f_eq_Fin [simp]: "f_eq (Fin p) (Fin q) \<longleftrightarrow> p = q"
  by simp

lemma f_lt_trans: "f_lt x y \<Longrightarrow> f_lt y z \<Longrightarrow> f_lt x z"
  by (cases x; cases y; cases z) auto

lemma f_lt_asym: "f_lt x y \<Longrightarrow> \<not> f_lt y x"
  using f_lt_trans [of x y x] by auto

lemma f_trichotomy: "x \<noteq> NaN \<Longrightarrow> y \<noteq> NaN \<Longrightarrow> f_lt x y \<or> f_eq x y \<or> f_lt y x"
  by (cases x; cases y) auto

lemma f_eq_refl_iff: "f_eq x x \<longleftrightarrow> x \<noteq> NaN"
  by (cases x) auto

end
