(* ===== verification/Proto.thy ===== *)
theory Proto
  imports GoStrings GoTime GoFloat
begin

text \<open>
  The generated protobuf package \<open>api/proto\<close>: its enums and the messages the services
  exchange. A proto3 enum is open, so an enum value is any 32 bit integer; the name tables
  give the declared ones. A message is a record with the fields of the Go struct.
\<close>

section \<open>Enums\<close>

text \<open>\<open>EnumStringOf\<close>: the declared name, or the number in decimal for an undeclared value.\<close>

definition enum_string :: "(i32 \<times> string) list \<Rightarrow> i32 \<Rightarrow> string" where
  "enum_string names x = (case map_of names x of Some s \<Rightarrow> s | None \<Rightarrow> format_int (sint x))"

definition enum_value :: "(i32 \<times> string) list \<Rightarrow> string \<Rightarrow> i32 option" where
  "enum_value names s = map_of (map prod.swap names) s"

text \<open>Go's indexing of a map with a missing key gives the zero value.\<close>

definition enum_value_or_zero :: "(i32 \<times> string) list \<Rightarrow> string \<Rightarrow> i32" where
  "enum_value_or_zero names s = (case enum_value names s of Some v \<Rightarrow> v | None \<Rightarrow> 0)"

definition MetricStatus_name :: "(i32 \<times> string) list" where
  "MetricStatus_name =
     [(0, ''METRIC_STATUS_UNSPECIFIED''), (1, ''METRIC_STATUS_OK''),
      (2, ''METRIC_STATUS_WARNING''), (3, ''METRIC_STATUS_CRITICAL'')]"

definition AggregationType_name :: "(i32 \<times> string) list" where
  "AggregationType_name =
     [(0, ''AGGREGATION_TYPE_UNSPECIFIED''), (1, ''AGGREGATION_TYPE_AVG''),
      (2, ''AGGREGATION_TYPE_MAX''), (3, ''AGGREGATION_TYPE_MIN''),
      (4, ''AGGREGATION_TYPE_COUNT''), (5, ''AGGREGATION_TYPE_P95''),
      (6, ''AGGREGATION_TYPE_P99''), (7, ''AGGREGATION_TYPE_SUM''),
      (8, ''AGGREGATION_TYPE_STDDEV'')]"

definition TimeWindowSize_name :: "(i32 \<times> string) list" where
  "TimeWindowSize_name =
     [(0, ''TIME_WINDOW_SIZE_UNSPECIFIED''), (1, ''TIME_WINDOW_SIZE_1_MINUTE''),
      (2, ''TIME_WINDOW_SIZE_5_MINUTES''), (3, ''TIME_WINDOW_SIZE_1_HOUR''),
      (4, ''TIME_WINDOW_SIZE_1_DAY'')]"

definition DeviceStatus_name :: "(i32 \<times> string) list" where
  "DeviceStatus_name =
     [(0, ''DEVICE_STATUS_UNSPECIFIED''), (1, ''DEVICE_STATUS_ACTIVE''),
      (2, ''DEVICE_STATUS_SILENT''), (3, ''DEVICE_STATUS_DEGRADED''),
      (4, ''DEVICE_STATUS_INACTIVE'')]"

definition ThresholdType_name :: "(i32 \<times> string) list" where
  "ThresholdType_name =
     [(0, ''THRESHOLD_TYPE_UNSPECIFIED''), (1, ''HIGH''), (2, ''LOW''), (3, ''RANGE''),
      (4, ''CHANGE'')]"

definition AlertSeverity_name :: "(i32 \<times> string) list" where
  "AlertSeverity_name =
     [(0, ''ALERT_SEVERITY_UNSPECIFIED''), (1, ''CRITICAL''), (2, ''WARNING''), (3, ''INFO'')]"

abbreviation METRIC_STATUS_OK :: i32 where "METRIC_STATUS_OK \<equiv> 1"
abbreviation METRIC_STATUS_WARNING :: i32 where "METRIC_STATUS_WARNING \<equiv> 2"
abbreviation METRIC_STATUS_CRITICAL :: i32 where "METRIC_STATUS_CRITICAL \<equiv> 3"
abbreviation DEVICE_STATUS_UNSPECIFIED :: i32 where "DEVICE_STATUS_UNSPECIFIED \<equiv> 0"
abbreviation DEVICE_STATUS_ACTIVE :: i32 where "DEVICE_STATUS_ACTIVE \<equiv> 1"
abbreviation DEVICE_STATUS_SILENT :: i32 where "DEVICE_STATUS_SILENT \<equiv> 2"
abbreviation DEVICE_STATUS_DEGRADED :: i32 where "DEVICE_STATUS_DEGRADED \<equiv> 3"
abbreviation DEVICE_STATUS_INACTIVE :: i32 where "DEVICE_STATUS_INACTIVE \<equiv> 4"
abbreviation THRESHOLD_HIGH :: i32 where "THRESHOLD_HIGH \<equiv> 1"
abbreviation THRESHOLD_LOW :: i32 where "THRESHOLD_LOW \<equiv> 2"
abbreviation THRESHOLD_RANGE :: i32 where "THRESHOLD_RANGE \<equiv> 3"
abbreviation THRESHOLD_CHANGE :: i32 where "THRESHOLD_CHANGE \<equiv> 4"

text \<open>
  Go's conversion \<open>string(n)\<close> of an integer is the UTF-8 encoding of the code point \<open>n\<close>, or
  of U+FFFD where \<open>n\<close> is no code point.
\<close>

definition go_string_of_int :: "int \<Rightarrow> string" where
  "go_string_of_int v =
     (let n = nat v; tail = (\<lambda>k. char_of (128 + (n div 64 ^ k) mod 64) :: char) in
      if v < 0 \<or> 1114111 < v \<or> (55296 \<le> v \<and> v \<le> 57343)
      then [char_of (239 :: nat), char_of (191 :: nat), char_of (189 :: nat)]
      else if n < 128 then [char_of n]
      else if n < 2048 then [char_of (192 + n div 64), tail 0]
      else if n < 65536 then [char_of (224 + n div 4096), tail 1, tail 0]
      else [char_of (240 + n div 262144), tail 2, tail 1, tail 0])"

lemma go_string_of_int_nonempty [simp]: "go_string_of_int v \<noteq> []"
  by (simp add: go_string_of_int_def Let_def)

lemma go_string_of_int_shape:
  "go_string_of_int v = [char_of (nat v)] \<and> 0 \<le> v \<and> v < 128 \<or>
   (\<exists>c cs. go_string_of_int v = c # cs \<and> 128 \<le> (of_char c :: nat))"
  by (auto simp: go_string_of_int_def Let_def)

text \<open>A text of two or more ASCII bytes is never the result of \<open>string(n)\<close>.\<close>

lemma go_string_of_int_not_word:
  assumes "2 \<le> length s" "of_char (hd s) < (128 :: nat)"
  shows "go_string_of_int v \<noteq> s"
  using go_string_of_int_shape [of v] assms by (cases s) auto

section \<open>Messages of the telemetry service\<close>

text \<open>A Go map from texts to texts, as an association list without duplicate keys.\<close>

type_synonym tags = "(string \<times> string) list"

record submit_metric_request =
  smr_DeviceId :: string
  smr_MetricName :: string
  smr_Value :: float64
  smr_TimestampUnixSeconds :: i64
  smr_Tags :: tags
  smr_Status :: i32

record submit_metric_response =
  smp_Success :: bool
  smp_ServerTimestamp :: pb_time
  smp_Message :: string

record submit_batch_response =
  sbp_AcceptedCount :: i32
  sbp_RejectedCount :: i32
  sbp_ServerTimestamp :: pb_time
  sbp_Message :: string

record pb_metric_point =
  pmp_Timestamp :: pb_time
  pmp_DeviceId :: string
  pmp_MetricName :: string
  pmp_Value :: float64
  pmp_Tags :: tags
  pmp_Status :: i32

record query_metrics_request =
  qmr_DeviceId :: string
  qmr_MetricName :: string
  qmr_StartTime :: pb_time
  qmr_EndTime :: pb_time
  qmr_Limit :: i32
  qmr_Offset :: i32
  qmr_OrderAscending :: bool

record query_metrics_response =
  qmp_Points :: "pb_metric_point list"
  qmp_HasMore :: bool
  qmp_TotalCount :: i64

record get_aggregations_request =
  gar_DeviceId :: string
  gar_MetricName :: string
  gar_WindowSize :: i32
  gar_StartTime :: pb_time
  gar_EndTime :: pb_time
  gar_AggregationTypes :: "i32 list"

record aggregated_metric_point =
  amp_WindowStart :: pb_time
  amp_WindowEnd :: pb_time
  amp_Aggregations :: "(string \<times> float64) list"
  amp_Count :: i64
  amp_LastValue :: float64

record get_aggregations_response =
  gap_Aggregations :: "aggregated_metric_point list"
  gap_QueryDurationMs :: i32
  gap_FromCache :: bool
  gap_Message :: string

record get_metric_stats_request =
  gsr_DeviceId :: string
  gsr_MetricName :: string
  gsr_StartTime :: pb_time
  gsr_EndTime :: pb_time

record pb_metric_stats =
  pms_DeviceId :: string
  pms_MetricName :: string
  pms_FirstSeen :: pb_time
  pms_LastSeen :: pb_time
  pms_TotalSamples :: i64
  pms_AvgValue :: float64
  pms_MinValue :: float64
  pms_MaxValue :: float64
  pms_StddevValue :: float64
  pms_LatestValue :: float64
  pms_LatestStatus :: i32

section \<open>Messages of the device service\<close>

record pb_device =
  pd_DeviceId :: string
  pd_Floor :: string
  pd_DeviceType :: string
  pd_FirmwareVersion :: string
  pd_Status :: i32
  pd_CertificateCn :: string
  pd_ProvisionedAt :: pb_time
  pd_LastSeen :: pb_time
  pd_CreatedAt :: pb_time
  pd_UpdatedAt :: pb_time

record create_device_request =
  cdr_DeviceId :: string
  cdr_Floor :: string
  cdr_DeviceType :: string
  cdr_FirmwareVersion :: string

record create_device_response =
  cdp_DeviceId :: string
  cdp_BrokerUrl :: string
  cdp_ClientCertPem :: string
  cdp_ClientKeyPem :: string
  cdp_CaPem :: string
  cdp_ProvisionedAt :: pb_time

record get_device_response =
  gdp_Device :: "pb_device option"
  gdp_CertificateHash :: string
  gdp_CertificateExpiresAt :: pb_time

record list_devices_request =
  ldr_FilterFloor :: string
  ldr_FilterStatus :: i32
  ldr_Limit :: i32
  ldr_Offset :: i32

record list_devices_response =
  ldp_Devices :: "pb_device list"
  ldp_TotalCount :: i64

record update_device_status_request =
  udr_DeviceId :: string
  udr_NewStatus :: i32

record update_device_status_response =
  udp_Device :: "pb_device option"
  udp_StatusChangedAt :: pb_time

section \<open>Messages of the alert service\<close>

record create_threshold_request =
  ctr_DeviceId :: string
  ctr_MetricName :: string
  ctr_Type :: i32
  ctr_LowerBound :: float64
  ctr_UpperBound :: float64
  ctr_ChangePercent :: float64
  ctr_Severity :: i32
  ctr_Enabled :: bool

record pb_threshold =
  pt_ThresholdId :: string
  pt_DeviceId :: string
  pt_MetricName :: string
  pt_Type :: i32
  pt_LowerBound :: float64
  pt_UpperBound :: float64
  pt_ChangePercent :: float64
  pt_Severity :: i32
  pt_Enabled :: bool
  pt_CreatedAt :: pb_time
  pt_UpdatedAt :: pb_time

record get_thresholds_request =
  gtr_DeviceId :: string
  gtr_MetricName :: string
  gtr_OnlyEnabled :: bool

record update_threshold_request =
  utr_ThresholdId :: string
  utr_LowerBound :: float64
  utr_UpperBound :: float64
  utr_ChangePercent :: float64
  utr_Severity :: i32
  utr_Enabled :: bool

record get_active_alerts_request =
  aar_DeviceId :: string
  aar_MinSeverity :: i32
  aar_Limit :: i32
  aar_Offset :: i32

record pb_alert =
  pa_AlertId :: string
  pa_DeviceId :: string
  pa_MetricName :: string
  pa_MetricValue :: float64
  pa_ThresholdType :: i32
  pa_ThresholdValue :: float64
  pa_Severity :: i32
  pa_Message :: string
  pa_IsSilenced :: bool
  pa_TriggeredAt :: pb_time
  pa_ResolvedAt :: pb_time

record get_active_alerts_response =
  aap_Alerts :: "pb_alert list"
  aap_TotalCount :: i32
  aap_TriggeredCount :: i32

record query_alert_history_request =
  ahr_DeviceId :: string
  ahr_MetricName :: string
  ahr_StartTime :: pb_time
  ahr_EndTime :: pb_time
  ahr_Severity :: i32
  ahr_Limit :: i32

record silence_alert_request =
  sar_DeviceId :: string
  sar_MetricName :: string
  sar_DurationSeconds :: i32
  sar_Reason :: string

record pb_silence_rule =
  psr_SilenceId :: string
  psr_MetricName :: string
  psr_SilencedUntil :: pb_time
  psr_Reason :: string

record get_alert_stats_request =
  asr_DeviceId :: string
  asr_StartTime :: pb_time
  asr_EndTime :: pb_time

record get_alert_stats_response =
  asp_TotalAlerts :: i32
  asp_ActiveAlerts :: i32
  asp_BySeverity :: "(i32 \<times> i32) list"

section \<open>Facts on the enums\<close>

lemma enum_value_string:
  "distinct (map fst ns) \<Longrightarrow> distinct (map snd ns) \<Longrightarrow> x \<in> fst ` set ns \<Longrightarrow>
   enum_value ns (enum_string ns x) = Some x"
proof -
  assume d: "distinct (map fst ns)" "distinct (map snd ns)" and "x \<in> fst ` set ns"
  then obtain s where s: "(x, s) \<in> set ns" by force
  with d have "map_of ns x = Some s" by simp
  moreover have "map_of (map prod.swap ns) s = Some x"
    using s d(2) by (intro map_of_is_SomeI) (auto simp: comp_def rev_image_eqI)
  ultimately show ?thesis by (simp add: enum_value_def enum_string_def)
qed

end
