(* ===== verification/Environment.thy ===== *)
theory Environment
  imports Proto
begin

text \<open>
  What the services run in. The state (\<open>world\<close>) holds the tables of the SQL schema under
  \<open>migrations/\<close>, the Redis server's state (a type parameter: Redis is not part of the
  repository), the MQTT messages published so far and the evaluation goroutines started and
  not yet run. Everything the code does not determine is read from an environment \<open>env\<close>: the
  clock and the failures of external calls, as functions of the number of external reads made
  so far, and the commands of the Redis client. A statement that holds for every
  environment holds for every schedule of clock readings and failures.

  Times are kept to the nanosecond: PostgreSQL stores microseconds, so that two readings of the
  clock in one microsecond, which are two times here, are one there. The compression and retention
  policies of the schema, which the server runs by itself, are not modelled.
\<close>

section \<open>Errors\<close>

datatype go_error =
    ErrDeadlineExceeded
  | ErrCanceled
  | ErrPg string string    \<comment> \<open>SQLSTATE code and message of a \<open>*pgconn.PgError\<close>\<close>
  | ErrPgxNoRows
  | ErrSqlNoRows
  | ErrRedisNil
  | ErrText string         \<comment> \<open>\<open>errors.New\<close>, or \<open>fmt.Errorf\<close> without \<open>%w\<close>\<close>
  | ErrWrap string go_error \<comment> \<open>\<open>fmt.Errorf("...: %w", err)\<close>\<close>

fun err_msg :: "go_error \<Rightarrow> string" where
  "err_msg ErrDeadlineExceeded = ''context deadline exceeded''"
| "err_msg ErrCanceled = ''context canceled''"
| "err_msg (ErrPg code msg) = ''ERROR: '' @ msg @ '' (SQLSTATE '' @ code @ '')''"
| "err_msg ErrPgxNoRows = ''no rows in result set''"
| "err_msg ErrSqlNoRows = ''sql: no rows in result set''"
| "err_msg ErrRedisNil = ''redis: nil''"
| "err_msg (ErrText s) = s"
| "err_msg (ErrWrap s e) = s @ '': '' @ err_msg e"

text \<open>\<open>errors.Is\<close> against a sentinel, and \<open>errors.As\<close> to \<open>*pgconn.PgError\<close>.\<close>

fun err_is :: "go_error \<Rightarrow> go_error \<Rightarrow> bool" where
  "err_is (ErrWrap s e) t = err_is e t"
| "err_is e t = (e = t)"

fun err_as_pg :: "go_error \<Rightarrow> string option" where
  "err_as_pg (ErrPg code msg) = Some code"
| "err_as_pg (ErrWrap s e) = err_as_pg e"
| "err_as_pg _ = None"

datatype grpc_code = InvalidArgument | NotFound | Canceled | DeadlineExceeded
  | ResourceExhausted | Internal | Unknown

text \<open>A gRPC handler fails with a status, or with a bare error, which the server sends as \<open>Unknown\<close>.\<close>

datatype grpc_error = Status (st_code: grpc_code) (st_msg: string)

definition grpc_of_error :: "go_error \<Rightarrow> grpc_error" where
  "grpc_of_error e = Status Unknown (err_msg e)"

section \<open>Rows of the tables\<close>

record device =
  dv_DeviceID :: string
  dv_Floor :: string
  dv_DeviceType :: string
  dv_FirmwareVersion :: string
  dv_Status :: string
  dv_CertificateCN :: string
  dv_ProvisionnedAt :: gotime
  dv_LastSeen :: gotime
  dv_CreatedAt :: gotime
  dv_UpdatedAt :: gotime

record device_certificate =
  dc_DeviceID :: string
  dc_CertificatePEM :: string
  dc_CertificateHash :: string
  dc_ExpiresAt :: gotime
  dc_RevokedAt :: "gotime option"

record metric_point =
  mp_Timestamp :: gotime
  mp_DeviceID :: string
  mp_MetricName :: string
  mp_Value :: float64
  mp_Tags :: tags
  mp_Status :: string

text \<open>The row of \<open>metrics\<close>: the tags column holds the JSON text.\<close>

record metric_row =
  mr_Time :: gotime
  mr_DeviceID :: string
  mr_MetricName :: string
  mr_Value :: float64
  mr_TagsJSON :: string
  mr_Status :: string

record threshold =
  th_ThresholdID :: string
  th_DeviceID :: string
  th_MetricName :: string
  th_Type :: string
  th_LowerBound :: float64
  th_UpperBound :: float64
  th_ChangePercent :: float64
  th_Severity :: string
  th_Enabled :: bool
  th_CreatedAt :: gotime
  th_UpdatedAt :: gotime

record alert =
  al_AlertID :: string
  al_DeviceID :: string
  al_MetricName :: string
  al_MetricValue :: float64
  al_ThresholdType :: string
  al_ThresholdValue :: float64
  al_Severity :: string
  al_Message :: string
  al_IsSilenced :: bool
  al_TriggeredAt :: gotime
  al_ResolvedAt :: "gotime option"

record silence_rule =
  sl_SilenceID :: string
  sl_DeviceID :: string
  sl_MetricName :: "string option"
  sl_SilencedUntil :: gotime
  sl_Reason :: string

record aggregation_result =
  ar_WindowStart :: gotime
  ar_WindowEnd :: gotime
  ar_AvgValue :: float64
  ar_MaxValue :: float64
  ar_MinValue :: float64
  ar_Count :: i64
  ar_P95 :: float64
  ar_P99 :: float64

section \<open>MQTT payloads\<close>

record alert_mqtt_message =
  am_AlertID :: string
  am_DeviceID :: string
  am_MetricName :: string
  am_Message :: string
  am_Severity :: string
  am_MetricValue :: float64
  am_TriggeredAt :: gotime

record silent_status_payload =
  ss_DeviceID :: string
  ss_Status :: string
  ss_Reason :: string
  ss_Timestamp :: gotime

datatype mqtt_payload = AlertPayload alert_mqtt_message | SilentPayload silent_status_payload

section \<open>State and environment\<close>

text \<open>The table \<open>alerts\<close> has a \<open>time\<close> column, filled by the server, beside the alert's fields.\<close>

record 'r world =
  w_tick :: nat
  w_redis :: 'r
  w_devices :: "device list"
  w_certs :: "device_certificate list"
  w_metrics :: "metric_row list"
  w_thresholds :: "threshold list"
  w_alerts :: "(alert \<times> gotime) list"
  w_silences :: "silence_rule list"
  w_published :: "(string \<times> mqtt_payload) list"
  w_tasks :: "(string \<times> string \<times> float64) list"

record 'r redis_ops =
  r_get :: "string \<Rightarrow> 'r \<Rightarrow> (go_error + string) \<times> 'r"
  r_set :: "string \<Rightarrow> string \<Rightarrow> int \<Rightarrow> 'r \<Rightarrow> go_error option \<times> 'r"
  r_setnx :: "string \<Rightarrow> string \<Rightarrow> int \<Rightarrow> 'r \<Rightarrow> (go_error + bool) \<times> 'r"
  r_del :: "string list \<Rightarrow> 'r \<Rightarrow> (go_error + int) \<times> 'r"
  r_scan :: "i64 \<Rightarrow> string \<Rightarrow> int \<Rightarrow> 'r \<Rightarrow> (go_error + string list \<times> i64) \<times> 'r"
  r_exists :: "string \<Rightarrow> 'r \<Rightarrow> (go_error + int) \<times> 'r"
  r_info :: "string \<Rightarrow> 'r \<Rightarrow> (go_error + string) \<times> 'r"

text \<open>A Redis command on the state of the services.\<close>

definition redis_do :: "('r \<Rightarrow> 'a \<times> 'r) \<Rightarrow> 'r world \<Rightarrow> 'a \<times> 'r world" where
  "redis_do f w = (let (a, r) = f (w_redis w) in (a, w\<lparr>w_redis := r\<rparr>))"

text \<open>
  \<open>e_redis\<close> is \<open>None\<close> where the service was started without a client. \<open>e_pgmsg\<close> is the text
  the database server attaches to a SQLSTATE; the fields \<open>e_json_*\<close> are \<open>encoding/json\<close> on the
  two types that are cached; \<open>e_agg\<close> runs a query on the Timescale continuous aggregates;
  \<open>e_avg\<close>, \<open>e_stddev\<close> and \<open>e_collate\<close> are the server's floating point aggregates and text order.
  \<open>e_calls d n\<close> is how many Redis calls fit into a timeout of \<open>d\<close> that starts at the external read \<open>n\<close>.
\<close>

record 'r env =
  e_clock :: "nat \<Rightarrow> gotime"
  e_fault :: "nat \<Rightarrow> go_error option"
  e_redis :: "'r redis_ops option"
  e_pgmsg :: "string \<Rightarrow> string"
  e_json_device :: "device \<Rightarrow> go_error + string"
  e_unjson_device :: "string \<Rightarrow> go_error + device"
  e_json_aggs :: "aggregated_metric_point list \<Rightarrow> go_error + string"
  e_unjson_aggs :: "string \<Rightarrow> go_error + aggregated_metric_point list"
  e_agg :: "string \<Rightarrow> string \<Rightarrow> string \<Rightarrow> gotime \<Rightarrow> gotime \<Rightarrow> go_error + (gotime \<times> gotime \<times>
     float64 \<times> float64 \<times> float64 \<times> float64 option \<times> float64 option \<times> i64) list"
  e_avg :: "float64 list \<Rightarrow> float64"
  e_stddev :: "float64 list \<Rightarrow> float64 option"
  e_collate :: "string list \<Rightarrow> string list"
  e_calls :: "int \<Rightarrow> nat \<Rightarrow> nat"

text \<open>
  The context of a sequence of Redis calls: \<open>None\<close> is never done, \<open>Some n\<close> is done after \<open>n\<close> further
  calls, by its deadline or by a cancellation. A call with a context that is done fails and does
  nothing.
\<close>

type_synonym ctx = "nat option"

definition ctx_do ::
    "ctx \<Rightarrow> ('r \<Rightarrow> (go_error + 'a) \<times> 'r) \<Rightarrow> 'r world \<Rightarrow> (go_error + 'a) \<times> ctx \<times> 'r world" where
  "ctx_do c f w =
     (if c = Some 0 then (Inl ErrDeadlineExceeded, c, w)
      else (case redis_do f w of (x, w1) \<Rightarrow> (x, map_option (\<lambda>n. n - 1) c, w1)))"

text \<open>\<open>context.WithTimeout\<close>: the context for the calls from here to the deadline.\<close>

definition with_timeout :: "'r env \<Rightarrow> int \<Rightarrow> 'r world \<Rightarrow> ctx" where
  "with_timeout E d w = Some (e_calls E d (w_tick w))"

lemma ctx_do_cases:
  assumes "ctx_do c f w = (x, c', w')"
  obtains (over) "c = Some 0" "x = Inl ErrDeadlineExceeded" "c' = c" "w' = w"
  | (call) "c \<noteq> Some 0" "redis_do f w = (x, w')" "c' = map_option (\<lambda>n. n - 1) c"
  using assms by (auto simp: ctx_do_def split: if_splits prod.splits)

lemma ctx_do_background [simp]: "ctx_do None f w = (case redis_do f w of (x, w1) \<Rightarrow> (x, None, w1))"
  by (simp add: ctx_do_def)

text \<open>\<open>time.Now().UTC()\<close> and SQL's \<open>NOW()\<close> read the clock; every external call may fail.\<close>

definition time_now :: "'r env \<Rightarrow> 'r world \<Rightarrow> gotime \<times> 'r world" where
  "time_now E w = (e_clock E (w_tick w), w\<lparr>w_tick := Suc (w_tick w)\<rparr>)"

definition ext_fault :: "'r env \<Rightarrow> 'r world \<Rightarrow> go_error option \<times> 'r world" where
  "ext_fault E w = (e_fault E (w_tick w), w\<lparr>w_tick := Suc (w_tick w)\<rparr>)"

definition pg_error :: "'r env \<Rightarrow> string \<Rightarrow> go_error" where
  "pg_error E code = ErrPg code (e_pgmsg E code)"

section \<open>Column constraints\<close>

text \<open>
  The checks PostgreSQL makes on a row before storing it, as pairs of a condition and the
  SQLSTATE raised where it fails; the first failing one is the error. A text parameter must
  not hold a zero byte (22021), a \<open>VARCHAR(n)\<close> at most \<open>n\<close> characters (22001).
\<close>

definition first_violation :: "(bool \<times> string) list \<Rightarrow> string option" where
  "first_violation cs = map_option snd (List.find (\<lambda>(ok, code). \<not> ok) cs)"

definition utf8_len :: "string \<Rightarrow> nat" where
  "utf8_len s = length (filter (\<lambda>c. \<not> (128 \<le> (of_char c :: nat) \<and> (of_char c :: nat) < 192)) s)"

definition no_nul :: "string \<Rightarrow> bool" where
  "no_nul s \<longleftrightarrow> (\<forall>c \<in> set s. (of_char c :: nat) \<noteq> 0)"

definition text_ok :: "string list \<Rightarrow> bool \<times> string" where
  "text_ok ss = (list_all no_nul ss, ''22021'')"

definition varchar_ok :: "nat \<Rightarrow> string \<Rightarrow> bool \<times> string" where
  "varchar_ok n s = (utf8_len s \<le> n, ''22001'')"

lemma first_violation_Nil [simp]: "first_violation [] = None"
  by (simp add: first_violation_def)

lemma first_violation_Cons [simp]:
  "first_violation ((ok, code) # cs) = (if ok then first_violation cs else Some code)"
  by (simp add: first_violation_def)

lemma first_violation_text_ok [simp]:
  "first_violation (text_ok ss # cs) =
     (if list_all no_nul ss then first_violation cs else Some ''22021'')"
  by (simp add: text_ok_def)

lemma first_violation_varchar_ok [simp]:
  "first_violation (varchar_ok n s # cs) =
     (if utf8_len s \<le> n then first_violation cs else Some ''22001'')"
  by (simp add: varchar_ok_def)

text \<open>\<open>ORDER BY k DESC\<close>; rows with equal keys keep the order in which they were stored.\<close>

definition sort_desc :: "('a \<Rightarrow> 'k :: linorder) \<Rightarrow> 'a list \<Rightarrow> 'a list" where
  "sort_desc k xs = rev (sort_key k (rev xs))"

lemma set_sort_desc [simp]: "set (sort_desc k xs) = set xs"
  by (simp add: sort_desc_def)

lemma length_sort_desc [simp]: "length (sort_desc k xs) = length xs"
  by (simp add: sort_desc_def)

lemma sorted_sort_desc: "sorted_wrt (\<ge>) (map k (sort_desc k xs))"
proof -
  have "sorted (map k (sort_key k (rev xs)))" by (rule sorted_sort_key)
  then show ?thesis by (simp add: sort_desc_def rev_map [symmetric] sorted_wrt_rev)
qed

section \<open>Frame facts\<close>

lemma time_now_simps [simp]:
  "fst (time_now E w) = e_clock E (w_tick w)"
  "snd (time_now E w) = w\<lparr>w_tick := Suc (w_tick w)\<rparr>"
  by (simp_all add: time_now_def)

lemma ext_fault_simps [simp]:
  "fst (ext_fault E w) = e_fault E (w_tick w)"
  "snd (ext_fault E w) = w\<lparr>w_tick := Suc (w_tick w)\<rparr>"
  by (simp_all add: ext_fault_def)

text \<open>
  The part of the state an operation can matter for: everything but the read counter. Two
  worlds agree on it when they differ in the counter at most.
\<close>

definition same_data :: "'r world \<Rightarrow> 'r world \<Rightarrow> bool" where
  "same_data w w' \<longleftrightarrow> w\<lparr>w_tick := 0\<rparr> = w'\<lparr>w_tick := 0\<rparr>"

lemma same_data_refl [simp]: "same_data w w"
  by (simp add: same_data_def)

lemma same_data_tick [simp]: "same_data (w\<lparr>w_tick := n\<rparr>) w" "same_data w (w\<lparr>w_tick := n\<rparr>)"
  by (simp_all add: same_data_def)

lemma same_data_trans: "same_data w w' \<Longrightarrow> same_data w' w'' \<Longrightarrow> same_data w w''"
  by (simp add: same_data_def)

lemma same_dataD:
  assumes "same_data w w'"
  shows "w_metrics w = w_metrics w'" "w_devices w = w_devices w'" "w_certs w = w_certs w'"
    "w_thresholds w = w_thresholds w'" "w_alerts w = w_alerts w'" "w_silences w = w_silences w'"
    "w_published w = w_published w'" "w_tasks w = w_tasks w'" "w_redis w = w_redis w'"
  using assms by (cases w; cases w'; simp add: same_data_def)+

lemma same_data_restore:
  assumes "same_data w' w"
  shows "same_data (w'\<lparr>w_alerts := w_alerts w\<rparr>) w" "same_data (w'\<lparr>w_metrics := w_metrics w\<rparr>) w"
    "same_data (w'\<lparr>w_devices := w_devices w\<rparr>) w" "same_data (w'\<lparr>w_redis := w_redis w\<rparr>) w"
  using assms by (cases w; cases w'; simp add: same_data_def)+

text \<open>The part no Redis command touches.\<close>

definition db_part :: "'r world \<Rightarrow> 'r world" where
  "db_part w = w\<lparr>w_redis := undefined\<rparr>"

lemma redis_do_db_part [frame]: "redis_do f w = (a, w') \<Longrightarrow> db_part w' = db_part w"
  by (auto simp: redis_do_def db_part_def Let_def split: prod.splits)

lemma db_partD:
  assumes "db_part w' = db_part w"
  shows "w_metrics w' = w_metrics w" "w_devices w' = w_devices w" "w_certs w' = w_certs w"
    "w_thresholds w' = w_thresholds w" "w_alerts w' = w_alerts w" "w_silences w' = w_silences w"
    "w_published w' = w_published w" "w_tasks w' = w_tasks w" "w_tick w' = w_tick w"
  using assms by (cases w; cases w'; simp add: db_part_def)+

text \<open>The tables, publications and tasks: neither the counter nor Redis.\<close>

definition tables_same :: "'r world \<Rightarrow> 'r world \<Rightarrow> bool" where
  "tables_same w' w \<longleftrightarrow>
     w'\<lparr>w_tick := 0, w_redis := undefined\<rparr> = w\<lparr>w_tick := 0, w_redis := undefined\<rparr>"

lemma tables_same_refl [simp]: "tables_same w w"
  by (simp add: tables_same_def)

lemma tables_same_trans: "tables_same w2 w1 \<Longrightarrow> tables_same w1 w \<Longrightarrow> tables_same w2 w"
  by (simp add: tables_same_def)

lemma tables_same_same_data: "same_data w' w \<Longrightarrow> tables_same w' w"
  by (cases w; cases w') (simp add: same_data_def tables_same_def)

lemma tables_same_db_part: "db_part w' = db_part w \<Longrightarrow> tables_same w' w"
  by (cases w; cases w') (simp add: db_part_def tables_same_def)

lemma tables_sameD:
  assumes "tables_same w' w"
  shows "w_metrics w' = w_metrics w" "w_devices w' = w_devices w" "w_certs w' = w_certs w"
    "w_thresholds w' = w_thresholds w" "w_alerts w' = w_alerts w" "w_silences w' = w_silences w"
    "w_published w' = w_published w" "w_tasks w' = w_tasks w"
  using assms by (cases w; cases w'; simp add: tables_same_def)+

end
