(* ===== verification/Interfaces.thy ===== *)
theory Interfaces
  imports Environment "HOL-Library.Multiset"
begin

text \<open>
  The interfaces between the components, as locales: the operations a client calls and the
  laws it relies on. The component that provides an interface interprets it on its own
  definitions. \<open>run_all\<close> performs an operation on a list of arguments, one after the other.
\<close>

fun run_all :: "('a \<Rightarrow> 's \<Rightarrow> 'b \<times> 's) \<Rightarrow> 'a list \<Rightarrow> 's \<Rightarrow> 'b list \<times> 's" where
  "run_all f [] s = ([], s)"
| "run_all f (x # xs) s =
     (let (r, s1) = f x s; (rs, s2) = run_all f xs s1 in (r # rs, s2))"

lemma run_all_length: "run_all f xs s = (rs, s') \<Longrightarrow> length rs = length xs"
  by (induction xs arbitrary: s rs) (auto simp: Let_def split: prod.splits)

lemma run_all_invariant:
  assumes "\<And>x s r s'. f x s = (r, s') \<Longrightarrow> P s \<Longrightarrow> P s'" "run_all f xs s = (rs, s')" "P s"
  shows "P s'"
  using assms(2,3)
proof (induction xs arbitrary: s rs)
  case Nil
  then show ?case by simp
next
  case (Cons x xs)
  then show ?case by (auto simp: Let_def split: prod.splits dest: assms(1))
qed

section \<open>The metric store\<close>

text \<open>
  \<open>TelemetryStore\<close> of \<open>telemetry_service.go\<close>, its writing part: an insert that reports success
  has the point's key stored, whether by this insert or an earlier one; one that reports an
  error stores nothing.
\<close>

locale telemetry_store =
  fixes insert_point :: "'p \<Rightarrow> 's \<Rightarrow> go_error option \<times> 's"
    and key :: "'p \<Rightarrow> 'k"
    and keys :: "'s \<Rightarrow> 'k set"
  assumes insert_ok: "insert_point p s = (None, s') \<Longrightarrow> keys s' = insert (key p) (keys s)"
    and insert_err: "insert_point p s = (Some e, s') \<Longrightarrow> keys s' = keys s"
begin

lemma keys_grow: "insert_point p s = (r, s') \<Longrightarrow> keys s \<subseteq> keys s'"
  by (cases r) (auto dest: insert_ok insert_err)

lemma run_keys:
  "run_all insert_point ps s = (rs, s') \<Longrightarrow>
   keys s' = keys s \<union> {key p |p. (p, None) \<in> set (zip ps rs)}"
proof (induction ps arbitrary: s rs)
  case Nil
  then show ?case by simp
next
  case (Cons p ps)
  from Cons.prems obtain r s1 rs1 where
    step: "insert_point p s = (r, s1)" "run_all insert_point ps s1 = (rs1, s')" "rs = r # rs1"
    by (auto simp: Let_def split: prod.splits)
  from step(1) have "keys s1 = keys s \<union> (if r = None then {key p} else {})"
    by (cases r) (auto dest: insert_ok insert_err)
  with Cons.IH [OF step(2)] step(3) show ?case by auto
qed

lemma acknowledged_stored:
  "run_all insert_point ps s = (rs, s') \<Longrightarrow> (p, None) \<in> set (zip ps rs) \<Longrightarrow> key p \<in> keys s'"
  by (auto simp: run_keys)

end

text \<open>
  The writing part with batches: a batch that reports success has the keys of all its points
  stored, one that reports an error stores nothing. The write worker uses the one or the other.
\<close>

locale batch_store = telemetry_store insert_point key keys
  for insert_point :: "'p \<Rightarrow> 's \<Rightarrow> go_error option \<times> 's" and key :: "'p \<Rightarrow> 'k" and keys :: "'s \<Rightarrow> 'k set" +
  fixes insert_batch :: "'p list \<Rightarrow> 's \<Rightarrow> go_error option \<times> 's"
  assumes batch_ok: "insert_batch ps s = (None, s') \<Longrightarrow> keys s' = keys s \<union> key ` set ps"
    and batch_err: "insert_batch ps s = (Some e, s') \<Longrightarrow> keys s' = keys s"
begin

lemma write_keys:
  assumes "(if length ps = 1 then insert_point (hd ps) s else insert_batch ps s) = (r, s')"
  shows "keys s' = keys s \<union> (if r = None then key ` set ps else {})"
proof (cases "length ps = 1")
  case True
  then obtain p where "ps = [p]" by (auto simp: length_Suc_conv)
  with assms show ?thesis by (cases r) (auto dest: insert_ok insert_err)
next
  case False
  with assms show ?thesis by (cases r) (auto dest: batch_ok batch_err)
qed

end

section \<open>Parts that run side by side\<close>

text \<open>
  A step relation and what each of its steps keeps: the invariants of the write queue, of the
  evaluation goroutines and of the services together are instances.
\<close>

locale step_invariant =
  fixes step :: "'s \<Rightarrow> 's \<Rightarrow> bool" and inv :: "'s \<Rightarrow> bool"
  assumes kept: "step s s' \<Longrightarrow> inv s \<Longrightarrow> inv s'"
begin

lemma run_kept: "step\<^sup>*\<^sup>* s s' \<Longrightarrow> inv s \<Longrightarrow> inv s'"
  by (induction rule: rtranclp_induct) (auto dest: kept)

end

text \<open>Where the steps also only go upwards in an order, so do the runs.\<close>

locale step_order = step_invariant step inv
  for step :: "'s \<Rightarrow> 's \<Rightarrow> bool" and inv :: "'s \<Rightarrow> bool" +
  fixes le :: "'s \<Rightarrow> 's \<Rightarrow> bool"
  assumes le_refl: "le s s" and le_trans: "le s1 s2 \<Longrightarrow> le s2 s3 \<Longrightarrow> le s1 s3"
    and upwards: "step s s' \<Longrightarrow> inv s \<Longrightarrow> le s s'"
begin

lemma run_upwards: "step\<^sup>*\<^sup>* s s' \<Longrightarrow> inv s \<Longrightarrow> inv s' \<and> le s s'"
  by (induction rule: rtranclp_induct) (auto dest: kept upwards intro: le_refl le_trans)

end

section \<open>The alert log\<close>

text \<open>
  The part of \<open>AlertStore\<close> the evaluators write to: the log of the alerts. A successful insert
  appends the alert, a failing one leaves the log as it is, and nothing else touches it.
\<close>

locale alert_log =
  fixes insert_alert :: "'a \<Rightarrow> 's \<Rightarrow> go_error option \<times> 's"
    and log :: "'s \<Rightarrow> 'a list"
  assumes log_ok: "insert_alert a s = (None, s') \<Longrightarrow> log s' = log s @ [a]"
    and log_err: "insert_alert a s = (Some e, s') \<Longrightarrow> log s' = log s"
begin

lemma log_step: "insert_alert a s = (r, s') \<Longrightarrow> log s' = log s @ (if r = None then [a] else [])"
  by (cases r) (auto dest: log_ok log_err)

lemma log_prefix: "insert_alert a s = (r, s') \<Longrightarrow> prefix (log s) (log s')"
  by (auto dest: log_step)

lemma run_log:
  "run_all insert_alert as s = (rs, s') \<Longrightarrow>
   log s' = log s @ map fst (filter (\<lambda>(a, r). r = None) (zip as rs))"
proof (induction as arbitrary: s rs)
  case Nil
  then show ?case by simp
next
  case (Cons a as)
  from Cons.prems obtain r s1 rs1 where
    step: "insert_alert a s = (r, s1)" "run_all insert_alert as s1 = (rs1, s')" "rs = r # rs1"
    by (auto simp: Let_def split: prod.splits)
  from log_step [OF step(1)] Cons.IH [OF step(2)] step(3) show ?case by auto
qed

end

section \<open>Bounded buffers\<close>

text \<open>
  A channel of limited capacity with the policy of its sender when it is full: \<open>put\<close> returns
  the elements that are lost by it and the new content. What is sent is either in the buffer
  or lost, the capacity is kept, and nothing is lost while there is room.
\<close>

locale bounded_buffer =
  fixes cap :: nat
    and put :: "'a \<Rightarrow> 'a list \<Rightarrow> 'a list \<times> 'a list"
  assumes put_bound: "length q \<le> cap \<Longrightarrow> put x q = (lost, q') \<Longrightarrow> length q' \<le> cap"
    and put_conserves: "put x q = (lost, q') \<Longrightarrow> mset q' + mset lost = add_mset x (mset q)"
    and put_room: "length q < cap \<Longrightarrow> put x q = (lost, q') \<Longrightarrow> q' = q @ [x] \<and> lost = []"
begin

lemma run_bound: "run_all put xs q = (ls, q') \<Longrightarrow> length q \<le> cap \<Longrightarrow> length q' \<le> cap"
  by (rule run_all_invariant [where f = put and xs = xs and s = q and rs = ls]) (auto intro: put_bound)

lemma run_conserves:
  "run_all put xs q = (ls, q') \<Longrightarrow> mset q' + mset (concat ls) = mset q + mset xs"
proof (induction xs arbitrary: q ls)
  case Nil
  then show ?case by simp
next
  case (Cons x xs)
  from Cons.prems obtain l q1 ls1 where
    step: "put x q = (l, q1)" "run_all put xs q1 = (ls1, q')" "ls = l # ls1"
    by (auto simp: Let_def split: prod.splits)
  have "mset q' + mset (concat ls) = (mset q' + mset (concat ls1)) + mset l"
    by (simp add: step(3))
  also have "\<dots> = (mset q1 + mset l) + mset xs"
    by (simp add: Cons.IH [OF step(2)])
  also have "\<dots> = mset q + mset (x # xs)"
    by (simp add: put_conserves [OF step(1)])
  finally show ?case .
qed

text \<open>Every element sent is either kept or lost: the counts add up.\<close>

lemma run_count:
  "run_all put xs q = (ls, q') \<Longrightarrow> length q' + length (concat ls) = length q + length xs"
  using run_conserves [of xs q ls q'] by (metis size_mset size_union)

lemma run_room:
  "run_all put xs q = (ls, q') \<Longrightarrow> length q + length xs \<le> cap \<Longrightarrow>
   q' = q @ xs \<and> concat ls = []"
proof (induction xs arbitrary: q ls)
  case Nil
  then show ?case by simp
next
  case (Cons x xs)
  from Cons.prems(1) obtain l q1 ls1 where
    step: "put x q = (l, q1)" "run_all put xs q1 = (ls1, q')" "ls = l # ls1"
    by (auto simp: Let_def split: prod.splits)
  from Cons.prems(2) put_room [OF _ step(1)] have "q1 = q @ [x]" "l = []" by simp_all
  with Cons.IH [OF step(2)] Cons.prems(2) step(3) show ?case by simp
qed

end

end
