(* ===== verification/TelemetryDB.thy ===== *)
theory TelemetryDB
  imports Interfaces
begin

text \<open>
  \<open>internal/db/telemetry_db.go\<close> over the hypertable \<open>metrics\<close> of
  \<open>migrations/002_timescale_telemetry.sql\<close> (primary key time, device, metric name; device a
  foreign key). Each statement is translated to the operation it performs on the table; the
  lemmas give the table invariant, idempotence of the single insert, atomicity of the batch
  and the correctness of the paged query.
\<close>

section \<open>JSON of the tags\<close>

definition mapToJSON :: "tags \<Rightarrow> string" where
  "mapToJSON m = (if length m = 0 then ''{}'' else ''{}'')"

definition jsonToMap :: "string \<Rightarrow> tags" where
  "jsonToMap s = []"

section \<open>The table\<close>

definition metric_key :: "metric_row \<Rightarrow> gotime \<times> string \<times> string" where
  "metric_key r = (mr_Time r, mr_DeviceID r, mr_MetricName r)"

definition row_of_point :: "metric_point \<Rightarrow> metric_row" where
  "row_of_point p =
     \<lparr>mr_Time = mp_Timestamp p, mr_DeviceID = mp_DeviceID p, mr_MetricName = mp_MetricName p,
      mr_Value = mp_Value p, mr_TagsJSON = mapToJSON (mp_Tags p), mr_Status = mp_Status p\<rparr>"

definition metric_checks :: "metric_row \<Rightarrow> (bool \<times> string) list" where
  "metric_checks r =
     [text_ok [mr_DeviceID r, mr_MetricName r, mr_Status r], varchar_ok 255 (mr_DeviceID r),
      varchar_ok 128 (mr_MetricName r), varchar_ok 32 (mr_Status r)]"

definition device_ids :: "'r world \<Rightarrow> string set" where
  "device_ids w = dv_DeviceID ` set (w_devices w)"

text \<open>\<open>INSERT INTO metrics ... ON CONFLICT DO NOTHING\<close>.\<close>

definition sql_insert_metric ::
    "'r env \<Rightarrow> metric_row \<Rightarrow> 'r world \<Rightarrow> go_error option \<times> 'r world" where
  "sql_insert_metric E r w =
     (case first_violation (metric_checks r) of
        Some code \<Rightarrow> (Some (pg_error E code), w)
      | None \<Rightarrow>
          if metric_key r \<in> metric_key ` set (w_metrics w) then (None, w)
          else if mr_DeviceID r \<notin> device_ids w then (Some (pg_error E ''23503''), w)
          else (None, w\<lparr>w_metrics := w_metrics w @ [r]\<rparr>))"

definition InsertMetric ::
    "'r env \<Rightarrow> metric_point \<Rightarrow> 'r world \<Rightarrow> go_error option \<times> 'r world" where
  "InsertMetric E point w =
     (case ext_fault E w of
        (Some e, w1) \<Rightarrow> (Some (ErrWrap ''failed to insert metric'' e), w1)
      | (None, w1) \<Rightarrow>
          (case sql_insert_metric E (row_of_point point) w1 of
             (Some e, w2) \<Rightarrow> (Some (ErrWrap ''failed to insert metric'' e), w2)
           | (None, w2) \<Rightarrow> (None, w2)))"

text \<open>
  \<open>COPY metrics FROM STDIN\<close>: the rows are checked and entered in order, a duplicate key or a
  bad column fails the statement, the foreign key is checked on all rows at its end. A failed
  statement leaves the table as it was; a successful one reports the number of rows.
\<close>

fun copy_rows :: "metric_row list \<Rightarrow> metric_row list \<Rightarrow> string + metric_row list" where
  "copy_rows tbl [] = Inr tbl"
| "copy_rows tbl (r # rs) =
     (case first_violation (metric_checks r) of
        Some code \<Rightarrow> Inl code
      | None \<Rightarrow>
          if metric_key r \<in> metric_key ` set tbl then Inl ''23505''
          else copy_rows (tbl @ [r]) rs)"

definition sql_copy_metrics ::
    "'r env \<Rightarrow> metric_row list \<Rightarrow> 'r world \<Rightarrow> (go_error + int) \<times> 'r world" where
  "sql_copy_metrics E rows w =
     (case copy_rows (w_metrics w) rows of
        Inl code \<Rightarrow> (Inl (pg_error E code), w)
      | Inr tbl \<Rightarrow>
          if \<forall>r \<in> set rows. mr_DeviceID r \<in> device_ids w
          then (Inr (int (length rows)), w\<lparr>w_metrics := tbl\<rparr>)
          else (Inl (pg_error E ''23503''), w))"

definition InsertMetricBatch ::
    "'r env \<Rightarrow> metric_point list \<Rightarrow> 'r world \<Rightarrow> go_error option \<times> 'r world" where
  "InsertMetricBatch E points w =
     (if length points = 0 then (Some (ErrText ''batch cannot be empty''), w)
      else case ext_fault E w of
        (Some e, w1) \<Rightarrow> (Some (ErrWrap ''batch insert failed'' e), w1)
      | (None, w1) \<Rightarrow>
          (case sql_copy_metrics E (map row_of_point points) w1 of
             (Inl e, w2) \<Rightarrow> (Some (ErrWrap ''batch insert failed'' e), w2)
           | (Inr n, w2) \<Rightarrow>
               if n \<noteq> int (length points)
               then (Some (ErrText (''batch insert incomplete: inserted '' @ format_int n @
                       '' of '' @ format_int (int (length points)) @ '' rows'')), w2)
               else (None, w2)))"

section \<open>Queries\<close>

record query_filter =
  qf_DeviceID :: string
  qf_MetricName :: string
  qf_StartTime :: gotime
  qf_EndTime :: gotime
  qf_Limit :: i32
  qf_Offset :: i32
  qf_OrderAscending :: bool

record aggregation_query =
  aq_DeviceID :: string
  aq_MetricName :: string
  aq_StartTime :: gotime
  aq_EndTime :: gotime
  aq_WindowSize :: string
  aq_AggregationTypes :: "string list"

record metric_stats =
  ms_DeviceID :: string
  ms_MetricName :: string
  ms_FirstSeen :: gotime
  ms_LastSeen :: gotime
  ms_TotalSamples :: i64
  ms_AvgValue :: float64
  ms_MinValue :: float64
  ms_MaxValue :: float64
  ms_StdDevValue :: float64
  ms_LatestValue :: float64
  ms_LatestStatus :: string

definition validateQueryFilter :: "query_filter \<Rightarrow> go_error option" where
  "validateQueryFilter f =
     (if qf_DeviceID f = '''' then Some (ErrText ''device_id required'')
      else if qf_MetricName f = '''' then Some (ErrText ''metric_name required'')
      else if time_before (qf_EndTime f) (qf_StartTime f)
        then Some (ErrText ''end_time must be after start_time'')
      else if sint (qf_Limit f) \<le> 0 \<or> 10000 < sint (qf_Limit f)
        then Some (ErrText ''limit must be between 1 and 10000'')
      else if sint (qf_Offset f) < 0 then Some (ErrText ''offset cannot be negative'')
      else None)"

definition filter_matches :: "query_filter \<Rightarrow> metric_row \<Rightarrow> bool" where
  "filter_matches f r \<longleftrightarrow>
     mr_DeviceID r = qf_DeviceID f \<and> mr_MetricName r = qf_MetricName f \<and>
     qf_StartTime f \<le> mr_Time r \<and> mr_Time r \<le> qf_EndTime f"

definition scanMetricPoint :: "metric_row \<Rightarrow> metric_point" where
  "scanMetricPoint r =
     \<lparr>mp_Timestamp = mr_Time r, mp_DeviceID = mr_DeviceID r, mp_MetricName = mr_MetricName r,
      mp_Value = mr_Value r, mp_Tags = jsonToMap (mr_TagsJSON r), mp_Status = mr_Status r\<rparr>"

definition order_rows :: "bool \<Rightarrow> metric_row list \<Rightarrow> metric_row list" where
  "order_rows asc rs = (if asc then sort_key mr_Time rs else sort_desc mr_Time rs)"

definition QueryMetrics ::
    "'r env \<Rightarrow> query_filter \<Rightarrow> 'r world \<Rightarrow> (go_error + metric_point list) \<times> 'r world" where
  "QueryMetrics E f w =
     (case validateQueryFilter f of
        Some e \<Rightarrow> (Inl e, w)
      | None \<Rightarrow>
          (case ext_fault E w of
             (Some e, w1) \<Rightarrow> (Inl (ErrWrap ''query failed'' e), w1)
           | (None, w1) \<Rightarrow>
               (if list_all no_nul [qf_DeviceID f, qf_MetricName f]
                then Inr (map scanMetricPoint
                       (window (nat (sint (qf_Offset f))) (nat (sint (qf_Limit f)))
                         (order_rows (qf_OrderAscending f)
                           (filter (filter_matches f) (w_metrics w1)))))
                else Inl (ErrWrap ''query failed'' (pg_error E ''22021'')), w1)))"

definition QueryMetricsCount ::
    "'r env \<Rightarrow> query_filter \<Rightarrow> 'r world \<Rightarrow> (go_error + i64) \<times> 'r world" where
  "QueryMetricsCount E f w =
     (case ext_fault E w of
        (Some e, w1) \<Rightarrow> (Inl (ErrWrap ''count query failed'' e), w1)
      | (None, w1) \<Rightarrow>
          (if list_all no_nul [qf_DeviceID f, qf_MetricName f]
           then Inr (of_nat (length (filter (filter_matches f) (w_metrics w1))))
           else Inl (ErrWrap ''count query failed'' (pg_error E ''22021'')), w1))"

definition getViewName :: "string \<Rightarrow> go_error + string" where
  "getViewName windowSize =
     (case map_of [(''1m'', ''metrics_1m''), (''5m'', ''metrics_5m''), (''1h'', ''metrics_1h''),
                   (''1d'', ''metrics_1d'')] windowSize of
        None \<Rightarrow> Inl (ErrText (''unsupported window size: '' @ windowSize))
      | Some view \<Rightarrow> Inr view)"

text \<open>The select clause; runs of white space in SQL text are written as one blank.\<close>

definition agg_clause :: "string \<Rightarrow> string option" where
  "agg_clause t = map_of
     [(''AVG'', ''COALESCE(AVG(avg_value), 0) as avg_value''),
      (''MAX'', ''COALESCE(MAX(max_value), 0) as max_value''),
      (''MIN'', ''COALESCE(MIN(min_value), 0) as min_value''),
      (''P95'', ''COALESCE(PERCENTILE_CONT(0.95) WITHIN GROUP (ORDER BY avg_value), 0) as p95''),
      (''P99'', ''COALESCE(PERCENTILE_CONT(0.99) WITHIN GROUP (ORDER BY avg_value), 0) as p99'')] t"

definition buildAggregationSelect :: "string list \<Rightarrow> string" where
  "buildAggregationSelect aggTypes =
     (if length aggTypes = 0
      then join_with '', ''
        [''COALESCE(AVG(avg_value), 0) as avg_value'',
         ''COALESCE(MAX(max_value), 0) as max_value'',
         ''COALESCE(MIN(min_value), 0) as min_value'',
         ''COALESCE(PERCENTILE_CONT(0.95) WITHIN GROUP (ORDER BY avg_value), 0) as p95'',
         ''COALESCE(PERCENTILE_CONT(0.99) WITHIN GROUP (ORDER BY avg_value), 0) as p99'']
      else fmt_strings (List.map_filter agg_clause aggTypes))"

definition scanAggregationResult ::
    "gotime \<times> gotime \<times> float64 \<times> float64 \<times> float64 \<times> float64 option \<times> float64 option \<times> i64
     \<Rightarrow> aggregation_result" where
  "scanAggregationResult row =
     (case row of (ws, we, av, mx, mn, p95, p99, n) \<Rightarrow>
        \<lparr>ar_WindowStart = ws, ar_WindowEnd = we, ar_AvgValue = av, ar_MaxValue = mx,
         ar_MinValue = mn, ar_Count = n,
         ar_P95 = (case p95 of None \<Rightarrow> f_zero | Some x \<Rightarrow> x),
         ar_P99 = (case p99 of None \<Rightarrow> f_zero | Some x \<Rightarrow> x)\<rparr>)"

definition QueryAggregated ::
    "'r env \<Rightarrow> aggregation_query \<Rightarrow> 'r world \<Rightarrow> (go_error + aggregation_result list) \<times> 'r world" where
  "QueryAggregated E agg w =
     (case getViewName (aq_WindowSize agg) of
        Inl e \<Rightarrow> (Inl e, w)
      | Inr viewName \<Rightarrow>
          (let query = ''SELECT bucket, bucket + INTERVAL '' @ [CHR 0x27] @ aq_WindowSize agg @
                 [CHR 0x27] @ '' AS window_end, '' @ buildAggregationSelect (aq_AggregationTypes agg) @
                 '', COUNT(*) as count FROM '' @ viewName @
                 '' WHERE device_id = $1 AND metric_name = $2 AND bucket >= $3 AND bucket < $4'' @
                 '' ORDER BY bucket ASC''
           in case ext_fault E w of
                (Some e, w1) \<Rightarrow> (Inl (ErrWrap ''aggregation query failed'' e), w1)
              | (None, w1) \<Rightarrow>
                  (case e_agg E query (aq_DeviceID agg) (aq_MetricName agg)
                          (aq_StartTime agg) (aq_EndTime agg) of
                     Inl e \<Rightarrow> (Inl (ErrWrap ''aggregation query failed'' e), w1)
                   | Inr rows \<Rightarrow> (Inr (map scanAggregationResult rows), w1))))"

section \<open>Statistics and maintenance\<close>

text \<open>PostgreSQL orders NaN above every other float.\<close>

definition pg_float_less :: "float64 \<Rightarrow> float64 \<Rightarrow> bool" where
  "pg_float_less x y \<longleftrightarrow> x \<noteq> NaN \<and> (y = NaN \<or> f_lt x y)"

definition pg_min :: "float64 list \<Rightarrow> float64" where
  "pg_min xs = foldl (\<lambda>m x. if pg_float_less x m then x else m) (hd xs) (tl xs)"

definition pg_max :: "float64 list \<Rightarrow> float64" where
  "pg_max xs = foldl (\<lambda>m x. if pg_float_less m x then x else m) (hd xs) (tl xs)"

text \<open>
  Timescale's \<open>FIRST(value, time)\<close> is the value of the row with the least time; the code
  stores it in the field for the latest value.
\<close>

definition stats_rows :: "string \<Rightarrow> string \<Rightarrow> gotime \<Rightarrow> gotime \<Rightarrow> metric_row list \<Rightarrow> metric_row list" where
  "stats_rows dev metric startT endT rs =
     filter (\<lambda>r. mr_DeviceID r = dev \<and> mr_MetricName r = metric \<and>
                 startT \<le> mr_Time r \<and> mr_Time r < endT) rs"

definition stats_query ::
    "'r env \<Rightarrow> string \<Rightarrow> string \<Rightarrow> gotime \<Rightarrow> gotime \<Rightarrow> 'r world \<Rightarrow> (go_error + metric_stats) \<times> 'r world" where
  "stats_query E dev metric startT endT w =
     (case ext_fault E w of
        (Some e, w1) \<Rightarrow> (Inl e, w1)
      | (None, w1) \<Rightarrow>
          (if \<not> list_all no_nul [dev, metric] then (Inl (pg_error E ''22021''), w1)
           else case sort_key mr_Time (stats_rows dev metric startT endT (w_metrics w1)) of
             [] \<Rightarrow> (Inl ErrPgxNoRows, w1)
           | r # rs \<Rightarrow>
               (let vs = map mr_Value (r # rs) in
                (Inr \<lparr>ms_DeviceID = dev, ms_MetricName = metric,
                      ms_FirstSeen = mr_Time r, ms_LastSeen = mr_Time (last (r # rs)),
                      ms_TotalSamples = of_nat (length (r # rs)),
                      ms_AvgValue = e_avg E vs, ms_MinValue = pg_min vs, ms_MaxValue = pg_max vs,
                      ms_StdDevValue = (case e_stddev E vs of None \<Rightarrow> f_zero | Some x \<Rightarrow> x),
                      ms_LatestValue = mr_Value r, ms_LatestStatus = mr_Status r\<rparr>, w1))))"

definition GetMetricStats ::
    "'r env \<Rightarrow> string \<Rightarrow> string \<Rightarrow> gotime \<Rightarrow> gotime \<Rightarrow> 'r world \<Rightarrow> (go_error + metric_stats) \<times> 'r world" where
  "GetMetricStats E dev metric startT endT w =
     (case stats_query E dev metric startT endT w of
        (Inl e, w1) \<Rightarrow>
          (Inl (if e = ErrPgxNoRows
                then ErrText (''no metrics found for device '' @ dev @ '' metric '' @ metric)
                else ErrWrap ''stats query failed'' e), w1)
      | (Inr stats, w1) \<Rightarrow> (Inr stats, w1))"

definition GetDeviceMetricNames ::
    "'r env \<Rightarrow> string \<Rightarrow> 'r world \<Rightarrow> (go_error + string list) \<times> 'r world" where
  "GetDeviceMetricNames E dev w =
     (case ext_fault E w of
        (Some e, w1) \<Rightarrow> (Inl (ErrWrap ''query failed'' e), w1)
      | (None, w1) \<Rightarrow>
          (if no_nul dev
           then Inr (e_collate E (remdups (map mr_MetricName
                  (filter (\<lambda>r. mr_DeviceID r = dev) (w_metrics w1)))))
           else Inl (ErrWrap ''query failed'' (pg_error E ''22021'')), w1))"

definition DeleteOldMetrics ::
    "'r env \<Rightarrow> gotime \<Rightarrow> 'r world \<Rightarrow> (go_error + int) \<times> 'r world" where
  "DeleteOldMetrics E olderThan w =
     (case ext_fault E w of
        (Some e, w1) \<Rightarrow> (Inl (ErrWrap ''delete failed'' e), w1)
      | (None, w1) \<Rightarrow>
          (Inr (int (length (filter (\<lambda>r. mr_Time r < olderThan) (w_metrics w1)))),
           w1\<lparr>w_metrics := filter (\<lambda>r. \<not> mr_Time r < olderThan) (w_metrics w1)\<rparr>))"

section \<open>Storage statistics\<close>

text \<open>
  \<open>GetTableStats\<close>: the size in words of the server, which is the parameter \<open>size\<close>, the number of
  rows and the seconds between the first and the last, NULL for an empty table.
\<close>

record table_stats =
  tst_total_size :: string
  tst_row_count :: i64
  tst_time_span_seconds :: "rat option"

definition time_span :: "gotime \<Rightarrow> gotime \<Rightarrow> rat" where
  "time_span t u =
     of_int ((sint (tsec t) - sint (tsec u)) * 1000000000 + (int (tnsec t) - int (tnsec u))) / 1000000000"

definition GetTableStats ::
    "(metric_row list \<Rightarrow> string) \<Rightarrow> 'r env \<Rightarrow> 'r world \<Rightarrow> (go_error + table_stats) \<times> 'r world" where
  "GetTableStats size_pretty E w =
     (case ext_fault E w of
        (Some e, w1) \<Rightarrow> (Inl (ErrWrap ''stats query failed'' e), w1)
      | (None, w1) \<Rightarrow>
          (let rows = w_metrics w1; times = map mr_Time rows in
           (Inr \<lparr>tst_total_size = size_pretty rows, tst_row_count = of_nat (length rows),
                 tst_time_span_seconds =
                   (if rows = [] then None else Some (time_span (Max (set times)) (Min (set times))))\<rparr>, w1)))"

lemma GetTableStats_same [frame]: "GetTableStats f E w = (r, w') \<Longrightarrow> same_data w' w"
  by (auto simp: GetTableStats_def ext_fault_def Let_def split: option.splits)

section \<open>The single insert\<close>

lemma InsertMetric_cases:
  obtains (fault) e where "e_fault E (w_tick w) = Some e"
      "InsertMetric E p w =
         (Some (ErrWrap ''failed to insert metric'' e), w\<lparr>w_tick := Suc (w_tick w)\<rparr>)"
  | (violation) code where "e_fault E (w_tick w) = None"
      "first_violation (metric_checks (row_of_point p)) = Some code"
      "InsertMetric E p w =
         (Some (ErrWrap ''failed to insert metric'' (pg_error E code)), w\<lparr>w_tick := Suc (w_tick w)\<rparr>)"
  | (conflict) "e_fault E (w_tick w) = None"
      "first_violation (metric_checks (row_of_point p)) = None"
      "metric_key (row_of_point p) \<in> metric_key ` set (w_metrics w)"
      "InsertMetric E p w = (None, w\<lparr>w_tick := Suc (w_tick w)\<rparr>)"
  | (no_device) "e_fault E (w_tick w) = None"
      "first_violation (metric_checks (row_of_point p)) = None"
      "metric_key (row_of_point p) \<notin> metric_key ` set (w_metrics w)"
      "mp_DeviceID p \<notin> device_ids w"
      "InsertMetric E p w =
         (Some (ErrWrap ''failed to insert metric'' (pg_error E ''23503'')),
          w\<lparr>w_tick := Suc (w_tick w)\<rparr>)"
  | (stored) "e_fault E (w_tick w) = None"
      "first_violation (metric_checks (row_of_point p)) = None"
      "metric_key (row_of_point p) \<notin> metric_key ` set (w_metrics w)"
      "mp_DeviceID p \<in> device_ids w"
      "InsertMetric E p w =
         (None, w\<lparr>w_tick := Suc (w_tick w), w_metrics := w_metrics w @ [row_of_point p]\<rparr>)"
proof (cases "e_fault E (w_tick w)")
  case (Some e)
  then show ?thesis by (intro fault) (simp_all add: InsertMetric_def ext_fault_def)
next
  case None
  note defs = InsertMetric_def ext_fault_def sql_insert_metric_def device_ids_def
  have dev: "mr_DeviceID (row_of_point p) = mp_DeviceID p" by (simp add: row_of_point_def)
  show ?thesis
  proof (cases "first_violation (metric_checks (row_of_point p))")
    case (Some code)
    with None show ?thesis by (intro violation) (simp_all add: defs)
  next
    case ok: None
    consider "metric_key (row_of_point p) \<in> metric_key ` set (w_metrics w)"
      | "metric_key (row_of_point p) \<notin> metric_key ` set (w_metrics w)" "mp_DeviceID p \<notin> device_ids w"
      | "metric_key (row_of_point p) \<notin> metric_key ` set (w_metrics w)" "mp_DeviceID p \<in> device_ids w"
      by blast
    then show ?thesis
    proof cases
      case 1
      with None ok show ?thesis by (intro conflict) (simp_all add: defs)
    next
      case 2
      with None ok dev show ?thesis by (intro no_device) (simp_all add: defs)
    next
      case 3
      with None ok dev show ?thesis by (intro stored) (simp_all add: defs)
    qed
  qed
qed

definition metric_keys :: "'r world \<Rightarrow> (gotime \<times> string \<times> string) set" where
  "metric_keys w = metric_key ` set (w_metrics w)"

text \<open>Only the table \<open>metrics\<close> and the read counter change.\<close>

lemma InsertMetric_frame [frame]:
  assumes "InsertMetric E p w = (r, w')"
  shows "same_data (w'\<lparr>w_metrics := w_metrics w\<rparr>) w" "device_ids w' = device_ids w"
  by (rule InsertMetric_cases [of E w p];
      use assms in \<open>auto simp: same_data_def device_ids_def\<close>)+

interpretation tdb: telemetry_store "InsertMetric E" "\<lambda>p. metric_key (row_of_point p)" metric_keys
  for E :: "'r env"
proof
  fix p and s s' :: "'r world"
  assume "InsertMetric E p s = (None, s')"
  then show "metric_keys s' = insert (metric_key (row_of_point p)) (metric_keys s)"
    by (cases rule: InsertMetric_cases [where E = E and w = s and p = p]) (auto simp: metric_keys_def)
next
  fix p and s s' :: "'r world" and e
  assume "InsertMetric E p s = (Some e, s')"
  then show "metric_keys s' = metric_keys s"
    by (cases rule: InsertMetric_cases [where E = E and w = s and p = p]) (auto simp: metric_keys_def)
qed

section \<open>The table invariant\<close>

text \<open>Primary key, foreign key and column bounds of the stored rows.\<close>

definition metrics_inv :: "'r world \<Rightarrow> bool" where
  "metrics_inv w \<longleftrightarrow>
     distinct_by metric_key (w_metrics w) \<and>
     (\<forall>r \<in> set (w_metrics w). mr_DeviceID r \<in> device_ids w \<and>
        first_violation (metric_checks r) = None)"

lemma InsertMetric_inv [inv_intros]:
  assumes "InsertMetric E p w = (r, w')" "metrics_inv w"
  shows "metrics_inv w'"
  using assms
  by (cases rule: InsertMetric_cases [where E = E and w = w and p = p])
    (auto simp: metrics_inv_def device_ids_def row_of_point_def)

lemma copy_rows_Inr:
  "copy_rows tbl rows = Inr tbl' \<Longrightarrow>
   tbl' = tbl @ rows \<and> (distinct_by metric_key tbl \<longrightarrow> distinct_by metric_key tbl') \<and>
   (\<forall>r \<in> set rows. first_violation (metric_checks r) = None)"
proof (induction rows arbitrary: tbl)
  case Nil
  then show ?case by simp
next
  case (Cons r rows)
  then have "first_violation (metric_checks r) = None"
    "metric_key r \<notin> metric_key ` set tbl" "copy_rows (tbl @ [r]) rows = Inr tbl'"
    by (auto split: option.splits if_splits)
  then have tbl': "tbl' = (tbl @ [r]) @ rows"
    and dist: "distinct_by metric_key (tbl @ [r]) \<longrightarrow> distinct_by metric_key tbl'"
    and ok: "\<forall>r \<in> set rows. first_violation (metric_checks r) = None"
    using Cons.IH [of "tbl @ [r]"] by blast+
  have "distinct_by metric_key tbl \<longrightarrow> distinct_by metric_key (tbl @ [r])"
    using \<open>metric_key r \<notin> metric_key ` set tbl\<close> by simp
  with tbl' dist ok \<open>first_violation (metric_checks r) = None\<close> show ?case by simp
qed

lemma InsertMetricBatch_ok:
  assumes "InsertMetricBatch E ps w = (None, w')"
  shows "ps \<noteq> []" "w_metrics w' = w_metrics w @ map row_of_point ps"
    "same_data (w'\<lparr>w_metrics := w_metrics w\<rparr>) w"
    "\<forall>p \<in> set ps. mp_DeviceID p \<in> device_ids w"
    "\<forall>p \<in> set ps. first_violation (metric_checks (row_of_point p)) = None"
    "distinct_by metric_key (w_metrics w) \<Longrightarrow> distinct_by metric_key (w_metrics w')"
  using assms
  by (auto simp: InsertMetricBatch_def sql_copy_metrics_def ext_fault_def same_data_def
      device_ids_def row_of_point_def split: option.splits sum.splits if_splits prod.splits
      dest!: copy_rows_Inr)

lemma InsertMetricBatch_err:
  "InsertMetricBatch E ps w = (Some e, w') \<Longrightarrow> same_data w' w"
  by (auto simp: InsertMetricBatch_def sql_copy_metrics_def ext_fault_def
      split: option.splits sum.splits if_splits prod.splits)

interpretation bdb: batch_store "InsertMetric E" "\<lambda>p. metric_key (row_of_point p)" metric_keys "InsertMetricBatch E"
  for E :: "'r env"
proof
  fix ps and s s' :: "'r world"
  assume "InsertMetricBatch E ps s = (None, s')"
  from InsertMetricBatch_ok(2) [OF this]
  show "metric_keys s' = metric_keys s \<union> (\<lambda>p. metric_key (row_of_point p)) ` set ps"
    by (simp add: metric_keys_def image_Un image_image)
next
  fix ps and s s' :: "'r world" and e
  assume "InsertMetricBatch E ps s = (Some e, s')"
  from same_dataD(1) [OF InsertMetricBatch_err [OF this]] show "metric_keys s' = metric_keys s"
    by (simp add: metric_keys_def)
qed

lemma InsertMetricBatch_inv [inv_intros]:
  assumes "InsertMetricBatch E ps w = (r, w')" "metrics_inv w"
  shows "metrics_inv w'"
proof (cases r)
  case None
  with assms(1) have ok: "InsertMetricBatch E ps w = (None, w')" by simp
  have "device_ids w' = device_ids w"
    using same_dataD(2) [OF InsertMetricBatch_ok(3) [OF ok]] by (simp add: device_ids_def)
  then show ?thesis
    using InsertMetricBatch_ok(2,4-6) [OF ok] assms(2)
    by (auto simp: metrics_inv_def row_of_point_def)
next
  case (Some e)
  with assms(1) have "same_data w' w" using InsertMetricBatch_err by blast
  from same_dataD(1,2) [OF this] assms(2) show ?thesis by (simp add: metrics_inv_def device_ids_def)
qed

lemma DeleteOldMetrics_inv [inv_intros]:
  "DeleteOldMetrics E t w = (r, w') \<Longrightarrow> metrics_inv w \<Longrightarrow> metrics_inv w'"
  by (auto simp: DeleteOldMetrics_def ext_fault_def metrics_inv_def device_ids_def
      distinct_by_filter split: option.splits)

lemma DeleteOldMetrics_counts:
  assumes "DeleteOldMetrics E t w = (Inr n, w')"
  shows "n = int (length (w_metrics w)) - int (length (w_metrics w'))"
    "w_metrics w' = filter (\<lambda>r. t \<le> mr_Time r) (w_metrics w)"
proof -
  have len: "length (filter (\<lambda>r. mr_Time r < t) rs) + length (filter (\<lambda>r. \<not> mr_Time r < t) rs) = length rs"
    for rs by (induction rs) auto
  from assms show "n = int (length (w_metrics w)) - int (length (w_metrics w'))"
    using len [of "w_metrics w"]
    by (auto simp: DeleteOldMetrics_def ext_fault_def split: option.splits)
  from assms show "w_metrics w' = filter (\<lambda>r. t \<le> mr_Time r) (w_metrics w)"
    by (auto simp: DeleteOldMetrics_def ext_fault_def not_less split: option.splits)
qed

section \<open>The queries\<close>

lemma validateQueryFilter_None:
  "validateQueryFilter f = None \<Longrightarrow>
   0 < sint (qf_Limit f) \<and> sint (qf_Limit f) \<le> 10000 \<and> 0 \<le> sint (qf_Offset f) \<and>
   qf_StartTime f \<le> qf_EndTime f \<and> qf_DeviceID f \<noteq> [] \<and> qf_MetricName f \<noteq> []"
  by (auto simp: validateQueryFilter_def not_less less_gotime_def [symmetric] split: if_splits)

lemma QueryMetrics_same_data [frame]: "QueryMetrics E f w = (r, w') \<Longrightarrow> same_data w' w"
  by (auto simp: QueryMetrics_def ext_fault_def split: option.splits if_splits)

lemma QueryMetricsCount_same_data [frame]: "QueryMetricsCount E f w = (r, w') \<Longrightarrow> same_data w' w"
  by (auto simp: QueryMetricsCount_def ext_fault_def split: option.splits if_splits)

lemma QueryMetrics_Inr:
  assumes "QueryMetrics E f w = (Inr ps, w')"
  shows "validateQueryFilter f = None"
    "ps = map scanMetricPoint
       (window (nat (sint (qf_Offset f))) (nat (sint (qf_Limit f)))
         (order_rows (qf_OrderAscending f) (filter (filter_matches f) (w_metrics w))))"
  using assms by (auto simp: QueryMetrics_def ext_fault_def split: option.splits if_splits)

lemma set_order_rows [simp]: "set (order_rows asc rs) = set rs"
  by (simp add: order_rows_def)

lemma length_order_rows [simp]: "length (order_rows asc rs) = length rs"
  by (simp add: order_rows_def)

text \<open>Consecutive windows of a list join to the longer window.\<close>

lemma window_append: "window off n xs @ window (off + n) m xs = window off (n + m) xs"
  by (simp add: window_def take_add drop_drop) (simp add: add.commute)

lemma QueryMetrics_correct:
  assumes "QueryMetrics E f w = (Inr ps, w')"
  shows "length ps \<le> nat (sint (qf_Limit f))"
    "\<forall>p \<in> set ps. mp_DeviceID p = qf_DeviceID f \<and> mp_MetricName p = qf_MetricName f \<and>
       qf_StartTime f \<le> mp_Timestamp p \<and> mp_Timestamp p \<le> qf_EndTime f"
    "\<forall>p \<in> set ps. \<exists>r \<in> set (w_metrics w). mp_Timestamp p = mr_Time r \<and> mp_Value p = mr_Value r"
proof -
  note ps = QueryMetrics_Inr(2) [OF assms]
  show "length ps \<le> nat (sint (qf_Limit f))" by (simp add: ps length_window)
  have sub: "set (window (nat (sint (qf_Offset f))) (nat (sint (qf_Limit f)))
         (order_rows (qf_OrderAscending f) (filter (filter_matches f) (w_metrics w))))
       \<subseteq> {r \<in> set (w_metrics w). filter_matches f r}"
    using set_window by fastforce
  then show "\<forall>p \<in> set ps. mp_DeviceID p = qf_DeviceID f \<and> mp_MetricName p = qf_MetricName f \<and>
       qf_StartTime f \<le> mp_Timestamp p \<and> mp_Timestamp p \<le> qf_EndTime f"
    unfolding ps by (auto simp: scanMetricPoint_def filter_matches_def)
  show "\<forall>p \<in> set ps. \<exists>r \<in> set (w_metrics w). mp_Timestamp p = mr_Time r \<and> mp_Value p = mr_Value r"
    using sub unfolding ps by (force simp: scanMetricPoint_def)
qed

lemma sorted_order_rows: "sorted (map mr_Time (order_rows True rs))"
  "sorted_wrt (\<ge>) (map mr_Time (order_rows False rs))"
  by (simp_all add: order_rows_def sorted_sort_desc)

lemma sorted_window: "sorted_wrt R (map k xs) \<Longrightarrow> sorted_wrt R (map k (window off n xs))"
  by (simp add: window_def sorted_wrt_drop sorted_wrt_take flip: take_map drop_map)

lemma map_timestamp_scan: "map mp_Timestamp (map scanMetricPoint rs) = map mr_Time rs"
  by (simp add: scanMetricPoint_def)

lemma GetMetricStats_same_data [frame]: "GetMetricStats E d m a b w = (r, w') \<Longrightarrow> same_data w' w"
  by (auto simp: GetMetricStats_def stats_query_def ext_fault_def Let_def
      split: option.splits if_splits list.splits sum.splits prod.splits)

lemma QueryAggregated_same_data [frame]: "QueryAggregated E q w = (r, w') \<Longrightarrow> same_data w' w"
  by (auto simp: QueryAggregated_def ext_fault_def Let_def split: option.splits sum.splits)

end
