(* ===== verification/RedisLaws.thy ===== *)
theory RedisLaws
  imports Environment
begin

text \<open>
  What the code relies on of Redis, as predicates on the commands of a client. The theorems
  that need such a behaviour take the predicate as a hypothesis. \<open>mem_redis\<close>, a store without
  expiry in one list, shows that they hold together.
\<close>

section \<open>Laws\<close>

text \<open>A value can be read back right after it has been set.\<close>

definition set_get_law :: "'r redis_ops \<Rightarrow> bool" where
  "set_get_law R \<longleftrightarrow>
     (\<forall>k v ttl r r'. r_set R k v ttl r = (None, r') \<longrightarrow> fst (r_get R k r') = Inr v)"

text \<open>
  \<open>live k r\<close>: the key \<open>k\<close> exists in the state \<open>r\<close> and does not expire while the commands
  considered run. \<open>SETNX\<close> creates a key iff it does not exist; only \<open>DEL\<close> of the key removes it.
\<close>

definition keeps_keys :: "'r redis_ops \<Rightarrow> (string \<Rightarrow> 'r \<Rightarrow> bool) \<Rightarrow> bool" where
  "keeps_keys R live \<longleftrightarrow>
     (\<forall>k v ttl r b r'. r_setnx R k v ttl r = (Inr b, r') \<longrightarrow> b = (\<not> live k r) \<and> live k r') \<and>
     (\<forall>k k' v ttl r x r'. r_setnx R k' v ttl r = (x, r') \<longrightarrow> live k r \<longrightarrow> live k r') \<and>
     (\<forall>k k' v ttl r x r'. r_set R k' v ttl r = (x, r') \<longrightarrow> live k r \<longrightarrow> live k r') \<and>
     (\<forall>k k' r x r'. r_get R k' r = (x, r') \<longrightarrow> live k r \<longrightarrow> live k r') \<and>
     (\<forall>k c p n r x r'. r_scan R c p n r = (x, r') \<longrightarrow> live k r \<longrightarrow> live k r') \<and>
     (\<forall>k ks r x r'. r_del R ks r = (x, r') \<longrightarrow> k \<notin> set ks \<longrightarrow> live k r \<longrightarrow> live k r')"

text \<open>\<open>SCAN\<close> returns keys that match the pattern: they start with its literal beginning.\<close>

definition glob_free :: "string \<Rightarrow> bool" where
  "glob_free s \<longleftrightarrow> set s \<inter> set (CHR 0x5C # ''*?['') = {}"

definition scan_law :: "'r redis_ops \<Rightarrow> bool" where
  "scan_law R \<longleftrightarrow>
     (\<forall>lit rest c n r keys c' r'. glob_free lit \<longrightarrow>
        r_scan R c (lit @ rest) n r = (Inr (keys, c'), r') \<longrightarrow> (\<forall>k \<in> set keys. has_prefix k lit))"

text \<open>\<open>SETNX\<close> answers.\<close>

definition setnx_total :: "'r redis_ops \<Rightarrow> bool" where
  "setnx_total R \<longleftrightarrow> (\<forall>k v ttl r. \<exists>b r'. r_setnx R k v ttl r = (Inr b, r'))"

lemma keeps_keysD:
  assumes "keeps_keys R live"
  shows "r_setnx R k v ttl r = (Inr b, r') \<Longrightarrow> b = (\<not> live k r) \<and> live k r'"
    "r_setnx R k' v ttl r = (x, r') \<Longrightarrow> live k r \<Longrightarrow> live k r'"
    "r_set R k' v ttl r = (y, r') \<Longrightarrow> live k r \<Longrightarrow> live k r'"
    "r_get R k' r = (z, r') \<Longrightarrow> live k r \<Longrightarrow> live k r'"
    "r_scan R c p n r = (u, r') \<Longrightarrow> live k r \<Longrightarrow> live k r'"
    "r_del R ks r = (d, r') \<Longrightarrow> k \<notin> set ks \<Longrightarrow> live k r \<Longrightarrow> live k r'"
  using assms unfolding keeps_keys_def by metis+

text \<open>A key that was set stays readable while it is only read.\<close>

definition readable :: "'r redis_ops \<Rightarrow> string \<Rightarrow> 'r \<Rightarrow> bool" where
  "readable R k r \<longleftrightarrow> (\<exists>v. fst (r_get R k r) = Inr v)"

definition mark_law :: "'r redis_ops \<Rightarrow> bool" where
  "mark_law R \<longleftrightarrow>
     (\<forall>k v ttl r x r'. r_set R k v ttl r = (x, r') \<longrightarrow> x = None \<and> readable R k r') \<and>
     (\<forall>k k' r x r'. r_get R k' r = (x, r') \<longrightarrow> readable R k r \<longrightarrow> readable R k r')"

section \<open>An in-memory Redis\<close>

type_synonym mem = "(string \<times> string) list"

definition mem_redis :: "mem redis_ops" where
  "mem_redis =
     \<lparr>r_get = (\<lambda>k m. (case map_of m k of None \<Rightarrow> Inl ErrRedisNil | Some v \<Rightarrow> Inr v, m)),
      r_set = (\<lambda>k v ttl m. (None, (k, v) # m)),
      r_setnx = (\<lambda>k v ttl m. if k \<in> fst ` set m then (Inr False, m) else (Inr True, (k, v) # m)),
      r_del = (\<lambda>ks m. (Inr (int (length (filter (\<lambda>k. k \<in> fst ` set m) ks))),
                      filter (\<lambda>(k, v). k \<notin> set ks) m)),
      r_scan = (\<lambda>c p n m. (Inr (filter (\<lambda>k. has_prefix k (takeWhile (\<lambda>x. x \<noteq> CHR ''*'') p))
                                  (map fst m), 0), m)),
      r_exists = (\<lambda>k m. (Inr (if k \<in> fst ` set m then 1 else 0), m)),
      r_info = (\<lambda>s m. (Inr [], m))\<rparr>"

text \<open>The same store in which \<open>SCAN\<close> from cursor 0 always leaves a further page.\<close>

definition paged_redis :: "mem redis_ops" where
  "paged_redis = mem_redis\<lparr>r_scan := (\<lambda>c p n m. (Inr ([], if c = 0 then 1 else 0), m))\<rparr>"

lemma set_get_law_mem: "set_get_law mem_redis"
  by (simp add: set_get_law_def mem_redis_def)

lemma keeps_keys_mem: "keeps_keys mem_redis (\<lambda>k m. k \<in> fst ` set m)"
  by (auto simp: keeps_keys_def mem_redis_def split: if_splits option.splits) (force+)?

lemma setnx_total_mem: "setnx_total mem_redis"
  by (auto simp: setnx_total_def mem_redis_def)



lemma takeWhile_append_notin: "c \<notin> set p \<Longrightarrow> takeWhile (\<lambda>x. x \<noteq> c) (p @ q) = p @ takeWhile (\<lambda>x. x \<noteq> c) q"
  by (induction p) auto

lemma scan_law_mem: "scan_law mem_redis"
  by (auto simp: scan_law_def mem_redis_def glob_free_def takeWhile_append_notin
      intro: has_prefix_append_left)

lemma glob_free_telemetry_prefixes: "glob_free ''point:''" "glob_free ''stats:''"
  by (simp_all add: glob_free_def)

lemma mark_law_mem: "mark_law mem_redis"
  by (auto simp: mark_law_def readable_def mem_redis_def)

end
