(* ===== verification/TelemetryCache.thy ===== *)
theory TelemetryCache
  imports RedisLaws
begin

text \<open>
  \<open>internal/cache/telemetry_cache.go\<close>: cached query results, deduplication marks and the last
  seen times, in Redis. Without a client (\<open>e_redis\<close> is \<open>None\<close>) every operation degrades as the
  code says. The loops over \<open>SCAN\<close> declare a new \<open>cursor\<close> in their body, so that each round
  scans from the cursor of the loop's start again; they need not end, and \<open>None\<close> is a loop that
  does not.
\<close>

section \<open>Keys\<close>

definition cache_ttls :: "(string \<times> int) list" where
  "cache_ttls = [(''agg'', minutes 5), (''stats'', minutes 10), (''point'', minutes 1)]"

definition getTTL :: "string \<Rightarrow> int" where
  "getTTL key =
     (let prefix = (if CHR '':'' \<in> set key then takeWhile (\<lambda>c. c \<noteq> CHR '':'') key else []) in
      case map_of cache_ttls prefix of None \<Rightarrow> minutes 5 | Some ttl \<Rightarrow> ttl)"

definition unix_dec :: "gotime \<Rightarrow> string" where
  "unix_dec t = format_int (sint (unix_secs t))"

definition buildQueryCacheKey ::
    "string \<Rightarrow> string \<Rightarrow> gotime \<Rightarrow> gotime \<Rightarrow> i32 \<Rightarrow> i32 \<Rightarrow> string" where
  "buildQueryCacheKey deviceID metricName startTime endTime limit offset =
     ''point:'' @ deviceID @ '':'' @ metricName @ '':'' @ unix_dec startTime @ '':'' @
     unix_dec endTime @ '':'' @ format_int (sint limit) @ '':'' @ format_int (sint offset)"

definition buildAggregationCacheKey ::
    "string \<Rightarrow> string \<Rightarrow> string \<Rightarrow> gotime \<Rightarrow> gotime \<Rightarrow> string list \<Rightarrow> string" where
  "buildAggregationCacheKey deviceID metricName windowSize startTime endTime aggTypes =
     ''agg:'' @ deviceID @ '':'' @ metricName @ '':'' @ windowSize @ '':'' @ unix_dec startTime @
     '':'' @ unix_dec endTime @ '':'' @ fmt_strings aggTypes"

definition buildStatsCacheKey :: "string \<Rightarrow> string \<Rightarrow> gotime \<Rightarrow> gotime \<Rightarrow> string" where
  "buildStatsCacheKey deviceID metricName startTime endTime =
     ''stats:'' @ deviceID @ '':'' @ metricName @ '':'' @ unix_dec startTime @ '':'' @
     unix_dec endTime"

definition dedup_key :: "string \<Rightarrow> gotime \<Rightarrow> string" where
  "dedup_key deviceID ts = ''dedup:'' @ deviceID @ '':'' @ unix_dec ts"

definition last_seen_key :: "string \<Rightarrow> string" where
  "last_seen_key deviceID = ''last_seen:'' @ deviceID"

section \<open>Query results\<close>

text \<open>The result is passed as its JSON text, or the error of marshalling it.\<close>

definition CacheQueryResult ::
    "'r env \<Rightarrow> string \<Rightarrow> go_error + string \<Rightarrow> 'r world \<Rightarrow> go_error option \<times> 'r world" where
  "CacheQueryResult E key json w =
     (case e_redis E of
        None \<Rightarrow> (None, w)
      | Some R \<Rightarrow>
          (let ttl = getTTL key in
           case json of
             Inl e \<Rightarrow> (Some (ErrWrap ''failed to marshal result'' e), w)
           | Inr data \<Rightarrow>
               (case redis_do (r_set R key data ttl) w of
                  (Some e, w1) \<Rightarrow> (Some (ErrWrap ''failed to cache result'' e), w1)
                | (None, w1) \<Rightarrow> (None, w1))))"

definition GetQueryResult ::
    "'r env \<Rightarrow> string \<Rightarrow> (string \<Rightarrow> go_error + 'a) \<Rightarrow> 'r world \<Rightarrow> (go_error + 'a) \<times> 'r world" where
  "GetQueryResult E key unmarshal w =
     (case e_redis E of
        None \<Rightarrow> (Inl (ErrText ''cache miss''), w)
      | Some R \<Rightarrow>
          (case redis_do (r_get R key) w of
             (Inl e, w1) \<Rightarrow>
               (Inl (if e = ErrRedisNil then ErrText ''cache miss''
                     else ErrWrap ''failed to retrieve from cache'' e), w1)
           | (Inr data, w1) \<Rightarrow>
               (case unmarshal data of
                  Inl e \<Rightarrow> (Inl (ErrWrap ''failed to unmarshal cached result'' e), w1)
                | Inr v \<Rightarrow> (Inr v, w1))))"

section \<open>Invalidation\<close>

text \<open>
  One of the loops \<open>for { keys, cursor, err := Scan(cursor, ...) ... }\<close>. The argument \<open>cursor\<close>
  is the outer variable: no round assigns it. \<open>scanMsg\<close> and \<open>delMsg\<close> are the texts the loop
  wraps its errors in. The context \<open>c\<close> comes back as the calls have left it.
\<close>

partial_function (option) scan_del_loop ::
    "'r redis_ops \<Rightarrow> string \<Rightarrow> string \<Rightarrow> i64 \<Rightarrow> string \<Rightarrow> ctx \<Rightarrow> 'r world \<Rightarrow>
     (go_error option \<times> ctx \<times> 'r world) option" where
  "scan_del_loop R scanMsg delMsg cursor pattern c w =
     (case ctx_do c (r_scan R cursor pattern 0) w of
        (Inl e, c1, w1) \<Rightarrow> Some (Some (ErrWrap scanMsg e), c1, w1)
      | (Inr (keys, cursor'), c1, w1) \<Rightarrow>
          (case (if length keys > 0 then ctx_do c1 (r_del R keys) w1 else (Inr 0, c1, w1)) of
             (Inl e, c2, w2) \<Rightarrow> Some (Some (ErrWrap delMsg e), c2, w2)
           | (Inr _, c2, w2) \<Rightarrow>
               if cursor' = 0 then Some (None, c2, w2)
               else scan_del_loop R scanMsg delMsg cursor pattern c2 w2))"

definition InvalidateMetricCache ::
    "'r env \<Rightarrow> ctx \<Rightarrow> string \<Rightarrow> string \<Rightarrow> 'r world \<Rightarrow> (go_error option \<times> ctx \<times> 'r world) option" where
  "InvalidateMetricCache E c deviceID metricName w =
     (case e_redis E of
        None \<Rightarrow> Some (None, c, w)
      | Some R \<Rightarrow>
          (case scan_del_loop R ''failed to scan cache keys'' ''failed to delete cache keys'' 0
                  (''point:'' @ deviceID @ '':'' @ metricName @ '':*'') c w of
             None \<Rightarrow> None
           | Some (Some e, c1, w1) \<Rightarrow> Some (Some e, c1, w1)
           | Some (None, c1, w1) \<Rightarrow>
               scan_del_loop R ''failed to scan stats cache keys'' ''failed to delete stats cache keys''
                 0 (''stats:'' @ deviceID @ '':'' @ metricName @ '':*'') c1 w1))"

definition InvalidateDevice ::
    "'r env \<Rightarrow> ctx \<Rightarrow> string \<Rightarrow> 'r world \<Rightarrow> (go_error option \<times> ctx \<times> 'r world) option" where
  "InvalidateDevice E c deviceID w =
     (case e_redis E of
        None \<Rightarrow> Some (None, c, w)
      | Some R \<Rightarrow>
          scan_del_loop R ''failed to scan device cache keys'' ''failed to delete device cache keys'' 0
            (''*:'' @ deviceID @ '':*'') c w)"

fun clear_patterns ::
    "'r redis_ops \<Rightarrow> string list \<Rightarrow> ctx \<Rightarrow> 'r world \<Rightarrow> (go_error option \<times> ctx \<times> 'r world) option" where
  "clear_patterns R [] c w = Some (None, c, w)"
| "clear_patterns R (pattern # ps) c w =
     (case scan_del_loop R ''failed to scan cache keys'' ''failed to delete cache keys'' 0 pattern c w of
        None \<Rightarrow> None
      | Some (Some e, c1, w1) \<Rightarrow> Some (Some e, c1, w1)
      | Some (None, c1, w1) \<Rightarrow> clear_patterns R ps c1 w1)"

definition ClearAll :: "'r env \<Rightarrow> ctx \<Rightarrow> 'r world \<Rightarrow> (go_error option \<times> ctx \<times> 'r world) option" where
  "ClearAll E c w =
     (case e_redis E of
        None \<Rightarrow> Some (None, c, w)
      | Some R \<Rightarrow> clear_patterns R [''point:*'', ''agg:*'', ''stats:*''] c w)"

text \<open>Two functions that are there for later use and do nothing yet.\<close>

definition PrefetchAggregations :: "'r env \<Rightarrow> string \<Rightarrow> string \<Rightarrow> gotime \<Rightarrow> gotime \<Rightarrow> go_error option" where
  "PrefetchAggregations E deviceID metricName startTime endTime = None"

definition EvictLRU :: "'r env \<Rightarrow> go_error option" where
  "EvictLRU E = None"

section \<open>Cache statistics\<close>

datatype cache_stat = StatText string | StatCount i64

partial_function (option) scan_count_loop ::
    "'r redis_ops \<Rightarrow> string \<Rightarrow> i64 \<Rightarrow> i64 \<Rightarrow> ctx \<Rightarrow> 'r world \<Rightarrow>
     ((go_error + i64) \<times> ctx \<times> 'r world) option" where
  "scan_count_loop R pref cursor cnt c w =
     (case ctx_do c (r_scan R cursor (pref @ '':*'') 0) w of
        (Inl e, c1, w1) \<Rightarrow> Some (Inl (ErrWrap (''failed to count '' @ pref @ '' entries'') e), c1, w1)
      | (Inr (keys, cursor'), c1, w1) \<Rightarrow>
          (let count1 = cnt + of_nat (length keys) in
           if cursor' = 0 then Some (Inr count1, c1, w1)
           else scan_count_loop R pref cursor count1 c1 w1))"

text \<open>The prefixes are visited in the order in which the loop over the map \<open>ttl\<close> yields them.\<close>

fun count_prefixes ::
    "'r redis_ops \<Rightarrow> string list \<Rightarrow> (string \<times> cache_stat) list \<Rightarrow> ctx \<Rightarrow> 'r world \<Rightarrow>
     ((go_error + (string \<times> cache_stat) list) \<times> ctx \<times> 'r world) option" where
  "count_prefixes R [] stats c w = Some (Inr stats, c, w)"
| "count_prefixes R (pref # ps) stats c w =
     (case scan_count_loop R pref 0 0 c w of
        None \<Rightarrow> None
      | Some (Inl e, c1, w1) \<Rightarrow> Some (Inl e, c1, w1)
      | Some (Inr n, c1, w1) \<Rightarrow> count_prefixes R ps (stats @ [(pref @ ''_count'', StatCount n)]) c1 w1)"

definition GetCacheStats ::
    "'r env \<Rightarrow> string list \<Rightarrow> ctx \<Rightarrow> 'r world \<Rightarrow>
     ((go_error + (string \<times> cache_stat) list) \<times> ctx \<times> 'r world) option" where
  "GetCacheStats E order c w =
     (case e_redis E of
        None \<Rightarrow> Some (Inr [(''redis'', StatText ''disabled'')], c, w)
      | Some R \<Rightarrow>
          (case ctx_do c (r_info R ''stats'') w of
             (Inl e, c1, w1) \<Rightarrow> Some (Inl (ErrWrap ''failed to get cache stats'' e), c1, w1)
           | (Inr info, c1, w1) \<Rightarrow> count_prefixes R order [(''info'', StatText info)] c1 w1))"

section \<open>Deduplication and last seen\<close>

definition TryMarkDedup ::
    "'r env \<Rightarrow> string \<Rightarrow> gotime \<Rightarrow> int \<Rightarrow> 'r world \<Rightarrow> (go_error + bool) \<times> 'r world" where
  "TryMarkDedup E deviceID ts ttl w =
     (case e_redis E of
        None \<Rightarrow> (Inr True, w)
      | Some R \<Rightarrow>
          (case redis_do (r_setnx R (dedup_key deviceID ts) ''1'' ttl) w of
             (Inl e, w1) \<Rightarrow> (Inr True, w1)
           | (Inr created, w1) \<Rightarrow> (Inr created, w1)))"

definition SetDeviceLastSeen ::
    "'r env \<Rightarrow> string \<Rightarrow> gotime \<Rightarrow> int \<Rightarrow> 'r world \<Rightarrow> go_error option \<times> 'r world" where
  "SetDeviceLastSeen E deviceID ts ttl w =
     (case e_redis E of
        None \<Rightarrow> (None, w)
      | Some R \<Rightarrow>
          (case redis_do (r_set R (last_seen_key deviceID) (unix_dec ts) ttl) w of
             (Some e, w1) \<Rightarrow> (Some (ErrWrap ''failed to set last_seen key'' e), w1)
           | (None, w1) \<Rightarrow> (None, w1)))"

text \<open>\<open>strconv.ParseInt(value, 10, 64)\<close>; its error is a value of its own type.\<close>

definition parse_int_error :: "num_error \<Rightarrow> go_error" where
  "parse_int_error e =
     ErrText (case e of ErrSyntax \<Rightarrow> ''strconv.ParseInt: invalid syntax''
              | ErrRange \<Rightarrow> ''strconv.ParseInt: value out of range'')"

definition GetDeviceLastSeen ::
    "'r env \<Rightarrow> string \<Rightarrow> 'r world \<Rightarrow> (go_error + gotime) \<times> 'r world" where
  "GetDeviceLastSeen E deviceID w =
     (case e_redis E of
        None \<Rightarrow> (Inr zero_time, w)
      | Some R \<Rightarrow>
          (case redis_do (r_get R (last_seen_key deviceID)) w of
             (Inl e, w1) \<Rightarrow>
               (if e = ErrRedisNil then (Inr zero_time, w1)
                else (Inl (ErrWrap ''failed to get last_seen key'' e), w1))
           | (Inr value, w1) \<Rightarrow>
               (case parse_int value of
                  Inl e \<Rightarrow> (Inl (ErrWrap ''invalid last_seen value'' (parse_int_error e)), w1)
                | Inr n \<Rightarrow> (Inr (time_unix (word_of_int n)), w1))))"

section \<open>Keys: time to live, name spaces, injectivity\<close>

lemma getTTL_prefix:
  assumes "CHR '':'' \<notin> set p"
  shows "getTTL (p @ '':'' @ s) = (case map_of cache_ttls p of None \<Rightarrow> minutes 5 | Some t \<Rightarrow> t)"
proof -
  have "takeWhile (\<lambda>c. c \<noteq> CHR '':'') (p @ CHR '':'' # s) = p"
    by (rule takeWhile_dropWhile_notin [OF assms])
  then show ?thesis by (simp add: getTTL_def)
qed

lemma getTTL_keys:
  "getTTL (buildQueryCacheKey d m a b n off) = minutes 1"
  "getTTL (buildAggregationCacheKey d m ws a b ts) = minutes 5"
  "getTTL (buildStatsCacheKey d m a b) = minutes 10"
  using getTTL_prefix [of "''point''"] getTTL_prefix [of "''agg''"] getTTL_prefix [of "''stats''"]
  by (simp_all add: buildQueryCacheKey_def buildAggregationCacheKey_def buildStatsCacheKey_def
      cache_ttls_def)

lemma unix_dec_inject: "unix_dec t = unix_dec u \<longleftrightarrow> unix_secs t = unix_secs u"
  unfolding unix_dec_def
  by (simp only: format_int_inject_range [OF sint_i64_range sint_i64_range] sint_i64_inject)

lemma unix_dec_no_colon: "CHR '':'' \<notin> set (unix_dec t)"
  by (simp add: unix_dec_def format_int_no_colon)

lemma dedup_key_inject:
  "dedup_key d t = dedup_key d' t' \<longleftrightarrow> d = d' \<and> unix_secs t = unix_secs t'"
proof
  assume "dedup_key d t = dedup_key d' t'"
  then have "d @ CHR '':'' # unix_dec t = d' @ CHR '':'' # unix_dec t'" by (simp add: dedup_key_def)
  from last_sep_inject [OF unix_dec_no_colon unix_dec_no_colon this]
  show "d = d' \<and> unix_secs t = unix_secs t'" by (simp add: unix_dec_inject)
next
  assume "d = d' \<and> unix_secs t = unix_secs t'"
  then show "dedup_key d t = dedup_key d' t'" by (simp add: dedup_key_def unix_dec_def)
qed

lemma last_seen_key_inject [simp]: "last_seen_key d = last_seen_key d' \<longleftrightarrow> d = d'"
  by (simp add: last_seen_key_def)

lemma dedup_key_not_last_seen [simp]: "dedup_key d t \<noteq> last_seen_key d'"
  by (simp add: dedup_key_def last_seen_key_def)

lemma dedup_key_not_cached: "\<not> has_prefix (dedup_key d t) ''point:''" "\<not> has_prefix (dedup_key d t) ''stats:''"
  by (simp_all add: dedup_key_def has_prefix_def)

section \<open>Frame\<close>

text \<open>
  The rule the facts about the loops come from: what every \<open>SCAN\<close> and every \<open>DEL\<close> of scanned
  keys preserves holds when the loop returns.
\<close>

lemma ctx_do_keeps:
  assumes "ctx_do c f w = (x, c', w')" "I w" "\<And>x w1. redis_do f w = (x, w1) \<Longrightarrow> I w1"
  shows "I w'"
  using assms by (cases rule: ctx_do_cases [of c f w x c' w']) auto

lemma ctx_do_Inr: "ctx_do c f w = (Inr a, c', w') \<Longrightarrow> redis_do f w = (Inr a, w') \<and> c' = map_option (\<lambda>n. n - 1) c"
  by (cases rule: ctx_do_cases [of c f w "Inr a" c' w']) auto

lemma scan_del_loop_invariant:
  assumes "scan_del_loop R sm dm cur p c w = Some (r, c', w')" "I w"
    and scan: "\<And>w x w1. redis_do (r_scan R cur p 0) w = (x, w1) \<Longrightarrow> I w \<Longrightarrow> I w1"
    and del: "\<And>w keys cur' w1 x w2. redis_do (r_scan R cur p 0) w = (Inr (keys, cur'), w1) \<Longrightarrow> I w1 \<Longrightarrow>
       redis_do (r_del R keys) w1 = (x, w2) \<Longrightarrow> I w2"
  shows "I w'"
proof -
  have "R = R \<and> cur = cur \<and> p = p \<longrightarrow> I w \<longrightarrow> I (snd (snd (r, c', w')))"
  proof (rule scan_del_loop.raw_induct [where
        P = "\<lambda>R' sm dm cur' p' c w y. R' = R \<and> cur' = cur \<and> p' = p \<longrightarrow> I w \<longrightarrow> I (snd (snd y))", OF _ assms(1)],
      intro impI, elim conjE)
    fix loop R' sm dm cur' p' c w y
    assume IH: "\<And>R' sm dm cur' p' c w y. loop R' sm dm cur' p' c w = Some y \<Longrightarrow>
        R' = R \<and> cur' = cur \<and> p' = p \<longrightarrow> I w \<longrightarrow> I (snd (snd y))"
      and body: "(case ctx_do c (r_scan R' cur' p' 0) w of
          (Inl e, c1, w1) \<Rightarrow> Some (Some (ErrWrap sm e), c1, w1)
        | (Inr (keys, cursor'), c1, w1) \<Rightarrow>
            case if 0 < length keys then ctx_do c1 (r_del R' keys) w1 else (Inr 0, c1, w1) of
              (Inl e, c2, w2) \<Rightarrow> Some (Some (ErrWrap dm e), c2, w2)
            | (Inr x, c2, w2) \<Rightarrow> if cursor' = 0 then Some (None, c2, w2) else loop R' sm dm cur' p' c2 w2) = Some y"
      and eqs: "R' = R" "cur' = cur" "p' = p" and "I w"
    obtain s c1 w1 where s: "ctx_do c (r_scan R cur p 0) w = (s, c1, w1)" by (metis prod_cases3)
    have w1: "I w1" by (rule ctx_do_keeps [where I = I, OF s \<open>I w\<close>]) (rule scan [OF _ \<open>I w\<close>])
    show "I (snd (snd y))"
    proof (cases s)
      case (Inl e)
      with body s w1 eqs show ?thesis by auto
    next
      case (Inr kc)
      obtain keys cur2 where kc: "kc = (keys, cur2)" by (cases kc)
      obtain d c2 w2 where d:
        "(if 0 < length keys then ctx_do c1 (r_del R keys) w1 else (Inr 0, c1, w1)) = (d, c2, w2)" by (metis prod_cases3)
      have "I w2"
      proof (cases keys)
        case (Cons k ks)
        with d have "ctx_do c1 (r_del R keys) w1 = (d, c2, w2)" by simp
        from this w1 show ?thesis
          by (rule ctx_do_keeps [where I = I]) (rule del [OF conjunct1 [OF ctx_do_Inr [OF s [unfolded Inr kc]]] w1])
      qed (use d w1 in simp)
      note w2 = this
      from body s Inr kc d eqs have
        "(case d of Inl e \<Rightarrow> Some (Some (ErrWrap dm e), c2, w2)
          | Inr x \<Rightarrow> if cur2 = 0 then Some (None, c2, w2) else loop R sm dm cur p c2 w2) = Some y"
        by (simp only: sum.case prod.case)
      then show ?thesis using w2 IH [of R sm dm cur p c2 w2 y]
        by (auto split: sum.splits if_splits)
    qed
  qed
  with assms(2) show ?thesis by simp
qed

lemma scan_del_loop_db_part:
  "scan_del_loop R sm dm cur p c w = Some (r, c', w') \<Longrightarrow> db_part w' = db_part w"
  by (erule scan_del_loop_invariant [where I = "\<lambda>v. db_part v = db_part w"])
    (auto dest: redis_do_db_part)

text \<open>With a context that is done some time the loop returns, whatever the server answers.\<close>

lemma scan_del_loop_returns: "\<exists>r m w'. scan_del_loop R sm dm cur p (Some n) w = Some (r, Some m, w')"
proof (induction n arbitrary: w rule: less_induct)
  case (less n)
  obtain s c1 w1 where s: "ctx_do (Some n) (r_scan R cur p 0) w = (s, c1, w1)" by (metis prod_cases3)
  show ?case
  proof (cases s)
    case (Inl e)
    with s show ?thesis
      by (subst scan_del_loop.simps) (auto simp: ctx_do_def split: if_splits prod.splits)
  next
    case (Inr kc)
    obtain keys cur2 where kc: "kc = (keys, cur2)" by (cases kc)
    have "n \<noteq> 0" using s Inr by (cases "n = 0") (auto simp: ctx_do_def)
    from ctx_do_Inr [OF s [unfolded Inr]] have c1: "c1 = Some (n - 1)" by simp
    obtain d c2 w2 where d:
      "(if 0 < length keys then ctx_do c1 (r_del R keys) w1 else (Inr 0, c1, w1)) = (d, c2, w2)" by (metis prod_cases3)
    then obtain m where m: "c2 = Some m" "m < n"
      using c1 \<open>n \<noteq> 0\<close> by (auto simp: ctx_do_def split: if_splits prod.splits)
    from less.IH [OF m(2)] obtain r k w' where "scan_del_loop R sm dm cur p (Some m) w2 = Some (r, Some k, w')" by blast
    with s Inr kc d m(1) show ?thesis
      by (subst scan_del_loop.simps) (simp only: sum.case prod.case, cases d, auto)
  qed
qed

text \<open>Without one, a scan that never comes back to cursor 0 keeps the loop running.\<close>

lemma scan_del_loop_diverges:
  assumes "J w"
    and step: "\<And>w. J w \<Longrightarrow> \<exists>keys cur' w1. redis_do (r_scan R cur p 0) w = (Inr (keys, cur'), w1) \<and> cur' \<noteq> 0 \<and>
       (keys = [] \<and> J w1 \<or> keys \<noteq> [] \<and> (\<exists>n w2. redis_do (r_del R keys) w1 = (Inr n, w2) \<and> J w2))"
  shows "scan_del_loop R sm dm cur p None w = None"
proof (rule ccontr)
  assume "scan_del_loop R sm dm cur p None w \<noteq> None"
  then obtain y where y: "scan_del_loop R sm dm cur p None w = Some y" by blast
  have "R = R \<and> cur = cur \<and> p = p \<and> (None :: ctx) = None \<longrightarrow> \<not> J w"
  proof (rule scan_del_loop.raw_induct [where
        P = "\<lambda>R' sm dm cur' p' c w y. R' = R \<and> cur' = cur \<and> p' = p \<and> c = None \<longrightarrow> \<not> J w", OF _ y],
      intro impI notI, elim conjE)
    fix loop R' sm dm cur' p' w y and c :: ctx
    assume IH: "\<And>R' sm dm cur' p' c w y. loop R' sm dm cur' p' c w = Some y \<Longrightarrow>
        R' = R \<and> cur' = cur \<and> p' = p \<and> c = None \<longrightarrow> \<not> J w"
      and body: "(case ctx_do c (r_scan R' cur' p' 0) w of
          (Inl e, c1, w1) \<Rightarrow> Some (Some (ErrWrap sm e), c1, w1)
        | (Inr (keys, cursor'), c1, w1) \<Rightarrow>
            case if 0 < length keys then ctx_do c1 (r_del R' keys) w1 else (Inr 0, c1, w1) of
              (Inl e, c2, w2) \<Rightarrow> Some (Some (ErrWrap dm e), c2, w2)
            | (Inr x, c2, w2) \<Rightarrow> if cursor' = 0 then Some (None, c2, w2) else loop R' sm dm cur' p' c2 w2) = Some y"
      and eqs: "R' = R" "cur' = cur" "p' = p" "c = None" and "J w"
    from step [OF \<open>J w\<close>] obtain keys cur2 w1 where
      s: "redis_do (r_scan R cur p 0) w = (Inr (keys, cur2), w1)" "cur2 \<noteq> 0"
      and del: "keys = [] \<and> J w1 \<or> keys \<noteq> [] \<and> (\<exists>n w2. redis_do (r_del R keys) w1 = (Inr n, w2) \<and> J w2)"
      by blast
    have "\<exists>n w2. (if 0 < length keys then ctx_do None (r_del R keys) w1 else (Inr 0, None, w1)) = (Inr n, None, w2) \<and> J w2"
      using del by (cases keys) auto
    then obtain n w2 where
      d: "(if 0 < length keys then ctx_do None (r_del R keys) w1 else (Inr 0, None, w1)) = (Inr n, None, w2)" "J w2"
      by blast
    have s': "ctx_do None (r_scan R cur p 0) w = (Inr (keys, cur2), None, w1)" using s(1) by simp
    have "loop R sm dm cur p None w2 = Some y"
      using body unfolding eqs s' sum.case prod.case d(1) if_not_P [OF s(2)] .
    with IH \<open>J w2\<close> show False by blast
  qed
  with assms(1) show False by simp
qed

text \<open>One round that comes back to cursor 0 is the whole loop.\<close>

lemma scan_del_loop_one_page:
  assumes "redis_do (r_scan R cur p 0) w = (Inr (keys, 0), w1)" "redis_do (r_del R keys) w1 = (Inr n, w2)"
    "c = None \<or> c = Some (Suc (Suc k))"
  shows "\<exists>c'. (c = None \<longrightarrow> c' = None) \<and> (c = Some (Suc (Suc k)) \<longrightarrow> c' \<in> {Some k, Some (Suc k)}) \<and>
    scan_del_loop R sm dm cur p c w = Some (None, c', if keys = [] then w1 else w2)"
  using assms by (subst scan_del_loop.simps) (auto simp: ctx_do_def)

lemma InvalidateMetricCache_db_part [frame]:
  "InvalidateMetricCache E c d m w = Some (r, c', w') \<Longrightarrow> db_part w' = db_part w"
  by (auto simp: InvalidateMetricCache_def split: option.splits
      dest!: scan_del_loop_db_part)

lemma InvalidateMetricCache_returns: "\<exists>r m' w'. InvalidateMetricCache E (Some n) d m w = Some (r, Some m', w')"
proof (cases "e_redis E")
  case (Some R)
  obtain r1 n1 w1 where one: "scan_del_loop R ''failed to scan cache keys'' ''failed to delete cache keys'' 0
      (''point:'' @ d @ '':'' @ m @ '':*'') (Some n) w = Some (r1, Some n1, w1)"
    using scan_del_loop_returns by metis
  show ?thesis
  proof (cases r1)
    case None
    then show ?thesis
      using Some one scan_del_loop_returns [of R "''failed to scan stats cache keys''"
          "''failed to delete stats cache keys''" 0 "''stats:'' @ d @ '':'' @ m @ '':*''" n1 w1]
      by (simp add: InvalidateMetricCache_def del: append.simps)
  qed (use Some one in \<open>simp add: InvalidateMetricCache_def del: append.simps\<close>)
qed (simp add: InvalidateMetricCache_def)

lemma TryMarkDedup_db_part [frame]: "TryMarkDedup E d t ttl w = (r, w') \<Longrightarrow> db_part w' = db_part w"
  by (auto simp: TryMarkDedup_def split: option.splits sum.splits prod.splits dest: redis_do_db_part)

lemma SetDeviceLastSeen_db_part [frame]:
  "SetDeviceLastSeen E d t ttl w = (r, w') \<Longrightarrow> db_part w' = db_part w"
  by (auto simp: SetDeviceLastSeen_def split: option.splits prod.splits dest: redis_do_db_part)

lemma CacheQueryResult_db_part [frame]:
  "CacheQueryResult E k j w = (r, w') \<Longrightarrow> db_part w' = db_part w"
  by (auto simp: CacheQueryResult_def Let_def split: option.splits prod.splits sum.splits
      dest: redis_do_db_part)

lemma GetQueryResult_db_part [frame]: "GetQueryResult E k u w = (r, w') \<Longrightarrow> db_part w' = db_part w"
  by (auto simp: GetQueryResult_def split: option.splits prod.splits sum.splits dest: redis_do_db_part)

section \<open>Deduplication marks survive what the services do between two submissions\<close>



lemma live_commands:
  assumes "keeps_keys R live" "live k (w_redis w)"
  shows "redis_do (r_scan R c p n) w = (x, w') \<Longrightarrow> live k (w_redis w')"
    "redis_do (r_set R k' v ttl) w = (y, w') \<Longrightarrow> live k (w_redis w')"
    "redis_do (r_del R ks) w = (z, w') \<Longrightarrow> k \<notin> set ks \<Longrightarrow> live k (w_redis w')"
  using assms keeps_keysD(3,5,6) [OF assms(1)]
  by (auto simp: redis_do_def Let_def split: prod.splits)

lemma scan_del_loop_live:
  assumes "scan_del_loop R sm dm cur (lit @ rest) c w = Some (r, c', w')" "keeps_keys R live" "scan_law R"
    "glob_free lit" "\<not> has_prefix k lit" "live k (w_redis w)"
  shows "live k (w_redis w')"
  using assms(1,6)
proof (rule scan_del_loop_invariant [where I = "\<lambda>v. live k (w_redis v)"])
  fix w x w1 assume "redis_do (r_scan R cur (lit @ rest) 0) w = (x, w1)" "live k (w_redis w)"
  then show "live k (w_redis w1)" using live_commands(1) [OF assms(2)] by blast
next
  fix w keys cur' w1 x w2
  assume scan: "redis_do (r_scan R cur (lit @ rest) 0) w = (Inr (keys, cur'), w1)"
    and del: "redis_do (r_del R keys) w1 = (x, w2)" and "live k (w_redis w1)"
  from scan obtain r' where "r_scan R cur (lit @ rest) 0 (w_redis w) = (Inr (keys, cur'), r')"
    by (auto simp: redis_do_def Let_def split: prod.splits)
  with assms(3,4,5) have "k \<notin> set keys" unfolding scan_law_def by blast
  with del \<open>live k (w_redis w1)\<close> show "live k (w_redis w2)"
    using live_commands(3) [OF assms(2)] by blast
qed

lemma InvalidateMetricCache_live:
  assumes "InvalidateMetricCache E c d m w = Some (r, c', w')" "e_redis E = Some R" "keeps_keys R live"
    "scan_law R" "\<not> has_prefix k ''point:''" "\<not> has_prefix k ''stats:''" "live k (w_redis w)"
  shows "live k (w_redis w')"
proof -
  note step = scan_del_loop_live [OF _ assms(3,4)]
  from assms(1,2) consider
    (stop) e where "scan_del_loop R ''failed to scan cache keys'' ''failed to delete cache keys'' 0
        (''point:'' @ d @ '':'' @ m @ '':*'') c w = Some (Some e, c', w')"
  | (both) c1 w1 where "scan_del_loop R ''failed to scan cache keys'' ''failed to delete cache keys'' 0
        (''point:'' @ d @ '':'' @ m @ '':*'') c w = Some (None, c1, w1)"
      "scan_del_loop R ''failed to scan stats cache keys'' ''failed to delete stats cache keys'' 0
        (''stats:'' @ d @ '':'' @ m @ '':*'') c1 w1 = Some (r, c', w')"
    unfolding InvalidateMetricCache_def by (auto simp del: append.simps split: option.splits)
  then show ?thesis
  proof cases
    case stop
    show ?thesis by (rule step [OF stop glob_free_telemetry_prefixes(1) assms(5,7)])
  next
    case (both c1 w1)
    have "live k (w_redis w1)"
      by (rule step [OF both(1) glob_free_telemetry_prefixes(1) assms(5,7)])
    then show ?thesis by (rule step [OF both(2) glob_free_telemetry_prefixes(2) assms(6)])
  qed
qed

lemma SetDeviceLastSeen_live:
  assumes "SetDeviceLastSeen E d t ttl w = (r, w')" "e_redis E = Some R" "keeps_keys R live"
    "live k (w_redis w)"
  shows "live k (w_redis w')"
  using assms by (auto simp: SetDeviceLastSeen_def split: option.splits prod.splits
      dest: live_commands(2) [OF assms(3,4)])

lemma TryMarkDedup_live:
  assumes "e_redis E = Some R" "keeps_keys R live" "live (dedup_key d ts) (w_redis w)"
    "r_setnx R (dedup_key d ts) ''1'' ttl (w_redis w) = (Inr b, r')"
  shows "TryMarkDedup E d ts ttl w = (Inr False, w\<lparr>w_redis := r'\<rparr>)"
  using assms keeps_keysD(1) [OF assms(2,4)] by (simp add: TryMarkDedup_def redis_do_def)

lemma TryMarkDedup_marks:
  assumes "e_redis E = Some R" "keeps_keys R live" "TryMarkDedup E d ts ttl w = (Inr b, w')"
    "fst (r_setnx R (dedup_key d ts) ''1'' ttl (w_redis w)) = Inr b"
  shows "b = (\<not> live (dedup_key d ts) (w_redis w))" "live (dedup_key d ts) (w_redis w')"
proof -
  from assms(4) obtain r' where s: "r_setnx R (dedup_key d ts) ''1'' ttl (w_redis w) = (Inr b, r')"
    by (cases "r_setnx R (dedup_key d ts) ''1'' ttl (w_redis w)") auto
  with assms(1,3) have w': "w' = w\<lparr>w_redis := r'\<rparr>" by (simp add: TryMarkDedup_def redis_do_def)
  from keeps_keysD(1) [OF assms(2) s] w'
  show "b = (\<not> live (dedup_key d ts) (w_redis w))" "live (dedup_key d ts) (w_redis w')" by simp_all
qed

text \<open>The stored second comes back, its nanoseconds do not.\<close>

lemma last_seen_stored:
  assumes "e_redis E = Some R" "set_get_law R" "SetDeviceLastSeen E d t ttl w = (None, w1)"
  obtains r2 where "redis_do (r_get R (last_seen_key d)) w1 = (Inr (unix_dec t), w1\<lparr>w_redis := r2\<rparr>)"
proof -
  from assms(1,3) obtain r1 where r1: "r_set R (last_seen_key d) (unix_dec t) ttl (w_redis w) = (None, r1)"
    "w1 = w\<lparr>w_redis := r1\<rparr>"
    by (auto simp: SetDeviceLastSeen_def redis_do_def Let_def split: prod.splits option.splits)
  with assms(2) have "fst (r_get R (last_seen_key d) r1) = Inr (unix_dec t)"
    unfolding set_get_law_def by blast
  then obtain r2 where "r_get R (last_seen_key d) r1 = (Inr (unix_dec t), r2)"
    by (cases "r_get R (last_seen_key d) r1") auto
  with r1(2) show thesis by (intro that [of r2]) (simp add: redis_do_def)
qed

lemma parse_unix_dec: "parse_int (unix_dec t) = Inr (sint (unix_secs t))"
  unfolding unix_dec_def by (rule parse_int_format_int) (rule sint_i64_range)

lemma last_seen_roundtrip:
  assumes "e_redis E = Some R" "set_get_law R" "SetDeviceLastSeen E d t ttl w = (None, w1)"
  shows "fst (GetDeviceLastSeen E d w1) = Inr (time_unix (unix_secs t))"
  by (rule last_seen_stored [OF assms]) (simp add: GetDeviceLastSeen_def assms(1) parse_unix_dec)

end
