(* ===== verification/AlertDB.thy ===== *)
theory AlertDB
  imports Interfaces
begin

text \<open>
  \<open>internal/db/alert_db.go\<close> over the tables \<open>alert_thresholds\<close>, \<open>alerts\<close> and \<open>silence_rules\<close> of
  \<open>migrations/003_alert_service.sql\<close>. A statement without \<open>ORDER BY\<close> returns the rows in the
  order of the table. The lemmas give the table invariant and its preservation, the frame of
  each operation and the exact effect of the successful ones.
\<close>

section \<open>Constraints\<close>

definition alert_device_ids :: "'r world \<Rightarrow> string set" where
  "alert_device_ids w = dv_DeviceID ` set (w_devices w)"

definition threshold_types :: "string list" where
  "threshold_types = [''HIGH'', ''LOW'', ''RANGE'', ''CHANGE'']"

definition severities :: "string list" where
  "severities = [''CRITICAL'', ''WARNING'', ''INFO'']"

text \<open>Column lengths and the two \<open>CHECK\<close> clauses of \<open>alert_thresholds\<close>.\<close>

definition threshold_checks :: "threshold \<Rightarrow> (bool \<times> string) list" where
  "threshold_checks t =
     [text_ok [th_DeviceID t, th_MetricName t, th_Type t, th_Severity t],
      varchar_ok 255 (th_DeviceID t), varchar_ok 128 (th_MetricName t),
      varchar_ok 32 (th_Type t), varchar_ok 32 (th_Severity t),
      (th_Type t \<in> set threshold_types, ''23514''), (th_Severity t \<in> set severities, ''23514'')]"

text \<open>The constraint \<open>unique_threshold\<close>.\<close>

definition threshold_key :: "threshold \<Rightarrow> string \<times> string \<times> string" where
  "threshold_key t = (th_DeviceID t, th_MetricName t, th_Type t)"

definition alert_checks :: "alert \<Rightarrow> (bool \<times> string) list" where
  "alert_checks a =
     [text_ok [al_AlertID a, al_DeviceID a, al_MetricName a, al_ThresholdType a, al_Severity a,
               al_Message a],
      varchar_ok 255 (al_AlertID a), varchar_ok 255 (al_DeviceID a),
      varchar_ok 128 (al_MetricName a), varchar_ok 32 (al_ThresholdType a),
      varchar_ok 32 (al_Severity a)]"

definition silence_texts :: "silence_rule \<Rightarrow> string list" where
  "silence_texts s =
     [sl_DeviceID s, sl_Reason s] @ (case sl_MetricName s of None \<Rightarrow> [] | Some m \<Rightarrow> [m])"

definition silence_checks :: "silence_rule \<Rightarrow> (bool \<times> string) list" where
  "silence_checks s =
     [text_ok (silence_texts s), varchar_ok 255 (sl_DeviceID s),
      varchar_ok 128 (case sl_MetricName s of None \<Rightarrow> [] | Some m \<Rightarrow> m)]"

text \<open>The constraint \<open>unique_silence\<close>: rows with a NULL metric never conflict.\<close>

definition silence_conflict :: "silence_rule \<Rightarrow> silence_rule \<Rightarrow> bool" where
  "silence_conflict s s' \<longleftrightarrow>
     sl_SilenceID s = sl_SilenceID s' \<or>
     (sl_DeviceID s = sl_DeviceID s' \<and> sl_MetricName s = sl_MetricName s' \<and>
      sl_MetricName s \<noteq> None)"

section \<open>Thresholds\<close>

definition sql_insert_threshold ::
    "'r env \<Rightarrow> threshold \<Rightarrow> 'r world \<Rightarrow> go_error option \<times> 'r world" where
  "sql_insert_threshold E t w =
     (let (now, w1) = time_now E w;
          row = t\<lparr>th_CreatedAt := now, th_UpdatedAt := now\<rparr> in
      case first_violation (threshold_checks row) of
        Some code \<Rightarrow> (Some (pg_error E code), w1)
      | None \<Rightarrow>
          if th_ThresholdID row \<in> th_ThresholdID ` set (w_thresholds w1) \<or>
             threshold_key row \<in> threshold_key ` set (w_thresholds w1)
          then (Some (pg_error E ''23505''), w1)
          else if th_DeviceID row \<notin> alert_device_ids w1 then (Some (pg_error E ''23503''), w1)
          else (None, w1\<lparr>w_thresholds := w_thresholds w1 @ [row]\<rparr>))"

definition CreateThreshold_db ::
    "'r env \<Rightarrow> threshold \<Rightarrow> 'r world \<Rightarrow> (string \<times> go_error option) \<times> 'r world" where
  "CreateThreshold_db E t w =
     (let (now, w1) = time_now E w;
          thresholdID = ''th_'' @ format_int (sint (unix_nano now)) in
      case ext_fault E w1 of
        (Some e, w2) \<Rightarrow> ((thresholdID, Some e), w2)
      | (None, w2) \<Rightarrow>
          (case sql_insert_threshold E (t\<lparr>th_ThresholdID := thresholdID\<rparr>) w2 of
             (r, w3) \<Rightarrow> ((thresholdID, r), w3)))"

definition GetThresholds_db ::
    "'r env \<Rightarrow> string \<Rightarrow> string \<Rightarrow> bool \<Rightarrow> 'r world \<Rightarrow> (go_error + threshold list) \<times> 'r world" where
  "GetThresholds_db E deviceID metricName onlyEnabled w =
     (case ext_fault E w of
        (Some e, w1) \<Rightarrow> (Inl (ErrWrap ''query failed'' e), w1)
      | (None, w1) \<Rightarrow>
          (if list_all no_nul [deviceID, metricName]
           then Inr (filter (\<lambda>t. th_DeviceID t = deviceID \<and>
                  (metricName \<noteq> '''' \<longrightarrow> th_MetricName t = metricName) \<and>
                  (onlyEnabled \<longrightarrow> th_Enabled t)) (w_thresholds w1))
           else Inl (ErrWrap ''query failed'' (pg_error E ''22021'')), w1))"

text \<open>
  The values of the map passed to \<open>UpdateThreshold\<close>; its keys are column names. The list holds
  the entries in the order in which the loop visits them.
\<close>

datatype update_value = UFloat float64 | UText string | UBool bool

definition set_column :: "string \<Rightarrow> update_value \<Rightarrow> threshold \<Rightarrow> go_error + threshold" where
  "set_column col v t =
     (case v of
        UFloat x \<Rightarrow>
          if col = ''lower_bound'' then Inr (t\<lparr>th_LowerBound := x\<rparr>)
          else if col = ''upper_bound'' then Inr (t\<lparr>th_UpperBound := x\<rparr>)
          else if col = ''change_percent'' then Inr (t\<lparr>th_ChangePercent := x\<rparr>)
          else Inl (ErrText ''unable to encode'')
      | UText s \<Rightarrow>
          if col = ''severity'' then Inr (t\<lparr>th_Severity := s\<rparr>)
          else if col = ''type'' then Inr (t\<lparr>th_Type := s\<rparr>)
          else if col = ''metric_name'' then Inr (t\<lparr>th_MetricName := s\<rparr>)
          else if col = ''device_id'' then Inr (t\<lparr>th_DeviceID := s\<rparr>)
          else Inl (ErrText ''unable to encode'')
      | UBool b \<Rightarrow>
          if col = ''enabled'' then Inr (t\<lparr>th_Enabled := b\<rparr>)
          else Inl (ErrText ''unable to encode''))"

fun set_columns :: "(string \<times> update_value) list \<Rightarrow> threshold \<Rightarrow> go_error + threshold" where
  "set_columns [] t = Inr t"
| "set_columns ((col, v) # us) t =
     (case set_column col v t of Inl e \<Rightarrow> Inl e | Inr t' \<Rightarrow> set_columns us t')"

definition threshold_columns :: "string list" where
  "threshold_columns =
     [''threshold_id'', ''device_id'', ''metric_name'', ''type'', ''lower_bound'', ''upper_bound'',
      ''change_percent'', ''severity'', ''enabled'', ''created_at'', ''updated_at'']"

text \<open>
  The statement \<open>UPDATE alert_thresholds SET k1 = $1, ..., updated_at = NOW() WHERE
  threshold_id = $n\<close>: the columns are resolved first (42703, and 42701 for a second assignment
  of \<open>updated_at\<close>), then the row, if there is one, is changed and checked.
\<close>

definition sql_update_threshold ::
    "'r env \<Rightarrow> string \<Rightarrow> (string \<times> update_value) list \<Rightarrow> 'r world \<Rightarrow> go_error option \<times> 'r world" where
  "sql_update_threshold E thresholdID updates w =
     (let (now, w1) = time_now E w in
      if \<not> set (map fst updates) \<subseteq> set threshold_columns then (Some (pg_error E ''42703''), w1)
      else if ''updated_at'' \<in> set (map fst updates) then (Some (pg_error E ''42701''), w1)
      else if \<not> no_nul thresholdID then (Some (pg_error E ''22021''), w1)
      else case List.find (\<lambda>t. th_ThresholdID t = thresholdID) (w_thresholds w1) of
        None \<Rightarrow> (None, w1)
      | Some t \<Rightarrow>
          (case set_columns updates t of
             Inl e \<Rightarrow> (Some e, w1)
           | Inr t1 \<Rightarrow>
               (let row = t1\<lparr>th_UpdatedAt := now\<rparr>;
                    others = filter (\<lambda>u. th_ThresholdID u \<noteq> thresholdID) (w_thresholds w1) in
                case first_violation (threshold_checks row) of
                  Some code \<Rightarrow> (Some (pg_error E code), w1)
                | None \<Rightarrow>
                    if threshold_key row \<in> threshold_key ` set others
                    then (Some (pg_error E ''23505''), w1)
                    else if th_DeviceID row \<notin> alert_device_ids w1
                    then (Some (pg_error E ''23503''), w1)
                    else (None, w1\<lparr>w_thresholds :=
                      map (\<lambda>u. if th_ThresholdID u = thresholdID then row else u)
                        (w_thresholds w1)\<rparr>))))"

definition UpdateThreshold_db ::
    "'r env \<Rightarrow> string \<Rightarrow> (string \<times> update_value) list \<Rightarrow> 'r world \<Rightarrow> go_error option \<times> 'r world" where
  "UpdateThreshold_db E thresholdID updates w =
     (if length updates = 0 then (None, w)
      else case ext_fault E w of
        (Some e, w1) \<Rightarrow> (Some e, w1)
      | (None, w1) \<Rightarrow> sql_update_threshold E thresholdID updates w1)"

definition DeleteThreshold_db ::
    "'r env \<Rightarrow> string \<Rightarrow> 'r world \<Rightarrow> go_error option \<times> 'r world" where
  "DeleteThreshold_db E thresholdID w =
     (case ext_fault E w of
        (Some e, w1) \<Rightarrow> (Some e, w1)
      | (None, w1) \<Rightarrow>
          if no_nul thresholdID
          then (None, w1\<lparr>w_thresholds :=
                 filter (\<lambda>t. th_ThresholdID t \<noteq> thresholdID) (w_thresholds w1)\<rparr>)
          else (Some (pg_error E ''22021''), w1))"

section \<open>Alerts\<close>

definition InsertAlert ::
    "'r env \<Rightarrow> alert \<Rightarrow> 'r world \<Rightarrow> go_error option \<times> 'r world" where
  "InsertAlert E a w =
     (case ext_fault E w of
        (Some e, w1) \<Rightarrow> (Some e, w1)
      | (None, w1) \<Rightarrow>
          (let (now, w2) = time_now E w1 in
           case first_violation (alert_checks a) of
             Some code \<Rightarrow> (Some (pg_error E code), w2)
           | None \<Rightarrow>
               if (al_AlertID a, now) \<in> (\<lambda>(b, t). (al_AlertID b, t)) ` set (w_alerts w2)
               then (Some (pg_error E ''23505''), w2)
               else if al_DeviceID a \<notin> alert_device_ids w2 then (Some (pg_error E ''23503''), w2)
               else (None, w2\<lparr>w_alerts := w_alerts w2 @ [(a, now)]\<rparr>)))"

definition active_alert :: "string \<Rightarrow> string \<Rightarrow> alert \<Rightarrow> bool" where
  "active_alert deviceID severity a \<longleftrightarrow>
     al_ResolvedAt a = None \<and> (deviceID \<noteq> '''' \<longrightarrow> al_DeviceID a = deviceID) \<and>
     (severity \<noteq> '''' \<longrightarrow> al_Severity a = severity)"

text \<open>\<open>LIMIT\<close> and \<open>OFFSET\<close> reject negative arguments.\<close>

definition sql_paging :: "'r env \<Rightarrow> int \<Rightarrow> int \<Rightarrow> 'a list \<Rightarrow> go_error + 'a list" where
  "sql_paging E n off rs =
     (if off < 0 then Inl (pg_error E ''2201X'')
      else if n < 0 then Inl (pg_error E ''2201W'')
      else Inr (window (nat off) (nat n) rs))"

definition GetActiveAlerts_db ::
    "'r env \<Rightarrow> string \<Rightarrow> string \<Rightarrow> int \<Rightarrow> int \<Rightarrow> 'r world \<Rightarrow>
     (go_error + alert list \<times> i64) \<times> 'r world" where
  "GetActiveAlerts_db E deviceID severity limit offset w =
     (case ext_fault E w of
        (Some e, w1) \<Rightarrow> (Inl e, w1)
      | (None, w1) \<Rightarrow>
          if \<not> list_all no_nul [deviceID, severity] then (Inl (pg_error E ''22021''), w1)
          else
            (let rs = filter (active_alert deviceID severity) (map fst (w_alerts w1));
                 total = of_nat (length rs) in
             case ext_fault E w1 of
               (Some e, w2) \<Rightarrow> (Inl e, w2)
             | (None, w2) \<Rightarrow>
                 (case sql_paging E limit offset (sort_desc al_TriggeredAt rs) of
                    Inl e \<Rightarrow> (Inl e, w2)
                  | Inr alerts \<Rightarrow> (Inr (alerts, total), w2))))"

definition QueryAlertHistory_db ::
    "'r env \<Rightarrow> string \<Rightarrow> string \<Rightarrow> gotime \<Rightarrow> gotime \<Rightarrow> int \<Rightarrow> 'r world \<Rightarrow>
     (go_error + alert list) \<times> 'r world" where
  "QueryAlertHistory_db E deviceID metricName startTime endTime limit w =
     (case ext_fault E w of
        (Some e, w1) \<Rightarrow> (Inl e, w1)
      | (None, w1) \<Rightarrow>
          if \<not> list_all no_nul [deviceID, metricName] then (Inl (pg_error E ''22021''), w1)
          else (sql_paging E limit 0 (sort_desc al_TriggeredAt
                  (filter (\<lambda>a. al_DeviceID a = deviceID \<and> startTime \<le> al_TriggeredAt a \<and>
                       al_TriggeredAt a \<le> endTime \<and>
                       (metricName \<noteq> '''' \<longrightarrow> al_MetricName a = metricName))
                     (map fst (w_alerts w1)))), w1))"

definition resolve_row :: "string \<Rightarrow> gotime \<Rightarrow> alert \<times> gotime \<Rightarrow> alert \<times> gotime" where
  "resolve_row alertID now row =
     (if al_AlertID (fst row) = alertID \<and> al_ResolvedAt (fst row) = None
      then ((fst row)\<lparr>al_ResolvedAt := Some now\<rparr>, snd row) else row)"

definition ResolveAlert ::
    "'r env \<Rightarrow> string \<Rightarrow> 'r world \<Rightarrow> go_error option \<times> 'r world" where
  "ResolveAlert E alertID w =
     (case ext_fault E w of
        (Some e, w1) \<Rightarrow> (Some e, w1)
      | (None, w1) \<Rightarrow>
          (let (now, w2) = time_now E w1 in
           if \<not> no_nul alertID then (Some (pg_error E ''22021''), w2)
           else (None, w2\<lparr>w_alerts := map (resolve_row alertID now) (w_alerts w2)\<rparr>)))"

section \<open>Silence rules\<close>

definition sql_insert_silence ::
    "'r env \<Rightarrow> silence_rule \<Rightarrow> 'r world \<Rightarrow> go_error option \<times> 'r world" where
  "sql_insert_silence E s w =
     (case first_violation (silence_checks s) of
        Some code \<Rightarrow> (Some (pg_error E code), w)
      | None \<Rightarrow>
          if list_ex (silence_conflict s) (w_silences w) then (Some (pg_error E ''23505''), w)
          else if sl_DeviceID s \<notin> alert_device_ids w then (Some (pg_error E ''23503''), w)
          else (None, w\<lparr>w_silences := w_silences w @ [s]\<rparr>))"

text \<open>\<open>time.Duration(durationSeconds) * time.Second\<close> is a 64 bit product.\<close>

definition duration_of_seconds :: "int \<Rightarrow> int" where
  "duration_of_seconds d = sint (word_of_int (d * 1000000000) :: i64)"

definition SilenceDevice ::
    "'r env \<Rightarrow> string \<Rightarrow> string \<Rightarrow> int \<Rightarrow> string \<Rightarrow> 'r world \<Rightarrow>
     (string \<times> go_error option) \<times> 'r world" where
  "SilenceDevice E deviceID metricName durationSeconds reason w =
     (let (now, w1) = time_now E w;
          silenceID = ''sil_'' @ format_int (sint (unix_nano now));
          (now2, w2) = time_now E w1;
          silencedUntil = time_add now2 (duration_of_seconds durationSeconds);
          metricNameVal = (if metricName \<noteq> '''' then Some metricName else None);
          row = \<lparr>sl_SilenceID = silenceID, sl_DeviceID = deviceID, sl_MetricName = metricNameVal,
                 sl_SilencedUntil = silencedUntil, sl_Reason = reason\<rparr> in
      case ext_fault E w2 of
        (Some e, w3) \<Rightarrow> ((silenceID, Some e), w3)
      | (None, w3) \<Rightarrow>
          (case sql_insert_silence E row w3 of (r, w4) \<Rightarrow> ((silenceID, r), w4)))"

definition GetActiveSilences ::
    "'r env \<Rightarrow> string \<Rightarrow> 'r world \<Rightarrow> (go_error + silence_rule list) \<times> 'r world" where
  "GetActiveSilences E deviceID w =
     (case ext_fault E w of
        (Some e, w1) \<Rightarrow> (Inl e, w1)
      | (None, w1) \<Rightarrow>
          (let (now, w2) = time_now E w1 in
           if \<not> no_nul deviceID then (Inl (pg_error E ''22021''), w2)
           else (Inr (filter (\<lambda>s. sl_DeviceID s = deviceID \<and> now < sl_SilencedUntil s)
                   (w_silences w2)), w2)))"

definition ClearSilences ::
    "'r env \<Rightarrow> string \<Rightarrow> 'r world \<Rightarrow> go_error option \<times> 'r world" where
  "ClearSilences E deviceID w =
     (case ext_fault E w of
        (Some e, w1) \<Rightarrow> (Some e, w1)
      | (None, w1) \<Rightarrow>
          if no_nul deviceID
          then (None, w1\<lparr>w_silences := filter (\<lambda>s. sl_DeviceID s \<noteq> deviceID) (w_silences w1)\<rparr>)
          else (Some (pg_error E ''22021''), w1))"

section \<open>Statistics\<close>

text \<open>The map the Go function returns, with its three entries.\<close>

record alert_stats =
  as_total_alerts :: i64
  as_active_alerts :: i64
  as_by_severity :: "(string \<times> i64) list"

definition alerts_between :: "string \<Rightarrow> gotime \<Rightarrow> gotime \<Rightarrow> alert list \<Rightarrow> alert list" where
  "alerts_between deviceID startTime endTime rs =
     filter (\<lambda>a. al_DeviceID a = deviceID \<and> startTime \<le> al_TriggeredAt a \<and>
                 al_TriggeredAt a \<le> endTime) rs"

definition group_by_severity :: "alert list \<Rightarrow> (string \<times> i64) list" where
  "group_by_severity rs =
     map (\<lambda>s. (s, of_nat (length (filter (\<lambda>a. al_Severity a = s) rs)))) (remdups (map al_Severity rs))"

definition GetAlertStats_db ::
    "'r env \<Rightarrow> string \<Rightarrow> gotime \<Rightarrow> gotime \<Rightarrow> 'r world \<Rightarrow> (go_error + alert_stats) \<times> 'r world" where
  "GetAlertStats_db E deviceID startTime endTime w =
     (case ext_fault E w of
        (Some e, w1) \<Rightarrow> (Inl e, w1)
      | (None, w1) \<Rightarrow>
     if \<not> no_nul deviceID then (Inl (pg_error E ''22021''), w1) else
     (let totalAlerts = of_nat (length (alerts_between deviceID startTime endTime
                          (map fst (w_alerts w1)))) in
      case ext_fault E w1 of
        (Some e, w2) \<Rightarrow> (Inl e, w2)
      | (None, w2) \<Rightarrow>
     (let activeAlerts = of_nat (length (filter (\<lambda>a. al_DeviceID a = deviceID \<and>
                          al_ResolvedAt a = None) (map fst (w_alerts w2)))) in
      case ext_fault E w2 of
        (Some e, w3) \<Rightarrow> (Inl e, w3)
      | (None, w3) \<Rightarrow>
          (Inr \<lparr>as_total_alerts = totalAlerts, as_active_alerts = activeAlerts,
                as_by_severity = group_by_severity
                  (alerts_between deviceID startTime endTime (map fst (w_alerts w3)))\<rparr>, w3))))"

section \<open>Invariant\<close>

text \<open>
  What the schema guarantees of the three tables: primary keys and uniqueness constraints,
  foreign keys, and the checks of every stored row.
\<close>

definition thresholds_inv :: "'r world \<Rightarrow> bool" where
  "thresholds_inv w \<longleftrightarrow>
     distinct_by th_ThresholdID (w_thresholds w) \<and> distinct_by threshold_key (w_thresholds w) \<and>
     (\<forall>t \<in> set (w_thresholds w). first_violation (threshold_checks t) = None \<and>
        th_DeviceID t \<in> alert_device_ids w)"

definition alerts_inv :: "'r world \<Rightarrow> bool" where
  "alerts_inv w \<longleftrightarrow>
     distinct_by (\<lambda>(a, t). (al_AlertID a, t)) (w_alerts w) \<and>
     (\<forall>(a, t) \<in> set (w_alerts w). first_violation (alert_checks a) = None \<and>
        al_DeviceID a \<in> alert_device_ids w)"

definition silences_inv :: "'r world \<Rightarrow> bool" where
  "silences_inv w \<longleftrightarrow>
     sorted_wrt (\<lambda>s s'. \<not> silence_conflict s' s) (w_silences w) \<and>
     (\<forall>s \<in> set (w_silences w). first_violation (silence_checks s) = None \<and>
        sl_DeviceID s \<in> alert_device_ids w)"

text \<open>The invariants read three tables and the devices; nothing else matters for them.\<close>

lemma alert_device_ids_cong:
  "w_devices w = w_devices w' \<Longrightarrow> alert_device_ids w = alert_device_ids w'"
  by (simp add: alert_device_ids_def)

lemma thresholds_inv_same:
  "same_data w w' \<Longrightarrow> thresholds_inv w = thresholds_inv w'"
  using same_dataD [of w w'] by (simp add: thresholds_inv_def alert_device_ids_def)

lemma alerts_inv_same: "same_data w w' \<Longrightarrow> alerts_inv w = alerts_inv w'"
  using same_dataD [of w w'] by (simp add: alerts_inv_def alert_device_ids_def)

lemma silences_inv_same: "same_data w w' \<Longrightarrow> silences_inv w = silences_inv w'"
  using same_dataD [of w w'] by (simp add: silences_inv_def alert_device_ids_def)

section \<open>Thresholds: effects\<close>

lemma sql_insert_threshold_ok:
  assumes "sql_insert_threshold E t w = (None, w')"
  obtains now where
    "w' = w\<lparr>w_tick := Suc (w_tick w), w_thresholds := w_thresholds w @
       [t\<lparr>th_CreatedAt := now, th_UpdatedAt := now\<rparr>]\<rparr>"
    "first_violation (threshold_checks t) = None"
    "th_ThresholdID t \<notin> th_ThresholdID ` set (w_thresholds w)"
    "threshold_key t \<notin> threshold_key ` set (w_thresholds w)" "th_DeviceID t \<in> alert_device_ids w"
proof -
  have same: "threshold_checks (t\<lparr>th_CreatedAt := n, th_UpdatedAt := n\<rparr>) = threshold_checks t"
    "threshold_key (t\<lparr>th_CreatedAt := n, th_UpdatedAt := n\<rparr>) = threshold_key t" for n
    by (simp_all add: threshold_checks_def threshold_key_def)
  from assms show thesis
    by (intro that [of "e_clock E (w_tick w)"])
      (auto simp: sql_insert_threshold_def time_now_def Let_def same alert_device_ids_def
        split: option.splits if_splits)
qed

lemma sql_insert_threshold_err:
  "sql_insert_threshold E t w = (Some e, w') \<Longrightarrow> same_data w' w"
  by (auto simp: sql_insert_threshold_def time_now_def Let_def split: option.splits if_splits)

lemma CreateThreshold_db_ok:
  assumes "CreateThreshold_db E t w = ((tid, None), w')"
  obtains now n where "tid = ''th_'' @ format_int (sint (unix_nano (e_clock E (w_tick w))))"
    "w' = w\<lparr>w_tick := n, w_thresholds := w_thresholds w @
       [t\<lparr>th_ThresholdID := tid, th_CreatedAt := now, th_UpdatedAt := now\<rparr>]\<rparr>"
    "first_violation (threshold_checks t) = None"
    "tid \<notin> th_ThresholdID ` set (w_thresholds w)"
    "threshold_key t \<notin> threshold_key ` set (w_thresholds w)" "th_DeviceID t \<in> alert_device_ids w"
proof -
  let ?tid = "''th_'' @ format_int (sint (unix_nano (e_clock E (w_tick w))))"
  from assms have tid: "tid = ?tid"
    and ins: "sql_insert_threshold E (t\<lparr>th_ThresholdID := ?tid\<rparr>)
                (w\<lparr>w_tick := Suc (Suc (w_tick w))\<rparr>) = (None, w')"
    by (auto simp: CreateThreshold_db_def time_now_def ext_fault_def Let_def
        split: option.splits prod.splits)
  from sql_insert_threshold_ok [OF ins] obtain now where
    "w' = w\<lparr>w_tick := Suc (Suc (Suc (w_tick w))), w_thresholds := w_thresholds w @
       [t\<lparr>th_ThresholdID := ?tid, th_CreatedAt := now, th_UpdatedAt := now\<rparr>]\<rparr>"
    "first_violation (threshold_checks t) = None"
    "?tid \<notin> th_ThresholdID ` set (w_thresholds w)"
    "threshold_key t \<notin> threshold_key ` set (w_thresholds w)" "th_DeviceID t \<in> alert_device_ids w"
    by (auto simp: threshold_checks_def threshold_key_def alert_device_ids_def)
  with tid that show thesis by blast
qed

lemma CreateThreshold_db_err:
  "CreateThreshold_db E t w = ((tid, Some e), w') \<Longrightarrow> same_data w' w"
  by (auto simp: CreateThreshold_db_def time_now_def ext_fault_def Let_def
      split: option.splits prod.splits dest!: sql_insert_threshold_err intro: same_data_trans)

lemma GetThresholds_db_same_data [frame]:
  "GetThresholds_db E d m en w = (r, w') \<Longrightarrow> same_data w' w"
  by (auto simp: GetThresholds_db_def ext_fault_def split: option.splits if_splits)

lemma GetThresholds_db_Inr:
  "GetThresholds_db E d m en w = (Inr ts, w') \<Longrightarrow>
   ts = filter (\<lambda>t. th_DeviceID t = d \<and> (m \<noteq> [] \<longrightarrow> th_MetricName t = m) \<and> (en \<longrightarrow> th_Enabled t))
          (w_thresholds w)"
  by (auto simp: GetThresholds_db_def ext_fault_def split: option.splits if_splits)

lemma set_column_id: "set_column c v t = Inr t' \<Longrightarrow> th_ThresholdID t' = th_ThresholdID t"
  by (auto simp: set_column_def split: update_value.splits if_splits)

lemma set_columns_id: "set_columns us t = Inr t' \<Longrightarrow> th_ThresholdID t' = th_ThresholdID t"
  by (induction us t rule: set_columns.induct) (auto split: sum.splits dest: set_column_id)

text \<open>A successful update changes at most the row with the given id.\<close>

lemma sql_update_threshold_ok:
  assumes "sql_update_threshold E tid us w = (None, w')"
  obtains (no_row) "tid \<notin> th_ThresholdID ` set (w_thresholds w)" "same_data w' w"
  | (row) t row now where "t \<in> set (w_thresholds w)" "th_ThresholdID t = tid"
      "\<exists>t1. set_columns us t = Inr t1 \<and> row = t1\<lparr>th_UpdatedAt := now\<rparr>"
      "first_violation (threshold_checks row) = None"
      "threshold_key row \<notin> threshold_key ` {u \<in> set (w_thresholds w). th_ThresholdID u \<noteq> tid}"
      "th_DeviceID row \<in> alert_device_ids w" "th_ThresholdID row = tid"
      "w' = w\<lparr>w_tick := Suc (w_tick w), w_thresholds :=
         map (\<lambda>u. if th_ThresholdID u = tid then row else u) (w_thresholds w)\<rparr>"
proof (cases "List.find (\<lambda>t. th_ThresholdID t = tid) (w_thresholds w)")
  case None
  then have "tid \<notin> th_ThresholdID ` set (w_thresholds w)" by (auto simp: find_None_iff)
  moreover from assms None have "same_data w' w"
    by (auto simp: sql_update_threshold_def time_now_def Let_def split: if_splits)
  ultimately show thesis by (rule no_row)
next
  case (Some t)
  then have t: "t \<in> set (w_thresholds w)" "th_ThresholdID t = tid"
    by (auto simp: find_Some_iff)
  from assms Some obtain t1 where t1: "set_columns us t = Inr t1"
    by (auto simp: sql_update_threshold_def time_now_def Let_def split: if_splits sum.splits)
  let ?row = "t1\<lparr>th_UpdatedAt := e_clock E (w_tick w)\<rparr>"
  from set_columns_id [OF t1] t(2) have id: "th_ThresholdID ?row = tid" by simp
  from assms Some t1 have
    "first_violation (threshold_checks ?row) = None"
    "threshold_key ?row \<notin> threshold_key ` {u \<in> set (w_thresholds w). th_ThresholdID u \<noteq> tid}"
    "th_DeviceID ?row \<in> alert_device_ids w"
    "w' = w\<lparr>w_tick := Suc (w_tick w), w_thresholds :=
         map (\<lambda>u. if th_ThresholdID u = tid then ?row else u) (w_thresholds w)\<rparr>"
    by (auto simp: sql_update_threshold_def time_now_def Let_def alert_device_ids_def
        split: if_splits option.splits)
  with t t1 id show thesis by (intro row) blast+
qed

lemma sql_update_threshold_err:
  "sql_update_threshold E tid us w = (Some e, w') \<Longrightarrow> same_data w' w"
  by (auto simp: sql_update_threshold_def time_now_def Let_def
      split: if_splits option.splits sum.splits)

lemma UpdateThreshold_db_err: "UpdateThreshold_db E tid us w = (Some e, w') \<Longrightarrow> same_data w' w"
  by (auto simp: UpdateThreshold_db_def ext_fault_def split: if_splits option.splits
      dest!: sql_update_threshold_err intro: same_data_trans)

section \<open>Thresholds: the invariant is kept\<close>

lemma thresholds_inv_snoc:
  assumes "thresholds_inv w" "first_violation (threshold_checks t) = None"
    "th_ThresholdID t \<notin> th_ThresholdID ` set (w_thresholds w)"
    "threshold_key t \<notin> threshold_key ` set (w_thresholds w)" "th_DeviceID t \<in> alert_device_ids w"
  shows "thresholds_inv (w\<lparr>w_tick := n, w_thresholds := w_thresholds w @ [t]\<rparr>)"
  using assms by (simp add: thresholds_inv_def alert_device_ids_def)

lemma CreateThreshold_db_inv [inv_intros]:
  assumes "CreateThreshold_db E t w = (r, w')" "thresholds_inv w"
  shows "thresholds_inv w'"
proof (cases "snd r")
  case None
  with assms(1) have "CreateThreshold_db E t w = ((fst r, None), w')" by (cases r) simp
  then show ?thesis
  proof (cases rule: CreateThreshold_db_ok)
    case (1 now n)
    let ?row = "t\<lparr>th_ThresholdID := fst r, th_CreatedAt := now, th_UpdatedAt := now\<rparr>"
    have "threshold_checks ?row = threshold_checks t" "threshold_key ?row = threshold_key t"
      by (simp_all add: threshold_checks_def threshold_key_def)
    then show ?thesis unfolding 1(2)
      by (intro thresholds_inv_snoc) (use 1 assms(2) in simp_all)
  qed
next
  case (Some e)
  with assms(1) have "CreateThreshold_db E t w = ((fst r, Some e), w')" by (cases r) simp
  with assms(2) show ?thesis using CreateThreshold_db_err thresholds_inv_same by blast
qed

text \<open>Replacing the one row with a given primary key.\<close>

lemma distinct_by_replace:
  assumes "distinct_by f xs" "distinct_by k xs" "k row = i"
    "f row \<notin> f ` {x \<in> set xs. k x \<noteq> i}"
  shows "distinct_by f (map (\<lambda>x. if k x = i then row else x) xs)"
  using assms
proof (induction xs)
  case Nil
  then show ?case by simp
next
  case (Cons x xs)
  show ?case
  proof (cases "k x = i")
    case True
    with Cons.prems(2) have "i \<notin> k ` set xs" by auto
    then have "k y \<noteq> i" if "y \<in> set xs" for y using that by blast
    with Cons.prems True show ?thesis by (auto cong: map_cong)
  next
    case False
    then have "f x \<in> f ` {y \<in> set (x # xs). k y \<noteq> i}" by simp
    with Cons.prems(4) have "f row \<noteq> f x" by metis
    moreover have "f row \<notin> f ` {y \<in> set xs. k y \<noteq> i}" using Cons.prems(4) by auto
    ultimately have "distinct_by f (map (\<lambda>x. if k x = i then row else x) xs)"
      using Cons.IH Cons.prems(1-3) by simp
    moreover have "\<forall>y \<in> set (map (\<lambda>x. if k x = i then row else x) xs). f y \<noteq> f x"
      using Cons.prems(1) \<open>f row \<noteq> f x\<close> by (auto simp: image_iff)
    then have "f x \<notin> f ` set (map (\<lambda>x. if k x = i then row else x) xs)" by fastforce
    then have "f x \<notin> set (map f (map (\<lambda>x. if k x = i then row else x) xs))"
      by (simp only: set_map not_False_eq_True)
    ultimately show ?thesis using False
      by (simp only: if_False list.map distinct.simps simp_thms)
  qed
qed

lemma thresholds_inv_replace:
  assumes "thresholds_inv w" "first_violation (threshold_checks row) = None"
    "threshold_key row \<notin> threshold_key ` {u \<in> set (w_thresholds w). th_ThresholdID u \<noteq> tid}"
    "th_DeviceID row \<in> alert_device_ids w" "th_ThresholdID row = tid"
  shows "thresholds_inv (w\<lparr>w_tick := n, w_thresholds :=
    map (\<lambda>u. if th_ThresholdID u = tid then row else u) (w_thresholds w)\<rparr>)"
proof -
  from assms(1) have d: "distinct_by th_ThresholdID (w_thresholds w)"
    "distinct_by threshold_key (w_thresholds w)" by (simp_all add: thresholds_inv_def)
  have "distinct_by threshold_key (map (\<lambda>u. if th_ThresholdID u = tid then row else u) (w_thresholds w))"
    by (rule distinct_by_replace [OF d(2,1) assms(5,3)])
  moreover have "map th_ThresholdID (map (\<lambda>u. if th_ThresholdID u = tid then row else u) (w_thresholds w)) =
      map th_ThresholdID (w_thresholds w)"
    using assms(5) by auto
  ultimately show ?thesis
    using assms(1,2,4) d(1) unfolding thresholds_inv_def alert_device_ids_def
    by (auto simp del: map_map)
qed

lemma UpdateThreshold_db_inv [inv_intros]:
  assumes "UpdateThreshold_db E tid us w = (r, w')" "thresholds_inv w"
  shows "thresholds_inv w'"
proof (cases r)
  case None
  let ?w = "w\<lparr>w_tick := Suc (w_tick w)\<rparr>"
  have inv: "thresholds_inv ?w" using assms(2) thresholds_inv_same same_data_tick(1) by blast
  show ?thesis
  proof (cases "us = []")
    case True
    with assms show ?thesis by (simp add: UpdateThreshold_db_def)
  next
    case False
    with assms(1) None have "sql_update_threshold E tid us ?w = (None, w')"
      by (auto simp: UpdateThreshold_db_def ext_fault_def split: option.splits)
    then show ?thesis
    proof (cases rule: sql_update_threshold_ok)
      case no_row
      with inv show ?thesis using thresholds_inv_same by blast
    next
      case (row t row now)
      show ?thesis unfolding row(8)
        by (rule thresholds_inv_replace) (use inv row in simp_all)
    qed
  qed
next
  case (Some e)
  with assms show ?thesis using UpdateThreshold_db_err thresholds_inv_same by blast
qed

lemma DeleteThreshold_db_inv [inv_intros]:
  "DeleteThreshold_db E tid w = (r, w') \<Longrightarrow> thresholds_inv w \<Longrightarrow> thresholds_inv w'"
  by (auto simp: DeleteThreshold_db_def ext_fault_def thresholds_inv_def alert_device_ids_def
      distinct_by_filter split: option.splits if_splits)

lemma DeleteThreshold_db_ok:
  "DeleteThreshold_db E tid w = (None, w') \<Longrightarrow>
   w_thresholds w' = filter (\<lambda>t. th_ThresholdID t \<noteq> tid) (w_thresholds w)"
  by (auto simp: DeleteThreshold_db_def ext_fault_def split: option.splits if_splits)

section \<open>Alerts and silences: effects and invariants\<close>

lemma InsertAlert_ok:
  assumes "InsertAlert E a w = (None, w')"
  obtains now n where "w' = w\<lparr>w_tick := n, w_alerts := w_alerts w @ [(a, now)]\<rparr>"
    "first_violation (alert_checks a) = None"
    "(al_AlertID a, now) \<notin> (\<lambda>(b, t). (al_AlertID b, t)) ` set (w_alerts w)"
    "al_DeviceID a \<in> alert_device_ids w"
proof
  show "w' = w\<lparr>w_tick := Suc (Suc (w_tick w)),
      w_alerts := w_alerts w @ [(a, e_clock E (Suc (w_tick w)))]\<rparr>"
    "first_violation (alert_checks a) = None"
    "(al_AlertID a, e_clock E (Suc (w_tick w))) \<notin> (\<lambda>(b, t). (al_AlertID b, t)) ` set (w_alerts w)"
    "al_DeviceID a \<in> alert_device_ids w"
    using assms by (auto simp: InsertAlert_def ext_fault_def time_now_def Let_def alert_device_ids_def
        split: option.splits if_splits)
qed

lemma InsertAlert_err: "InsertAlert E a w = (Some e, w') \<Longrightarrow> same_data w' w"
  by (auto simp: InsertAlert_def ext_fault_def time_now_def Let_def split: option.splits if_splits)

lemma InsertAlert_frame [frame]:
  assumes "InsertAlert E a w = (r, w')"
  shows "same_data (w'\<lparr>w_alerts := w_alerts w\<rparr>) w"
proof (cases r)
  case None
  with assms show ?thesis by (auto elim!: InsertAlert_ok simp: same_data_def)
next
  case (Some e)
  with assms have "same_data w' w" using InsertAlert_err by blast
  then show ?thesis by (rule same_data_restore)
qed

interpretation adb: alert_log "InsertAlert E" "\<lambda>w. map fst (w_alerts w)"
  for E :: "'r env"
proof
  fix a and s s' :: "'r world"
  assume "InsertAlert E a s = (None, s')"
  then show "map fst (w_alerts s') = map fst (w_alerts s) @ [a]" by (rule InsertAlert_ok) simp
next
  fix a and s s' :: "'r world" and e
  assume "InsertAlert E a s = (Some e, s')"
  then show "map fst (w_alerts s') = map fst (w_alerts s)"
    using InsertAlert_err same_dataD(5) by metis
qed

lemma InsertAlert_inv [inv_intros]:
  assumes "InsertAlert E a w = (r, w')" "alerts_inv w"
  shows "alerts_inv w'"
proof (cases r)
  case None
  with assms show ?thesis
    by (auto elim!: InsertAlert_ok simp: alerts_inv_def alert_device_ids_def)
next
  case (Some e)
  with assms show ?thesis using InsertAlert_err alerts_inv_same by blast
qed

lemma ResolveAlert_inv [inv_intros]:
  assumes "ResolveAlert E i w = (r, w')" "alerts_inv w"
  shows "alerts_inv w'"
proof -
  let ?f = "resolve_row i"
  have key: "(\<lambda>(b, t). (al_AlertID b, t)) (?f now x) = (\<lambda>(b, t). (al_AlertID b, t)) x" for now x
    by (simp add: resolve_row_def split_beta)
  have checks: "alert_checks (fst (?f now x)) = alert_checks (fst x)"
    "al_DeviceID (fst (?f now x)) = al_DeviceID (fst x)" for now x
    by (simp_all add: resolve_row_def alert_checks_def)
  consider "same_data w' w" | now n where "w' = w\<lparr>w_tick := n, w_alerts := map (?f now) (w_alerts w)\<rparr>"
    using assms(1)
    by (auto simp: ResolveAlert_def ext_fault_def time_now_def Let_def split: option.splits if_splits)
  then show ?thesis
  proof cases
    case 1
    with assms(2) show ?thesis using alerts_inv_same by blast
  next
    case (2 now n)
    have "distinct_by (\<lambda>(b, t). (al_AlertID b, t)) (map (?f now) (w_alerts w))"
      by (rule distinct_by_map [where f = "\<lambda>(b, t). (al_AlertID b, t)" and g = "?f now", OF _ key])
        (use assms(2) in \<open>simp add: alerts_inv_def\<close>)
    moreover have "\<forall>x \<in> set (map (?f now) (w_alerts w)).
        first_violation (alert_checks (fst x)) = None \<and> al_DeviceID (fst x) \<in> alert_device_ids w"
      using assms(2) by (simp add: alerts_inv_def alert_device_ids_def checks split_beta)
    ultimately show ?thesis unfolding 2 alerts_inv_def
      by (simp add: alert_device_ids_def split_beta)
  qed
qed

lemma GetActiveAlerts_db_same_data [frame]:
  "GetActiveAlerts_db E d s n off w = (r, w') \<Longrightarrow> same_data w' w"
  by (auto simp: GetActiveAlerts_db_def ext_fault_def Let_def split: option.splits if_splits sum.splits)

lemma QueryAlertHistory_db_same_data [frame]:
  "QueryAlertHistory_db E d m a b n w = (r, w') \<Longrightarrow> same_data w' w"
  by (auto simp: QueryAlertHistory_db_def ext_fault_def split: option.splits if_splits)

lemma GetActiveSilences_same_data [frame]: "GetActiveSilences E d w = (r, w') \<Longrightarrow> same_data w' w"
  by (auto simp: GetActiveSilences_def ext_fault_def time_now_def Let_def
      split: option.splits if_splits)

lemma GetAlertStats_db_same_data [frame]: "GetAlertStats_db E d a b w = (r, w') \<Longrightarrow> same_data w' w"
  by (auto simp: GetAlertStats_db_def ext_fault_def Let_def split: option.splits if_splits)

lemma GetActiveAlerts_db_Inr:
  assumes "GetActiveAlerts_db E d s n off w = (Inr (as, cnt), w')"
  shows "0 \<le> n" "0 \<le> off"
    "as = window (nat off) (nat n)
       (sort_desc al_TriggeredAt (filter (active_alert d s) (map fst (w_alerts w))))"
    "cnt = of_nat (length (filter (active_alert d s) (map fst (w_alerts w))))"
  using assms
  by (auto simp: GetActiveAlerts_db_def ext_fault_def sql_paging_def Let_def
      split: option.splits if_splits sum.splits)

section \<open>Silence rules: effects and invariant\<close>

lemma sql_insert_silence_ok:
  "sql_insert_silence E s w = (None, w') \<Longrightarrow>
   w' = w\<lparr>w_silences := w_silences w @ [s]\<rparr> \<and> first_violation (silence_checks s) = None \<and>
   (\<forall>s' \<in> set (w_silences w). \<not> silence_conflict s s') \<and> sl_DeviceID s \<in> alert_device_ids w"
  by (auto simp: sql_insert_silence_def list_ex_iff split: option.splits if_splits)

lemma sql_insert_silence_err: "sql_insert_silence E s w = (Some e, w') \<Longrightarrow> w' = w"
  by (auto simp: sql_insert_silence_def split: option.splits if_splits)

definition silence_row :: "'r env \<Rightarrow> string \<Rightarrow> string \<Rightarrow> int \<Rightarrow> string \<Rightarrow> nat \<Rightarrow> silence_rule" where
  "silence_row E d m secs reason n =
     \<lparr>sl_SilenceID = ''sil_'' @ format_int (sint (unix_nano (e_clock E n))), sl_DeviceID = d,
      sl_MetricName = (if m \<noteq> '''' then Some m else None),
      sl_SilencedUntil = time_add (e_clock E (Suc n)) (duration_of_seconds secs), sl_Reason = reason\<rparr>"

lemma SilenceDevice_ok:
  assumes "SilenceDevice E d m secs reason w = ((sid, None), w')"
  shows "sid = sl_SilenceID (silence_row E d m secs reason (w_tick w))"
    "w' = w\<lparr>w_tick := w_tick w + 3,
       w_silences := w_silences w @ [silence_row E d m secs reason (w_tick w)]\<rparr>"
    "first_violation (silence_checks (silence_row E d m secs reason (w_tick w))) = None"
    "\<forall>s' \<in> set (w_silences w). \<not> silence_conflict (silence_row E d m secs reason (w_tick w)) s'"
    "d \<in> alert_device_ids w"
proof -
  let ?row = "silence_row E d m secs reason (w_tick w)"
  let ?w = "w\<lparr>w_tick := w_tick w + 3\<rparr>"
  from assms have sid: "sid = sl_SilenceID ?row" and ins: "sql_insert_silence E ?row ?w = (None, w')"
    by (auto simp: SilenceDevice_def silence_row_def time_now_def ext_fault_def Let_def
        numeral_3_eq_3 split: option.splits prod.splits)
  from sid show "sid = sl_SilenceID ?row" .
  from sql_insert_silence_ok [OF ins]
  show "w' = w\<lparr>w_tick := w_tick w + 3, w_silences := w_silences w @ [?row]\<rparr>"
    "first_violation (silence_checks ?row) = None"
    "\<forall>s' \<in> set (w_silences w). \<not> silence_conflict ?row s'" "d \<in> alert_device_ids w"
    by (auto simp: silence_row_def alert_device_ids_def)
qed

lemma SilenceDevice_err: "SilenceDevice E d m secs reason w = ((sid, Some e), w') \<Longrightarrow> same_data w' w"
  by (auto simp: SilenceDevice_def time_now_def ext_fault_def Let_def
      split: option.splits prod.splits dest!: sql_insert_silence_err)

lemma SilenceDevice_inv [inv_intros]:
  assumes "SilenceDevice E d m secs reason w = (r, w')" "silences_inv w"
  shows "silences_inv w'"
proof (cases "snd r")
  case None
  with assms(1) have ok: "SilenceDevice E d m secs reason w = ((fst r, None), w')" by (cases r) simp
  have "sl_DeviceID (silence_row E d m secs reason (w_tick w)) = d" by (simp add: silence_row_def)
  then show ?thesis
    using SilenceDevice_ok(2-5) [OF ok] assms(2)
    by (auto simp: silences_inv_def sorted_wrt_append alert_device_ids_def)
next
  case (Some e)
  with assms(1) have "SilenceDevice E d m secs reason w = ((fst r, Some e), w')" by (cases r) simp
  with assms(2) show ?thesis using SilenceDevice_err silences_inv_same by blast
qed

lemma sorted_wrt_filter_any: "sorted_wrt R xs \<Longrightarrow> sorted_wrt R (filter P xs)"
  by (induction xs) auto

lemma ClearSilences_inv [inv_intros]:
  "ClearSilences E d w = (r, w') \<Longrightarrow> silences_inv w \<Longrightarrow> silences_inv w'"
  by (auto simp: ClearSilences_def ext_fault_def silences_inv_def alert_device_ids_def
      sorted_wrt_filter_any split: option.splits if_splits)

lemma ClearSilences_ok:
  "ClearSilences E d w = (None, w') \<Longrightarrow>
   w_silences w' = filter (\<lambda>s. sl_DeviceID s \<noteq> d) (w_silences w)"
  by (auto simp: ClearSilences_def ext_fault_def split: option.splits if_splits)

lemma GetActiveSilences_Inr:
  "GetActiveSilences E d w = (Inr ss, w') \<Longrightarrow>
   ss = filter (\<lambda>s. sl_DeviceID s = d \<and> e_clock E (Suc (w_tick w)) < sl_SilencedUntil s) (w_silences w)"
  by (auto simp: GetActiveSilences_def ext_fault_def time_now_def Let_def
      split: option.splits if_splits)

text \<open>A second rule for the same device and metric is refused while the first is in the table.\<close>

lemma SilenceDevice_unique:
  assumes "s \<in> set (w_silences w)" "sl_DeviceID s = d" "sl_MetricName s = Some m" "m \<noteq> []"
  shows "\<exists>sid e w'. SilenceDevice E d m secs reason w = ((sid, Some e), w')"
proof (cases "SilenceDevice E d m secs reason w")
  case (Pair r w')
  have "silence_conflict (silence_row E d m secs reason (w_tick w)) s"
    using assms by (simp add: silence_conflict_def silence_row_def)
  with Pair assms(1) show ?thesis by (cases r; cases "snd r") (auto dest: SilenceDevice_ok(4))
qed

section \<open>Statistics\<close>

text \<open>The groups partition the alerts of the window.\<close>

lemma sum_list_group:
  "distinct ss \<Longrightarrow> k ` set xs \<subseteq> set ss \<Longrightarrow>
   sum_list (map (\<lambda>s. length (filter (\<lambda>x. k x = s) xs)) ss) = length xs"
proof (induction xs)
  case Nil
  then show ?case by (induction ss) auto
next
  case (Cons x xs)
  have one: "sum_list (map (\<lambda>s. if k x = s then 1 else 0) ss) = (1::nat)"
    if "distinct ss" "k x \<in> set ss" for ss
    using that
  proof (induction ss)
    case (Cons s ss)
    have "sum_list (map (\<lambda>s. if k x = s then 1 else 0) ts) = (0::nat)" if "k x \<notin> set ts" for ts
      using that by (induction ts) auto
    with Cons show ?case by auto
  qed simp
  have "sum_list (map (\<lambda>s. length (filter (\<lambda>x. k x = s) (x # xs))) ss) =
      sum_list (map (\<lambda>s. (if k x = s then 1 else 0) + length (filter (\<lambda>x. k x = s) xs)) ss)"
    by (rule arg_cong [where f = sum_list]) (simp add: map_eq_conv)
  also have "\<dots> = 1 + length xs"
    using Cons one by (simp add: sum_list_addf)
  finally show ?case by simp
qed

lemma of_nat_sum_list: "of_nat (sum_list xs) = sum_list (map of_nat xs)"
  by (induction xs) auto

lemma group_by_severity_total:
  "sum_list (map snd (group_by_severity rs)) = of_nat (length rs)"
proof -
  have "(of_nat (sum_list (map (\<lambda>s. length (filter (\<lambda>a. al_Severity a = s) rs))
      (remdups (map al_Severity rs)))) :: i64) = sum_list (map snd (group_by_severity rs))"
    by (simp add: group_by_severity_def comp_def of_nat_sum_list)
  moreover have "sum_list (map (\<lambda>s. length (filter (\<lambda>a. al_Severity a = s) rs))
      (remdups (map al_Severity rs))) = length rs"
    by (rule sum_list_group) auto
  ultimately show ?thesis by metis
qed

end
