(* ===== verification/MqttClient.thy ===== *)
theory MqttClient
  imports Environment
begin

text \<open>
  The MQTT client as the sources use it (\<open>github.com/eclipse/paho.mqtt.golang\<close>, outside the
  repository): its options, whether it is connected and what it has subscribed to. The outcome
  of \<open>Connect\<close> and \<open>Wait\<close> is the parameter \<open>broker\<close>, \<open>None\<close> where the token never completes.
\<close>

record mqtt_options =
  mo_Broker :: string
  mo_ClientID :: string
  mo_Username :: string
  mo_Password :: string
  mo_AutoReconnect :: bool
  mo_ConnectRetry :: bool
  mo_MaxReconnectInterval :: i64

record mqtt_client =
  mc_options :: mqtt_options
  mc_connected :: bool
  mc_subscriptions :: "(string \<times> 8 word) list"

type_synonym broker = "mqtt_options \<Rightarrow> go_error option option"

definition NewClient :: "mqtt_options \<Rightarrow> mqtt_client" where
  "NewClient opts = \<lparr>mc_options = opts, mc_connected = False, mc_subscriptions = []\<rparr>"

definition mqtt_connect :: "broker \<Rightarrow> mqtt_client \<Rightarrow> (go_error option \<times> mqtt_client) option" where
  "mqtt_connect B c = map_option (\<lambda>r. (r, c\<lparr>mc_connected := r = None\<rparr>)) (B (mc_options c))"

text \<open>\<open>Subscribe\<close> and \<open>Wait\<close> with the outcome \<open>r\<close>.\<close>

definition mqtt_subscribe :: "go_error option \<Rightarrow> string \<Rightarrow> 8 word \<Rightarrow> mqtt_client \<Rightarrow> mqtt_client" where
  "mqtt_subscribe r topic qos c =
     (if r = None then c\<lparr>mc_subscriptions := mc_subscriptions c @ [(topic, qos)]\<rparr> else c)"

text \<open>\<open>Disconnect\<close>, which ends the session with its subscriptions.\<close>

definition mqtt_disconnect :: "mqtt_client \<Rightarrow> mqtt_client" where
  "mqtt_disconnect c = c\<lparr>mc_connected := False, mc_subscriptions := []\<rparr>"

text \<open>
  What the client's documentation says of \<open>SetConnectRetry(true)\<close>: the token of \<open>Connect\<close> does
  not complete until the connection is up. \<open>up\<close> are the addresses of brokers that answer.
\<close>

definition connect_retry_law :: "(string \<Rightarrow> bool) \<Rightarrow> broker \<Rightarrow> bool" where
  "connect_retry_law up B \<longleftrightarrow>
     (\<forall>opts. mo_ConnectRetry opts \<longrightarrow> B opts = (if up (mo_Broker opts) then Some None else None))"

lemma connect_retry_lawD:
  "connect_retry_law up B \<Longrightarrow> mo_ConnectRetry (mc_options c) \<Longrightarrow>
   mqtt_connect B c = (if up (mo_Broker (mc_options c)) then Some (None, c\<lparr>mc_connected := True\<rparr>) else None)"
  by (simp add: connect_retry_law_def mqtt_connect_def)

lemma NewClient_simps [simp]:
  "mc_options (NewClient opts) = opts" "\<not> mc_connected (NewClient opts)" "mc_subscriptions (NewClient opts) = []"
  by (simp_all add: NewClient_def)

lemma mqtt_connect_Some:
  "mqtt_connect B c = Some (r, c') \<Longrightarrow>
   B (mc_options c) = Some r \<and> c' = c\<lparr>mc_connected := r = None\<rparr>"
  by (auto simp: mqtt_connect_def)

end
