(* ===== verification/AlertPublisher.thy ===== *)
theory AlertPublisher
  imports MqttClient
begin

text \<open>
  \<open>internal/mqtt/alert_publisher.go\<close>. The broker is outside the repository: a publication that
  the broker acknowledges is appended to \<open>w_published\<close>, one that fails (a fault of the
  environment) is not. \<open>pub\<close> says whether the publisher and its client are there (not \<open>nil\<close>).
\<close>

text \<open>\<open>encoding/json\<close> refuses NaN, the infinities and years outside 0 to 9999.\<close>

definition json_float_ok :: "float64 \<Rightarrow> bool" where
  "json_float_ok x \<longleftrightarrow> \<not> f_is_nan x \<and> \<not> f_is_inf x"

definition json_time_ok :: "gotime \<Rightarrow> bool" where
  "json_time_ok t \<longleftrightarrow> - 31622400 \<le> sint (tsec t) \<and> sint (tsec t) < 315537897600"

definition json_alert :: "alert_mqtt_message \<Rightarrow> go_error option" where
  "json_alert m =
     (if \<not> json_float_ok (am_MetricValue m)
      then Some (ErrText (''json: unsupported value: '' @ fmt_f 6 (am_MetricValue m)))
      else if \<not> json_time_ok (am_TriggeredAt m)
      then Some (ErrText ''json: error calling MarshalJSON for type time.Time'')
      else None)"

definition publisher_options :: "string \<Rightarrow> string \<Rightarrow> mqtt_options" where
  "publisher_options brokerURL clientID =
     \<lparr>mo_Broker = brokerURL,
      mo_ClientID = (if clientID = [] then ''fieldpulse-alert-publisher'' else clientID) @ ''-pub'',
      mo_Username = [], mo_Password = [], mo_AutoReconnect = True, mo_ConnectRetry = True,
      mo_MaxReconnectInterval = 0\<rparr>"

text \<open>\<open>None\<close> where the connection never comes up.\<close>

definition NewAlertPublisher :: "broker \<Rightarrow> string \<Rightarrow> string \<Rightarrow> (go_error + mqtt_client) option" where
  "NewAlertPublisher B brokerURL clientID =
     (if brokerURL = [] then Some (Inl (ErrText ''mqtt broker URL required''))
      else
        (case mqtt_connect B (NewClient (publisher_options brokerURL clientID)) of
           None \<Rightarrow> None
         | Some (Some e, c) \<Rightarrow> Some (Inl (ErrWrap ''mqtt alert publisher connect'' e))
         | Some (None, c) \<Rightarrow> Some (Inr c)))"

definition publisher_Disconnect :: "mqtt_client option \<Rightarrow> mqtt_client option" where
  "publisher_Disconnect p =
     (case p of
        Some c \<Rightarrow> Some (if mc_connected c then mqtt_disconnect c else c)
      | None \<Rightarrow> None)"

definition mqtt_publish ::
    "'r env \<Rightarrow> string \<Rightarrow> mqtt_payload \<Rightarrow> 'r world \<Rightarrow> go_error option \<times> 'r world" where
  "mqtt_publish E topic body w =
     (case ext_fault E w of
        (Some e, w1) \<Rightarrow> (Some e, w1)
      | (None, w1) \<Rightarrow> (None, w1\<lparr>w_published := w_published w1 @ [(topic, body)]\<rparr>))"

definition PublishAlert ::
    "'r env \<Rightarrow> bool \<Rightarrow> string \<Rightarrow> alert_mqtt_message \<Rightarrow> 'r world \<Rightarrow> go_error option \<times> 'r world" where
  "PublishAlert E pub deviceID msg w =
     (if \<not> pub then (None, w)
      else
        (let topic = ''alerts/'' @ deviceID in
         case json_alert msg of
           Some e \<Rightarrow> (Some e, w)
         | None \<Rightarrow> mqtt_publish E topic (AlertPayload msg) w))"

definition PublishRaw ::
    "'r env \<Rightarrow> bool \<Rightarrow> string \<Rightarrow> mqtt_payload \<Rightarrow> 'r world \<Rightarrow> go_error option \<times> 'r world" where
  "PublishRaw E pub topic payload w = (if \<not> pub then (None, w) else mqtt_publish E topic payload w)"

text \<open>Only the list of publications changes, and only at its end.\<close>

lemma mqtt_publish_frame [frame]:
  "mqtt_publish E t b w = (r, w') \<Longrightarrow>
   same_data (w'\<lparr>w_published := w_published w\<rparr>) w \<and>
   w_published w' = w_published w @ (if r = None then [(t, b)] else [])"
  by (auto simp: mqtt_publish_def ext_fault_def same_data_def split: option.splits)

lemma PublishAlert_frame [frame]:
  "PublishAlert E pub d m w = (r, w') \<Longrightarrow>
   same_data (w'\<lparr>w_published := w_published w\<rparr>) w \<and>
   (\<exists>ms. w_published w' = w_published w @ ms \<and> set ms \<subseteq> {(''alerts/'' @ d, AlertPayload m)})"
  by (auto simp: PublishAlert_def Let_def same_data_def split: option.splits if_splits
      dest!: mqtt_publish_frame)

end
