(* ===== verification/AlertEvaluator.thy ===== *)
theory AlertEvaluator
  imports AlertDB AlertPublisher RedisLaws
begin

text \<open>
  \<open>internal/services/alert_evaluator.go\<close>: the evaluation of a metric against the thresholds of
  its device. Its state is the map of last values; the tables, Redis and the publications are
  in the world. \<open>EvaluateAsync\<close> starts a goroutine: the evaluation is entered in \<open>w_tasks\<close> and
  any entry may run next.
\<close>

section \<open>State and helpers\<close>

record evaluator =
  ev_mqttPub :: bool
  ev_lastValues :: "string \<Rightarrow> float64 option"

definition NewAlertEvaluator :: "bool \<Rightarrow> evaluator" where
  "NewAlertEvaluator mqttPub = \<lparr>ev_mqttPub = mqttPub, ev_lastValues = (\<lambda>_. None)\<rparr>"

definition alertSilenceRedisTTL :: int where
  "alertSilenceRedisTTL = minutes 5"

definition alert_key :: "string \<Rightarrow> string" where
  "alert_key deviceID = ''alert:'' @ deviceID"

definition getLastValue :: "evaluator \<Rightarrow> string \<Rightarrow> float64 option" where
  "getLastValue ev key = ev_lastValues ev key"

definition setLastValue :: "evaluator \<Rightarrow> string \<Rightarrow> float64 \<Rightarrow> evaluator" where
  "setLastValue ev key value = ev\<lparr>ev_lastValues := (ev_lastValues ev)(key := Some value)\<rparr>"

definition checkSilenced :: "string \<Rightarrow> silence_rule list \<Rightarrow> bool" where
  "checkSilenced metricName silences =
     list_ex (\<lambda>s. sl_MetricName s = None \<or> sl_MetricName s = Some metricName) silences"

definition redisAlertSuppressed :: "'r env \<Rightarrow> string \<Rightarrow> 'r world \<Rightarrow> bool \<times> 'r world" where
  "redisAlertSuppressed E deviceID w =
     (case e_redis E of
        None \<Rightarrow> (False, w)
      | Some R \<Rightarrow>
          (case redis_do (r_get R (alert_key deviceID)) w of
             (Inl e, w1) \<Rightarrow> (False, w1)
           | (Inr _, w1) \<Rightarrow> (True, w1)))"

definition alert_message :: "alert \<Rightarrow> alert_mqtt_message" where
  "alert_message a =
     \<lparr>am_AlertID = al_AlertID a, am_DeviceID = al_DeviceID a, am_MetricName = al_MetricName a,
      am_Message = al_Message a, am_Severity = al_Severity a, am_MetricValue = al_MetricValue a,
      am_TriggeredAt = al_TriggeredAt a\<rparr>"

definition publishAlertMQTT ::
    "'r env \<Rightarrow> evaluator \<Rightarrow> string \<Rightarrow> alert \<Rightarrow> 'r world \<Rightarrow> 'r world" where
  "publishAlertMQTT E ev deviceID a w =
     (if \<not> ev_mqttPub ev then w
      else snd (PublishAlert E True deviceID (alert_message a) w))"

section \<open>One threshold\<close>

definition percent_change :: "float64 \<Rightarrow> float64 \<Rightarrow> float64" where
  "percent_change value lastVal = f_mul (f_div (f_sub value lastVal) lastVal) (Fin 100)"

text \<open>
  The \<open>switch t.Type\<close>: the message if the threshold is triggered, and the evaluator with the
  last value set by the case CHANGE.
\<close>

definition check_threshold ::
    "evaluator \<Rightarrow> string \<Rightarrow> string \<Rightarrow> float64 \<Rightarrow> threshold \<Rightarrow> string option \<times> evaluator" where
  "check_threshold ev key metricName value t =
     (if th_Type t = ''HIGH'' then
        (if f_gt value (th_UpperBound t)
         then Some (metricName @ '' exceeded '' @ fmt_f 2 (th_UpperBound t) @ '' (value: '' @
                    fmt_f 2 value @ '')'')
         else None, ev)
      else if th_Type t = ''LOW'' then
        (if f_lt value (th_LowerBound t)
         then Some (metricName @ '' dropped below '' @ fmt_f 2 (th_LowerBound t) @ '' (value: '' @
                    fmt_f 2 value @ '')'')
         else None, ev)
      else if th_Type t = ''RANGE'' then
        (if f_lt value (th_LowerBound t) \<or> f_gt value (th_UpperBound t)
         then Some (metricName @ '' out of range ['' @ fmt_f 2 (th_LowerBound t) @ '', '' @
                    fmt_f 2 (th_UpperBound t) @ '']'')
         else None, ev)
      else if th_Type t = ''CHANGE'' then
        (case getLastValue ev key of
           None \<Rightarrow> None
         | Some lastVal \<Rightarrow>
             if \<not> f_eq lastVal f_zero then
               (let p = percent_change value lastVal in
                if f_gt p (th_ChangePercent t) \<or> f_lt p (f_neg (th_ChangePercent t))
                then Some (metricName @ '' changed '' @ fmt_f 1 p @ ''% (from '' @ fmt_f 2 lastVal @
                           '' to '' @ fmt_f 2 value @ '')'')
                else None)
             else None,
         setLastValue ev key value)
      else (None, ev))"

definition threshold_value :: "threshold \<Rightarrow> float64" where
  "threshold_value t = (if f_eq (th_UpperBound t) f_zero then th_LowerBound t else th_UpperBound t)"

text \<open>The alert built for a triggered threshold; \<open>n\<close> is the number of the clock reading.\<close>

definition new_alert ::
    "'r env \<Rightarrow> string \<Rightarrow> string \<Rightarrow> float64 \<Rightarrow> bool \<Rightarrow> threshold \<Rightarrow> string \<Rightarrow> nat \<Rightarrow> alert" where
  "new_alert E deviceID metricName value isDBSilenced t message n =
     \<lparr>al_AlertID = ''alr_'' @ format_int (sint (unix_nano (e_clock E n))) @ ''_'' @ deviceID,
      al_DeviceID = deviceID, al_MetricName = metricName, al_MetricValue = value,
      al_ThresholdType = th_Type t, al_ThresholdValue = threshold_value t,
      al_Severity = th_Severity t, al_Message = message, al_IsSilenced = isDBSilenced,
      al_TriggeredAt = e_clock E (Suc n), al_ResolvedAt = None\<rparr>"

text \<open>The body of the loop over the thresholds.\<close>

definition evaluate_threshold ::
    "'r env \<Rightarrow> string \<Rightarrow> string \<Rightarrow> float64 \<Rightarrow> bool \<Rightarrow> threshold \<Rightarrow> evaluator \<times> 'r world \<Rightarrow>
     evaluator \<times> 'r world" where
  "evaluate_threshold E deviceID metricName value isDBSilenced t s =
     (case s of (ev, w) \<Rightarrow>
        (case check_threshold ev (deviceID @ '':'' @ metricName) metricName value t of
           (None, ev1) \<Rightarrow> (ev1, w)
         | (Some message, ev1) \<Rightarrow>
             (let a = new_alert E deviceID metricName value isDBSilenced t message (w_tick w);
                  w2 = w\<lparr>w_tick := w_tick w + 2\<rparr> in
              if isDBSilenced then (ev1, snd (InsertAlert E a w2))
              else
                (case redisAlertSuppressed E deviceID w2 of
                   (True, w3) \<Rightarrow> (ev1, w3)
                 | (False, w3) \<Rightarrow>
                     (case InsertAlert E a w3 of
                        (Some e, w4) \<Rightarrow> (ev1, w4)
                      | (None, w4) \<Rightarrow>
                          (let w5 = publishAlertMQTT E ev1 deviceID a w4 in
                           case e_redis E of
                             None \<Rightarrow> (ev1, w5)
                           | Some R \<Rightarrow>
                               (ev1, snd (redis_do (r_set R (alert_key deviceID) ''1''
                                            alertSilenceRedisTTL) w5))))))))"

section \<open>The evaluation of a metric\<close>

definition evaluate ::
    "'r env \<Rightarrow> string \<Rightarrow> string \<Rightarrow> float64 \<Rightarrow> evaluator \<times> 'r world \<Rightarrow> evaluator \<times> 'r world" where
  "evaluate E deviceID metricName value s =
     (case s of (ev, w) \<Rightarrow>
        (case GetThresholds_db E deviceID metricName True w of
           (Inl e, w1) \<Rightarrow> (ev, w1)
         | (Inr thresholds, w1) \<Rightarrow>
             if length thresholds = 0 then (ev, w1)
             else
               (case GetActiveSilences E deviceID w1 of
                  (r, w2) \<Rightarrow>
                    (let silences = (case r of Inl e \<Rightarrow> [] | Inr ss \<Rightarrow> ss);
                         isDBSilenced = checkSilenced metricName silences in
                     fold (evaluate_threshold E deviceID metricName value isDBSilenced)
                       thresholds (ev, w2)))))"

definition EvaluateAsync :: "string \<Rightarrow> string \<Rightarrow> float64 \<Rightarrow> 'r world \<Rightarrow> 'r world" where
  "EvaluateAsync deviceID metricName value w =
     w\<lparr>w_tasks := w_tasks w @ [(deviceID, metricName, value)]\<rparr>"

text \<open>One of the pending goroutines, the \<open>i\<close>-th, runs to its end.\<close>

definition run_evaluation ::
    "'r env \<Rightarrow> nat \<Rightarrow> evaluator \<times> 'r world \<Rightarrow> (evaluator \<times> 'r world) option" where
  "run_evaluation E i s =
     (case s of (ev, w) \<Rightarrow>
        if i < length (w_tasks w) then
          (case w_tasks w ! i of (d, m, v) \<Rightarrow>
             Some (evaluate E d m v
               (ev, w\<lparr>w_tasks := take i (w_tasks w) @ drop (Suc i) (w_tasks w)\<rparr>)))
        else None)"

section \<open>The device's status event\<close>

definition PublishSilentDeviceEvent ::
    "'r env \<Rightarrow> bool \<Rightarrow> string \<Rightarrow> 'r world \<Rightarrow> go_error option \<times> 'r world" where
  "PublishSilentDeviceEvent E pub deviceID w =
     (if \<not> pub then (None, w)
      else
        (let (now, w1) = time_now E w;
             p = \<lparr>ss_DeviceID = deviceID, ss_Status = ''silent'',
                  ss_Reason = ''no_telemetry_exceeds_threshold'', ss_Timestamp = now\<rparr> in
         if \<not> json_time_ok now
         then (Some (ErrText ''json: error calling MarshalJSON for type time.Time''), w1)
         else PublishRaw E pub (''devices/'' @ deviceID @ ''/status'') (SilentPayload p) w1))"

section \<open>When a threshold triggers\<close>

text \<open>The condition of the three types that look at the value alone.\<close>

definition violates :: "threshold \<Rightarrow> float64 \<Rightarrow> bool" where
  "violates t v \<longleftrightarrow>
     th_Type t = ''HIGH'' \<and> f_gt v (th_UpperBound t) \<or>
     th_Type t = ''LOW'' \<and> f_lt v (th_LowerBound t) \<or>
     th_Type t = ''RANGE'' \<and> (f_lt v (th_LowerBound t) \<or> f_gt v (th_UpperBound t))"

lemma check_threshold_static:
  assumes "th_Type t \<noteq> ''CHANGE''"
  shows "fst (check_threshold ev key m v t) \<noteq> None \<longleftrightarrow> violates t v"
    "snd (check_threshold ev key m v t) = ev"
  using assms by (auto simp: check_threshold_def violates_def)

lemma check_threshold_change:
  assumes "th_Type t = ''CHANGE''"
  shows "fst (check_threshold ev key m v t) \<noteq> None \<longleftrightarrow>
      (\<exists>l. ev_lastValues ev key = Some l \<and> \<not> f_eq l f_zero \<and>
         (f_gt (percent_change v l) (th_ChangePercent t) \<or>
          f_lt (percent_change v l) (f_neg (th_ChangePercent t))))"
    "snd (check_threshold ev key m v t) = setLastValue ev key v"
  using assms by (auto simp: check_threshold_def getLastValue_def Let_def split: option.splits)

section \<open>What an evaluation may do\<close>

text \<open>
  The contract of an evaluation: it appends alerts of the device, the metric and the value, each
  for a threshold of the set \<open>T\<close> that the value violates (or a CHANGE threshold), marked with
  the silence state; it publishes only alerts it has stored, and none where the device or
  metric is silenced; no other table changes.
\<close>

definition alert_for :: "string \<Rightarrow> string \<Rightarrow> float64 \<Rightarrow> bool \<Rightarrow> threshold \<Rightarrow> alert \<Rightarrow> bool" where
  "alert_for d m v sil t a \<longleftrightarrow>
     al_DeviceID a = d \<and> al_MetricName a = m \<and> al_MetricValue a = v \<and> al_IsSilenced a = sil \<and>
     al_ResolvedAt a = None \<and> al_ThresholdType a = th_Type t \<and> al_Severity a = th_Severity t \<and>
     al_ThresholdValue a = threshold_value t \<and> (th_Type t \<noteq> ''CHANGE'' \<longrightarrow> violates t v)"

definition other_than_alerts :: "'r world \<Rightarrow> device list \<times> device_certificate list \<times> metric_row list \<times>
    threshold list \<times> silence_rule list \<times> (string \<times> string \<times> float64) list" where
  "other_than_alerts w =
     (w_devices w, w_certs w, w_metrics w, w_thresholds w, w_silences w, w_tasks w)"

definition evaluation_effect ::
    "string \<Rightarrow> string \<Rightarrow> float64 \<Rightarrow> bool \<Rightarrow> threshold set \<Rightarrow> 'r world \<Rightarrow> 'r world \<Rightarrow> bool" where
  "evaluation_effect d m v sil T w w' \<longleftrightarrow>
     other_than_alerts w' = other_than_alerts w \<and>
     (\<exists>news pubs.
        map fst (w_alerts w') = map fst (w_alerts w) @ news \<and>
        w_published w' = w_published w @ pubs \<and>
        (\<forall>a \<in> set news. \<exists>t \<in> T. alert_for d m v sil t a) \<and>
        (\<forall>p \<in> set pubs. \<not> sil \<and> (\<exists>a \<in> set news. p = (''alerts/'' @ d, AlertPayload (alert_message a)))))"

lemma evaluation_effect_refl:
  assumes "other_than_alerts w' = other_than_alerts w" "map fst (w_alerts w') = map fst (w_alerts w)"
    "w_published w' = w_published w"
  shows "evaluation_effect d m v sil T w w'"
  using assms unfolding evaluation_effect_def by (intro conjI exI [of _ "[]"]) auto

lemma evaluation_effect_trans:
  assumes "evaluation_effect d m v sil T w w1" "evaluation_effect d m v sil T w1 w2"
  shows "evaluation_effect d m v sil T w w2"
proof -
  from assms obtain n1 p1 n2 p2 where
    "map fst (w_alerts w1) = map fst (w_alerts w) @ n1" "w_published w1 = w_published w @ p1"
    "map fst (w_alerts w2) = map fst (w_alerts w1) @ n2" "w_published w2 = w_published w1 @ p2"
    "\<forall>a \<in> set n1. \<exists>t \<in> T. alert_for d m v sil t a" "\<forall>a \<in> set n2. \<exists>t \<in> T. alert_for d m v sil t a"
    "\<forall>p \<in> set p1. \<not> sil \<and> (\<exists>a \<in> set n1. p = (''alerts/'' @ d, AlertPayload (alert_message a)))"
    "\<forall>p \<in> set p2. \<not> sil \<and> (\<exists>a \<in> set n2. p = (''alerts/'' @ d, AlertPayload (alert_message a)))"
    "other_than_alerts w2 = other_than_alerts w"
    unfolding evaluation_effect_def by auto
  then show ?thesis
    unfolding evaluation_effect_def
    by (intro conjI exI [of _ "n1 @ n2"] exI [of _ "p1 @ p2"]) (auto simp: ball_Un)
qed

text \<open>The pieces of the loop body.\<close>

lemma redisAlertSuppressed_db_part:
  "redisAlertSuppressed E d w = (b, w') \<Longrightarrow> db_part w' = db_part w"
  by (auto simp: redisAlertSuppressed_def split: option.splits sum.splits prod.splits
      dest: redis_do_db_part)

lemma db_part_effect:
  assumes "db_part w' = db_part w"
  shows "other_than_alerts w' = other_than_alerts w" "map fst (w_alerts w') = map fst (w_alerts w)"
    "w_published w' = w_published w"
  using db_partD [OF assms] by (simp_all add: other_than_alerts_def)

lemma same_data_effect:
  assumes "same_data w' w"
  shows "other_than_alerts w' = other_than_alerts w" "map fst (w_alerts w') = map fst (w_alerts w)"
    "w_published w' = w_published w"
  using same_dataD [OF assms] by (simp_all add: other_than_alerts_def)

lemma InsertAlert_effect:
  assumes "InsertAlert E a w = (r, w')"
  shows "other_than_alerts w' = other_than_alerts w" "w_published w' = w_published w"
    "map fst (w_alerts w') = map fst (w_alerts w) @ (if r = None then [a] else [])"
  using same_dataD [OF InsertAlert_frame [OF assms]] adb.log_step [OF assms]
  by (simp_all add: other_than_alerts_def)

lemma publishAlertMQTT_effect:
  "other_than_alerts (publishAlertMQTT E ev d a w) = other_than_alerts w"
  "w_alerts (publishAlertMQTT E ev d a w) = w_alerts w"
  "\<exists>ms. w_published (publishAlertMQTT E ev d a w) = w_published w @ ms \<and>
     set ms \<subseteq> {(''alerts/'' @ d, AlertPayload (alert_message a))}"
proof -
  obtain r w1 where p: "PublishAlert E True d (alert_message a) w = (r, w1)" by fastforce
  note f = PublishAlert_frame [OF p]
  show "other_than_alerts (publishAlertMQTT E ev d a w) = other_than_alerts w"
    "w_alerts (publishAlertMQTT E ev d a w) = w_alerts w"
    using same_dataD [OF conjunct1 [OF f]]
    by (simp_all add: publishAlertMQTT_def p other_than_alerts_def)
  show "\<exists>ms. w_published (publishAlertMQTT E ev d a w) = w_published w @ ms \<and>
     set ms \<subseteq> {(''alerts/'' @ d, AlertPayload (alert_message a))}"
    using conjunct2 [OF f] by (auto simp: publishAlertMQTT_def p)
qed

text \<open>The ways through the loop body.\<close>

lemma evaluate_threshold_cases:
  obtains (quiet) "fst (check_threshold ev (d @ '':'' @ m) m v t) = None"
      "evaluate_threshold E d m v sil t (ev, w) = (snd (check_threshold ev (d @ '':'' @ m) m v t), w)"
  | (silenced) msg where "fst (check_threshold ev (d @ '':'' @ m) m v t) = Some msg" "sil"
      "evaluate_threshold E d m v sil t (ev, w) = (snd (check_threshold ev (d @ '':'' @ m) m v t),
         snd (InsertAlert E (new_alert E d m v sil t msg (w_tick w)) (w\<lparr>w_tick := w_tick w + 2\<rparr>)))"
  | (suppressed) msg w3 where "fst (check_threshold ev (d @ '':'' @ m) m v t) = Some msg" "\<not> sil"
      "redisAlertSuppressed E d (w\<lparr>w_tick := w_tick w + 2\<rparr>) = (True, w3)"
      "evaluate_threshold E d m v sil t (ev, w) = (snd (check_threshold ev (d @ '':'' @ m) m v t), w3)"
  | (failed) msg w3 e w4 where "fst (check_threshold ev (d @ '':'' @ m) m v t) = Some msg" "\<not> sil"
      "redisAlertSuppressed E d (w\<lparr>w_tick := w_tick w + 2\<rparr>) = (False, w3)"
      "InsertAlert E (new_alert E d m v sil t msg (w_tick w)) w3 = (Some e, w4)"
      "evaluate_threshold E d m v sil t (ev, w) = (snd (check_threshold ev (d @ '':'' @ m) m v t), w4)"
  | (fired) msg w3 w4 w5 where "fst (check_threshold ev (d @ '':'' @ m) m v t) = Some msg" "\<not> sil"
      "redisAlertSuppressed E d (w\<lparr>w_tick := w_tick w + 2\<rparr>) = (False, w3)"
      "InsertAlert E (new_alert E d m v sil t msg (w_tick w)) w3 = (None, w4)"
      "w5 = publishAlertMQTT E (snd (check_threshold ev (d @ '':'' @ m) m v t)) d
         (new_alert E d m v sil t msg (w_tick w)) w4"
      "evaluate_threshold E d m v sil t (ev, w) = (snd (check_threshold ev (d @ '':'' @ m) m v t),
         case e_redis E of None \<Rightarrow> w5
         | Some R \<Rightarrow> snd (redis_do (r_set R (alert_key d) ''1'' alertSilenceRedisTTL) w5))"
proof -
  obtain c ev1 where c: "check_threshold ev (d @ '':'' @ m) m v t = (c, ev1)" by fastforce
  show thesis
  proof (cases c)
    case None
    with c show ?thesis by (intro quiet) (simp_all add: evaluate_threshold_def)
  next
    case (Some msg)
    let ?a = "new_alert E d m v sil t msg (w_tick w)" and ?w2 = "w\<lparr>w_tick := w_tick w + 2\<rparr>"
    show ?thesis
    proof (cases sil)
      case True
      with c Some show ?thesis by (intro silenced) (simp_all add: evaluate_threshold_def Let_def)
    next
      case False
      obtain b w3 where b: "redisAlertSuppressed E d ?w2 = (b, w3)" by fastforce
      show ?thesis
      proof (cases b)
        case True
        with c Some False b show ?thesis
          by (intro suppressed) (simp_all add: evaluate_threshold_def Let_def)
      next
        case nb: False
        obtain r w4 where r: "InsertAlert E ?a w3 = (r, w4)" by fastforce
        show ?thesis
        proof (cases r)
          case (Some e)
          with c \<open>c = Some msg\<close> False b nb r show ?thesis
            by (intro failed) (simp_all add: evaluate_threshold_def Let_def)
        next
          case None
          with c \<open>c = Some msg\<close> False b nb r show ?thesis
            by (intro fired [OF _ _ _ _ refl, of msg w3 w4])
              (auto simp: evaluate_threshold_def Let_def split: option.splits)
        qed
      qed
    qed
  qed
qed

lemma alert_for_new_alert:
  assumes "fst (check_threshold ev key m v t) = Some msg"
  shows "alert_for d m v sil t (new_alert E d m v sil t msg n)"
  using assms check_threshold_static(1) [of t ev key m v]
  by (auto simp: alert_for_def new_alert_def)

lemma evaluation_effect_insert:
  assumes "other_than_alerts w1 = other_than_alerts w" "map fst (w_alerts w1) = map fst (w_alerts w)"
    "w_published w1 = w_published w" "InsertAlert E a w1 = (r, w')" "alert_for d m v sil t a" "t \<in> T"
  shows "evaluation_effect d m v sil T w w'"
  using InsertAlert_effect [OF assms(4)] assms(1-3,5,6) unfolding evaluation_effect_def
  by (intro conjI exI [of _ "if r = None then [a] else []"] exI [of _ "[]"]) auto

lemma evaluate_threshold_effect:
  assumes "evaluate_threshold E d m v sil t (ev, w) = (ev', w')" "t \<in> T"
  shows "evaluation_effect d m v sil T w w'"
proof (cases rule: evaluate_threshold_cases [where ev = ev and E = E and d = d and m = m and v = v
      and sil = sil and t = t and w = w])
  case quiet
  with assms show ?thesis by (auto intro: evaluation_effect_refl)
next
  case (silenced msg)
  let ?a = "new_alert E d m v sil t msg (w_tick w)" and ?w2 = "w\<lparr>w_tick := w_tick w + 2\<rparr>"
  obtain r where "InsertAlert E ?a ?w2 = (r, w')"
    using silenced(3) assms(1) by (cases "InsertAlert E ?a ?w2") auto
  then show ?thesis
    by (rule evaluation_effect_insert [rotated 3])
      (use alert_for_new_alert [OF silenced(1)] assms(2) in \<open>auto simp: other_than_alerts_def\<close>)
next
  case (suppressed msg w3)
  from db_part_effect [OF redisAlertSuppressed_db_part [OF suppressed(3)]] suppressed(4) assms(1)
  show ?thesis by (intro evaluation_effect_refl) (auto simp: other_than_alerts_def)
next
  case (failed msg w3 e w4)
  from db_part_effect [OF redisAlertSuppressed_db_part [OF failed(3)]]
  have "evaluation_effect d m v sil T w w4"
    by (intro evaluation_effect_insert [OF _ _ _ failed(4) alert_for_new_alert [OF failed(1)] assms(2)])
      (auto simp: other_than_alerts_def)
  with failed(5) assms(1) show ?thesis by simp
next
  case (fired msg w3 w4 w5)
  let ?a = "new_alert E d m v sil t msg (w_tick w)"
  note pre = db_part_effect [OF redisAlertSuppressed_db_part [OF fired(3)]]
  note ins = InsertAlert_effect [OF fired(4)]
  obtain ms where ms: "w_published w5 = w_published w4 @ ms"
    "set ms \<subseteq> {(''alerts/'' @ d, AlertPayload (alert_message ?a))}"
    using publishAlertMQTT_effect(3) unfolding fired(5) by blast
  have w5: "other_than_alerts w5 = other_than_alerts w4" "w_alerts w5 = w_alerts w4"
    unfolding fired(5) by (rule publishAlertMQTT_effect)+
  from fired(6) assms(1) have w': "w' = (case e_redis E of None \<Rightarrow> w5
      | Some R \<Rightarrow> snd (redis_do (r_set R (alert_key d) ''1'' alertSilenceRedisTTL) w5))" by simp
  have "db_part w' = db_part w5"
    unfolding w' by (auto split: option.splits) (metis redis_do_db_part prod.collapse)
  note w' = db_part_effect [OF this]
  have "alert_for d m v sil t ?a" by (rule alert_for_new_alert [OF fired(1)])
  then show ?thesis
    unfolding evaluation_effect_def using pre ins ms w5 w' fired(2) assms(2)
    by (intro conjI exI [of _ "[?a]"] exI [of _ ms]) (auto simp: other_than_alerts_def)
qed

lemma evaluate_thresholds_effect:
  "fold (evaluate_threshold E d m v sil) ts (ev, w) = (ev', w') \<Longrightarrow> set ts \<subseteq> T \<Longrightarrow>
   evaluation_effect d m v sil T w w'"
proof (induction ts arbitrary: ev w)
  case Nil
  then show ?case by (auto intro: evaluation_effect_refl)
next
  case (Cons t ts)
  obtain ev1 w1 where step: "evaluate_threshold E d m v sil t (ev, w) = (ev1, w1)" by fastforce
  with Cons.prems(1) have rest: "fold (evaluate_threshold E d m v sil) ts (ev1, w1) = (ev', w')"
    by simp
  from Cons.prems(2) have "t \<in> T" "set ts \<subseteq> T" by simp_all
  from evaluation_effect_trans [OF evaluate_threshold_effect [OF step \<open>t \<in> T\<close>]
      Cons.IH [OF rest \<open>set ts \<subseteq> T\<close>]] show ?case .
qed

section \<open>The evaluation refines its contract\<close>

definition thresholds_for :: "string \<Rightarrow> string \<Rightarrow> 'r world \<Rightarrow> threshold set" where
  "thresholds_for d m w =
     {t \<in> set (w_thresholds w). th_DeviceID t = d \<and> (m \<noteq> [] \<longrightarrow> th_MetricName t = m) \<and> th_Enabled t}"

text \<open>Silenced: a rule of the device for the metric, or for all its metrics, not yet expired.\<close>

definition silenced_at :: "string \<Rightarrow> string \<Rightarrow> gotime \<Rightarrow> 'r world \<Rightarrow> bool" where
  "silenced_at d m now w \<longleftrightarrow>
     (\<exists>s \<in> set (w_silences w). sl_DeviceID s = d \<and> now < sl_SilencedUntil s \<and>
        (sl_MetricName s = None \<or> sl_MetricName s = Some m))"

lemma evaluate_contract:
  assumes "evaluate E d m v (ev, w) = (ev', w')"
  obtains sil where "evaluation_effect d m v sil (thresholds_for d m w) w w'"
    "e_fault E (Suc (w_tick w)) = None \<Longrightarrow> no_nul d \<Longrightarrow>
       sil \<longleftrightarrow> silenced_at d m (e_clock E (w_tick w + 2)) w"
proof -
  obtain r w1 where th: "GetThresholds_db E d m True w = (r, w1)" by fastforce
  note w1 = same_data_effect [OF GetThresholds_db_same_data [OF th]]
  have tick: "w_tick w1 = Suc (w_tick w)" "w_silences w1 = w_silences w"
    using th same_dataD(6) [OF GetThresholds_db_same_data [OF th]]
    by (auto simp: GetThresholds_db_def ext_fault_def split: option.splits)
  show thesis
  proof (cases "\<exists>ts. r = Inr ts \<and> ts \<noteq> []")
    case False
    with assms th have "w' = w1" by (auto simp: evaluate_def split: sum.splits)
    with w1 show thesis
      by (intro that [of "silenced_at d m (e_clock E (w_tick w + 2)) w"])
        (auto intro: evaluation_effect_refl)
  next
    case True
    then obtain ts where ts: "r = Inr ts" "ts \<noteq> []" by blast
    obtain q w2 where q: "GetActiveSilences E d w1 = (q, w2)" by fastforce
    let ?sil = "checkSilenced m (case q of Inl e \<Rightarrow> [] | Inr ss \<Rightarrow> ss)"
    note w2 = same_data_effect [OF GetActiveSilences_same_data [OF q]]
    from assms th ts q have "fold (evaluate_threshold E d m v ?sil) ts (ev, w2) = (ev', w')"
      by (simp add: evaluate_def)
    moreover have "set ts \<subseteq> thresholds_for d m w"
      using GetThresholds_db_Inr [of E d m True w ts w1] th ts by (auto simp: thresholds_for_def)
    ultimately have "evaluation_effect d m v ?sil (thresholds_for d m w) w2 w'"
      by (rule evaluate_thresholds_effect)
    then have eff: "evaluation_effect d m v ?sil (thresholds_for d m w) w w'"
      by (rule evaluation_effect_trans [OF evaluation_effect_refl [of w2 w], rotated 3])
        (simp_all only: w1 w2)
    have "?sil \<longleftrightarrow> silenced_at d m (e_clock E (w_tick w + 2)) w"
      if "e_fault E (Suc (w_tick w)) = None" "no_nul d"
    proof -
      from q that tick(1) obtain ss where ss: "q = Inr ss"
        by (auto simp: GetActiveSilences_def ext_fault_def time_now_def Let_def)
      from GetActiveSilences_Inr [of E d w1 ss w2] q ss tick have
        "ss = filter (\<lambda>s. sl_DeviceID s = d \<and> e_clock E (w_tick w + 2) < sl_SilencedUntil s) (w_silences w)"
        by simp
      then show ?thesis unfolding ss by (auto simp: checkSilenced_def list_ex_iff silenced_at_def)
    qed
    with eff show thesis by (rule that)
  qed
qed

text \<open>An evaluation without a rule: nothing, or the loop over thresholds with the flag unset.\<close>

lemma evaluate_unsilenced:
  assumes "e_fault E (Suc (w_tick w)) = None" "no_nul d"
    "\<not> silenced_at d m (e_clock E (w_tick w + 2)) w" "evaluate E d m v (ev, w) = (ev', w')"
  obtains (idle) "same_data w' w"
    | (loop) ts w2 where "same_data w2 w" "fold (evaluate_threshold E d m v False) ts (ev, w2) = (ev', w')"
proof -
  obtain r w1 where th: "GetThresholds_db E d m True w = (r, w1)" by fastforce
  note sd1 = GetThresholds_db_same_data [OF th]
  have tick: "w_tick w1 = Suc (w_tick w)"
    using th by (auto simp: GetThresholds_db_def ext_fault_def split: option.splits)
  show thesis
  proof (cases "\<exists>ts. r = Inr ts \<and> ts \<noteq> []")
    case False
    with assms(4) th have "w' = w1" by (auto simp: evaluate_def split: sum.splits)
    with sd1 show thesis by (simp add: idle)
  next
    case True
    then obtain ts where ts: "r = Inr ts" "ts \<noteq> []" by blast
    obtain q w2 where q: "GetActiveSilences E d w1 = (q, w2)" by fastforce
    from q assms(1,2) tick obtain ss where ss: "q = Inr ss"
      by (auto simp: GetActiveSilences_def ext_fault_def time_now_def Let_def)
    from GetActiveSilences_Inr [of E d w1 ss w2] q ss tick same_dataD(6) [OF sd1] have
      "ss = filter (\<lambda>s. sl_DeviceID s = d \<and> e_clock E (w_tick w + 2) < sl_SilencedUntil s) (w_silences w)"
      by simp
    with assms(3) have "\<not> checkSilenced m ss"
      by (auto simp: checkSilenced_def list_ex_iff silenced_at_def)
    with assms(4) th ts q ss have "fold (evaluate_threshold E d m v False) ts (ev, w2) = (ev', w')"
      by (simp add: evaluate_def)
    then show thesis by (rule loop [OF same_data_trans [OF GetActiveSilences_same_data [OF q] sd1]])
  qed
qed

section \<open>Publications\<close>

text \<open>Whatever is published as an alert was stored, unsilenced, under the topic of its device.\<close>

definition published_inv :: "'r world \<Rightarrow> bool" where
  "published_inv w \<longleftrightarrow>
     (\<forall>topic msg. (topic, AlertPayload msg) \<in> set (w_published w) \<longrightarrow>
        (\<exists>a \<in> fst ` set (w_alerts w). topic = ''alerts/'' @ al_DeviceID a \<and>
           msg = alert_message a \<and> \<not> al_IsSilenced a))"

lemma evaluation_effect_published:
  assumes "evaluation_effect d m v sil T w w'" "published_inv w"
  shows "published_inv w'"
proof -
  from assms(1) obtain news pubs where e:
    "map fst (w_alerts w') = map fst (w_alerts w) @ news" "w_published w' = w_published w @ pubs"
    "\<forall>a \<in> set news. \<exists>t \<in> T. alert_for d m v sil t a"
    "\<forall>p \<in> set pubs. \<not> sil \<and> (\<exists>a \<in> set news. p = (''alerts/'' @ d, AlertPayload (alert_message a)))"
    unfolding evaluation_effect_def by blast
  from e(1) have alerts: "fst ` set (w_alerts w') = fst ` set (w_alerts w) \<union> set news"
    by (metis set_append set_map)
  show ?thesis unfolding published_inv_def
  proof (intro allI impI)
    fix topic msg assume "(topic, AlertPayload msg) \<in> set (w_published w')"
    then consider "(topic, AlertPayload msg) \<in> set (w_published w)" | "(topic, AlertPayload msg) \<in> set pubs"
      using e(2) by auto
    then show "\<exists>a \<in> fst ` set (w_alerts w'). topic = ''alerts/'' @ al_DeviceID a \<and>
        msg = alert_message a \<and> \<not> al_IsSilenced a"
    proof cases
      case 1
      from assms(2) [unfolded published_inv_def, rule_format, OF 1] obtain a where
        a: "a \<in> fst ` set (w_alerts w)" and
        eqs: "topic = ''alerts/'' @ al_DeviceID a" "msg = alert_message a" "\<not> al_IsSilenced a"
        by (elim bexE conjE) (rule that)
      from a alerts have "a \<in> fst ` set (w_alerts w')" by (simp only: Un_iff simp_thms)
      with eqs show ?thesis by (intro bexI [of _ a] conjI)
    next
      case 2
      with e(4) obtain a where a: "a \<in> set news" "\<not> sil" "topic = ''alerts/'' @ d"
        "msg = alert_message a" by blast
      with e(3) have dev: "al_DeviceID a = d" "\<not> al_IsSilenced a" by (auto simp: alert_for_def)
      from a(1) alerts have "a \<in> fst ` set (w_alerts w')" by (simp only: Un_iff simp_thms)
      with a(3,4) dev show ?thesis by (intro bexI [of _ a] conjI) simp_all
    qed
  qed
qed

section \<open>One alert per device while the mark stands\<close>

definition marked :: "'r redis_ops \<Rightarrow> string \<Rightarrow> 'r world \<Rightarrow> bool" where
  "marked R d w \<longleftrightarrow> readable R (alert_key d) (w_redis w)"

lemma redisAlertSuppressed_marked:
  assumes "e_redis E = Some R" "mark_law R" "redisAlertSuppressed E d w = (b, w')" "marked R d w"
  shows "b" "marked R d w'"
proof -
  from assms(4) obtain val where val: "fst (r_get R (alert_key d) (w_redis w)) = Inr val"
    by (auto simp: marked_def readable_def)
  then obtain r' where r': "r_get R (alert_key d) (w_redis w) = (Inr val, r')"
    by (cases "r_get R (alert_key d) (w_redis w)") auto
  with assms(1,3) have b: "b" "w' = w\<lparr>w_redis := r'\<rparr>"
    by (auto simp: redisAlertSuppressed_def redis_do_def)
  from assms(2,4) r' have "readable R (alert_key d) r'" unfolding mark_law_def marked_def by blast
  with b show "b" "marked R d w'" by (simp_all add: marked_def)
qed

text \<open>A marked device: an evaluation that is not silenced stores and publishes nothing.\<close>

lemma evaluate_threshold_marked:
  assumes "e_redis E = Some R" "mark_law R" "marked R d w"
    "evaluate_threshold E d m v False t (ev, w) = (ev', w')"
  shows "marked R d w' \<and> w_alerts w' = w_alerts w \<and> w_published w' = w_published w"
proof (cases rule: evaluate_threshold_cases [where ev = ev and E = E and d = d and m = m and v = v
      and sil = False and t = t and w = w])
  case quiet
  with assms show ?thesis by simp
next
  case (suppressed msg w3)
  have "marked R d (w\<lparr>w_tick := w_tick w + 2\<rparr>)" using assms(3) by (simp add: marked_def)
  with suppressed assms show ?thesis
    using redisAlertSuppressed_marked(2) [OF assms(1,2) suppressed(3)]
      db_partD [OF redisAlertSuppressed_db_part [OF suppressed(3)]] by simp
next
  case (failed msg w3 e w4)
  have "marked R d (w\<lparr>w_tick := w_tick w + 2\<rparr>)" using assms(3) by (simp add: marked_def)
  with redisAlertSuppressed_marked(1) [OF assms(1,2) failed(3)] show ?thesis by simp
next
  case (fired msg w3 w4 w5)
  have "marked R d (w\<lparr>w_tick := w_tick w + 2\<rparr>)" using assms(3) by (simp add: marked_def)
  with redisAlertSuppressed_marked(1) [OF assms(1,2) fired(3)] show ?thesis by simp
qed simp

lemma evaluate_thresholds_marked:
  "e_redis E = Some R \<Longrightarrow> mark_law R \<Longrightarrow> marked R d w \<Longrightarrow>
   fold (evaluate_threshold E d m v False) ts (ev, w) = (ev', w') \<Longrightarrow>
   marked R d w' \<and> w_alerts w' = w_alerts w \<and> w_published w' = w_published w"
proof (induction ts arbitrary: ev w)
  case Nil
  then show ?case by simp
next
  case (Cons t ts)
  obtain ev1 w1 where step: "evaluate_threshold E d m v False t (ev, w) = (ev1, w1)" by fastforce
  with Cons.prems(4) have "fold (evaluate_threshold E d m v False) ts (ev1, w1) = (ev', w')" by simp
  with Cons.IH [of w1 ev1] Cons.prems(1,2) evaluate_threshold_marked [OF Cons.prems(1-3) step]
  show ?case by simp
qed

text \<open>
  With a Redis that takes every \<open>SET\<close>, the thresholds of one evaluation store at most one alert
  and publish at most that one, whatever their number; once one is stored the device is marked.
\<close>

lemma evaluate_threshold_once:
  assumes "e_redis E = Some R" "mark_law R" "evaluate_threshold E d m v False t (ev, w) = (ev', w')"
  shows "w_alerts w' = w_alerts w \<and> w_published w' = w_published w \<or>
    length (w_alerts w') = Suc (length (w_alerts w)) \<and>
    length (w_published w') \<le> Suc (length (w_published w)) \<and> marked R d w'"
proof (cases rule: evaluate_threshold_cases [where ev = ev and E = E and d = d and m = m and v = v
      and sil = False and t = t and w = w])
  case quiet
  with assms show ?thesis by simp
next
  case (suppressed msg w3)
  with assms show ?thesis using db_partD [OF redisAlertSuppressed_db_part [OF suppressed(3)]] by simp
next
  case (failed msg w3 e w4)
  with assms show ?thesis using db_partD [OF redisAlertSuppressed_db_part [OF failed(3)]]
      same_dataD [OF InsertAlert_err [OF failed(4)]] by simp
next
  case (fired msg w3 w4 w5)
  let ?a = "new_alert E d m v False t msg (w_tick w)"
  have len: "length (w_alerts w4) = Suc (length (w_alerts w))" "w_published w4 = w_published w"
    using db_partD [OF redisAlertSuppressed_db_part [OF fired(3)]] InsertAlert_effect [OF fired(4)]
    by (auto dest: arg_cong [where f = length])
  obtain ms where "w_published w5 = w_published w4 @ ms"
    "set ms \<subseteq> {(''alerts/'' @ d, AlertPayload (alert_message ?a))}"
    using publishAlertMQTT_effect(3) unfolding fired(5) by blast
  have pub: "length (w_published w5) \<le> Suc (length (w_published w4))"
    by (auto simp: fired(5) publishAlertMQTT_def PublishAlert_def mqtt_publish_def ext_fault_def Let_def
        split: option.splits prod.splits)
  have w5: "w_alerts w5 = w_alerts w4" unfolding fired(5) by (rule publishAlertMQTT_effect)
  obtain x r' where r': "r_set R (alert_key d) ''1'' alertSilenceRedisTTL (w_redis w5) = (x, r')"
    by fastforce
  with assms(2) have "readable R (alert_key d) r'" unfolding mark_law_def by blast
  moreover have "w' = w5\<lparr>w_redis := r'\<rparr>"
    using fired(6) assms(1,3) r' by (simp add: redis_do_def)
  ultimately show ?thesis using len pub w5 by (simp add: marked_def)
qed simp

lemma evaluate_thresholds_once:
  "e_redis E = Some R \<Longrightarrow> mark_law R \<Longrightarrow>
   fold (evaluate_threshold E d m v False) ts (ev, w) = (ev', w') \<Longrightarrow>
   length (w_alerts w') \<le> Suc (length (w_alerts w)) \<and>
   length (w_published w') \<le> Suc (length (w_published w))"
proof (induction ts arbitrary: ev w)
  case Nil
  then show ?case by simp
next
  case (Cons t ts)
  obtain ev1 w1 where step: "evaluate_threshold E d m v False t (ev, w) = (ev1, w1)" by fastforce
  with Cons.prems(3) have rest: "fold (evaluate_threshold E d m v False) ts (ev1, w1) = (ev', w')"
    by simp
  from evaluate_threshold_once [OF Cons.prems(1,2) step] show ?case
  proof
    assume "w_alerts w1 = w_alerts w \<and> w_published w1 = w_published w"
    with Cons.IH [OF Cons.prems(1,2) rest] show ?thesis by simp
  next
    assume *: "length (w_alerts w1) = Suc (length (w_alerts w)) \<and>
      length (w_published w1) \<le> Suc (length (w_published w)) \<and> marked R d w1"
    with evaluate_thresholds_marked [OF Cons.prems(1,2) _ rest] show ?thesis by simp
  qed
qed



section \<open>The invariant of the alert table\<close>

lemma alerts_inv_cong:
  "w_devices w' = w_devices w \<Longrightarrow> w_alerts w' = w_alerts w \<Longrightarrow> alerts_inv w' = alerts_inv w"
  by (simp add: alerts_inv_def alert_device_ids_def)

lemma evaluate_threshold_inv [inv_intros]:
  assumes "evaluate_threshold E d m v sil t (ev, w) = (ev', w')" "alerts_inv w"
  shows "alerts_inv w'"
proof (cases rule: evaluate_threshold_cases [where ev = ev and E = E and d = d and m = m and v = v
      and sil = sil and t = t and w = w])
  case quiet
  with assms show ?thesis by simp
next
  case (silenced msg)
  have "alerts_inv (w\<lparr>w_tick := w_tick w + 2\<rparr>)"
    using assms(2) alerts_inv_cong [of "w\<lparr>w_tick := w_tick w + 2\<rparr>" w] by simp
  with silenced assms(1) show ?thesis
    by (cases "InsertAlert E (new_alert E d m v sil t msg (w_tick w)) (w\<lparr>w_tick := w_tick w + 2\<rparr>)")
      (auto intro: InsertAlert_inv)
next
  case (suppressed msg w3)
  with assms show ?thesis
    using db_partD(2,5) [OF redisAlertSuppressed_db_part [OF suppressed(3)]] alerts_inv_cong [of w3 w]
    by simp
next
  case (failed msg w3 e w4)
  have "alerts_inv w3"
    using db_partD(2,5) [OF redisAlertSuppressed_db_part [OF failed(3)]] alerts_inv_cong [of w3 w] assms(2)
    by simp
  from InsertAlert_inv [OF failed(4) this] failed(5) assms(1) show ?thesis by simp
next
  case (fired msg w3 w4 w5)
  have "alerts_inv w3"
    using db_partD(2,5) [OF redisAlertSuppressed_db_part [OF fired(3)]] alerts_inv_cong [of w3 w] assms(2)
    by simp
  from InsertAlert_inv [OF fired(4) this] have w4: "alerts_inv w4" .
  have "w_devices w5 = w_devices w4" "w_alerts w5 = w_alerts w4"
    using publishAlertMQTT_effect(1,2) [where E = E and w = w4]
    by (simp_all add: fired(5) other_than_alerts_def)
  with w4 alerts_inv_cong [of w5 w4] have w5: "alerts_inv w5" by simp
  show ?thesis
  proof (cases "e_redis E")
    case None
    with fired(6) assms(1) w5 show ?thesis by simp
  next
    case (Some R)
    have "db_part (snd (redis_do (r_set R (alert_key d) ''1'' alertSilenceRedisTTL) w5)) = db_part w5"
      by (metis redis_do_db_part prod.collapse)
    from alerts_inv_cong [OF db_partD(2,5) [OF this]] w5
    have "alerts_inv (snd (redis_do (r_set R (alert_key d) ''1'' alertSilenceRedisTTL) w5))" by blast
    with fired(6) assms(1) Some show ?thesis by simp
  qed
qed

end
