(* ===== verification/Grpc.thy ===== *)
theory Grpc
  imports Environment
begin

text \<open>What the gRPC handlers share: the statuses they build and the sending on a stream.\<close>

definition invalid_argument :: "string \<Rightarrow> grpc_error" where
  "invalid_argument msg = Status InvalidArgument msg"

definition internal_error :: "string \<Rightarrow> go_error \<Rightarrow> grpc_error" where
  "internal_error msg e = Status Internal (msg @ '': '' @ err_msg e)"

text \<open>
  A streaming handler: each message is sent by an external call that may fail. The result is
  the messages sent and the error, if there is one.
\<close>

fun send_all ::
    "'r env \<Rightarrow> 'm list \<Rightarrow> 'm list \<Rightarrow> 'r world \<Rightarrow> ('m list \<times> go_error option) \<times> 'r world" where
  "send_all E sent [] w = ((sent, None), w)"
| "send_all E sent (m # ms) w =
     (case ext_fault E w of
        (Some e, w1) \<Rightarrow> ((sent, Some e), w1)
      | (None, w1) \<Rightarrow> send_all E (sent @ [m]) ms w1)"

text \<open>What is sent is a prefix of the messages, all of them where no send failed.\<close>

lemma send_all_result:
  "send_all E sent ms w = ((out, err), w') \<Longrightarrow>
   same_data w' w \<and> (\<exists>n \<le> length ms. out = sent @ take n ms \<and> (err = None \<longrightarrow> n = length ms))"
proof (induction ms arbitrary: sent w)
  case Nil
  then show ?case by simp
next
  case (Cons m ms)
  show ?case
  proof (cases "e_fault E (w_tick w)")
    case (Some e)
    from Cons.prems have "out = sent" "err = Some e" "w' = w\<lparr>w_tick := Suc (w_tick w)\<rparr>"
      by (auto simp: ext_fault_def Some)
    then show ?thesis by (intro conjI exI [of _ 0]) simp_all
  next
    case None
    with Cons.prems have "send_all E (sent @ [m]) ms (w\<lparr>w_tick := Suc (w_tick w)\<rparr>) = ((out, err), w')"
      by (simp add: ext_fault_def)
    from Cons.IH [OF this] obtain n where
      "same_data w' (w\<lparr>w_tick := Suc (w_tick w)\<rparr>)" "n \<le> length ms"
      "out = (sent @ [m]) @ take n ms" "err = None \<longrightarrow> n = length ms" by blast
    then show ?thesis by (intro conjI exI [of _ "Suc n"]) (auto intro: same_data_trans)
  qed
qed

end
