(* ===== verification/TelemetryService.thy ===== *)
theory TelemetryService
  imports TelemetryDB TelemetryCache AlertEvaluator Grpc
begin

text \<open>
  \<open>internal/services/telemetry_service.go\<close>: validation and submission of metrics, with
  synchronous writes (\<open>NewTelemetryService\<close>) and through the bounded write queue
  (\<open>NewTelemetryServiceWithWriteQueue\<close>), and the queries. \<open>ev\<close> says whether the service was built
  with an evaluator. A handler's result is an option: \<open>None\<close> is a handler that does not return
  because a cache loop it runs does not end.
\<close>

section \<open>Validation\<close>

definition dedupTTL :: int where "dedupTTL = minutes 10"
definition lastSeenTTL :: int where "lastSeenTTL = hours 24"
definition maxBatchSize :: nat where "maxBatchSize = 1000"
definition maxQueryLimit :: int where "maxQueryLimit = 10000"
definition futureTimestampSkew :: int where "futureTimestampSkew = seconds 5"
definition DefaultWriteQueueCapacity :: nat where "DefaultWriteQueueCapacity = 1024"
definition postMetricSideEffectTimeout :: int where "postMetricSideEffectTimeout = seconds 5"

text \<open>The binary64 number nearest to \<open>1e308\<close>.\<close>

definition f_1e308 :: float64 where
  "f_1e308 = Fin (5010420900022432 * 2 ^ 971)"

definition isFinite :: "float64 \<Rightarrow> bool" where
  "isFinite f \<longleftrightarrow> \<not> (\<not> f_eq f f \<or> f_gt f f_1e308 \<or> f_lt f (f_neg f_1e308))"

definition validateSubmitRequest :: "submit_metric_request \<Rightarrow> go_error option" where
  "validateSubmitRequest req =
     (if smr_DeviceId req = '''' then Some (ErrText ''device_id required'')
      else if smr_MetricName req = '''' then Some (ErrText ''metric_name required'')
      else if \<not> isFinite (smr_Value req) then Some (ErrText ''value must be a finite number'')
      else None)"

definition validateAndResolveMetricTimestamp ::
    "'r env \<Rightarrow> submit_metric_request \<Rightarrow> 'r world \<Rightarrow> (go_error + gotime) \<times> 'r world" where
  "validateAndResolveMetricTimestamp E req w =
     (case validateSubmitRequest req of
        Some e \<Rightarrow> (Inl e, w)
      | None \<Rightarrow>
          (let (now, w1) = time_now E w in
           if sint (smr_TimestampUnixSeconds req) \<le> 0 then (Inr now, w1)
           else
             (let ts = time_unix (smr_TimestampUnixSeconds req) in
              if time_after ts (time_add now futureTimestampSkew)
              then (Inl (ErrText ''future timestamps are not allowed (beyond 5s skew)''), w1)
              else (Inr ts, w1))))"

definition metricPointFromRequest :: "submit_metric_request \<Rightarrow> gotime \<Rightarrow> metric_point" where
  "metricPointFromRequest req ts =
     \<lparr>mp_Timestamp = ts, mp_DeviceID = smr_DeviceId req, mp_MetricName = smr_MetricName req,
      mp_Value = smr_Value req, mp_Tags = smr_Tags req,
      mp_Status = enum_string MetricStatus_name (smr_Status req)\<rparr>"

definition insertFailureStatus :: "go_error \<Rightarrow> bool \<Rightarrow> grpc_error" where
  "insertFailureStatus e batch =
     (if err_is e ErrDeadlineExceeded then Status DeadlineExceeded (err_msg e)
      else if err_is e ErrCanceled then Status Canceled (err_msg e)
      else if err_as_pg e = Some ''23503'' then Status NotFound ''device not found''
      else if contains (err_msg e) ''SQLSTATE 23503'' then Status NotFound ''device not found''
      else if batch then internal_error ''batch insert failed'' e
      else internal_error ''failed to store metric'' e)"

section \<open>Side effects of a write\<close>

definition evaluateAsync :: "bool \<Rightarrow> string \<Rightarrow> string \<Rightarrow> float64 \<Rightarrow> 'r world \<Rightarrow> 'r world" where
  "evaluateAsync ev deviceID metricName value w =
     (if ev then EvaluateAsync deviceID metricName value w else w)"

text \<open>The caches of the program implement both optional interfaces.\<close>

definition isDuplicate ::
    "'r env \<Rightarrow> string \<Rightarrow> gotime \<Rightarrow> 'r world \<Rightarrow> (go_error + bool) \<times> 'r world" where
  "isDuplicate E deviceID ts w =
     (case TryMarkDedup E deviceID ts dedupTTL w of
        (Inl e, w1) \<Rightarrow> (Inr False, w1)
      | (Inr created, w1) \<Rightarrow> (Inr (\<not> created), w1))"

text \<open>Its \<open>SET\<close> is one call, which fails where the context is done.\<close>

definition markLastSeen ::
    "'r env \<Rightarrow> ctx \<Rightarrow> string \<Rightarrow> gotime \<Rightarrow> 'r world \<Rightarrow> go_error option \<times> ctx \<times> 'r world" where
  "markLastSeen E c deviceID ts w =
     (if c = Some 0 \<and> e_redis E \<noteq> None
      then (Some (ErrWrap ''failed to set last_seen key'' ErrDeadlineExceeded), c, w)
      else (case SetDeviceLastSeen E deviceID ts lastSeenTTL w of
              (r, w1) \<Rightarrow> (r, map_option (\<lambda>n. n - 1) c, w1)))"

definition postMetricWrite :: "'r env \<Rightarrow> bool \<Rightarrow> metric_point \<Rightarrow> 'r world \<Rightarrow> 'r world option" where
  "postMetricWrite E ev point w =
     (case InvalidateMetricCache E (with_timeout E postMetricSideEffectTimeout w) (mp_DeviceID point) (mp_MetricName point) w of
        None \<Rightarrow> None
      | Some (_, c1, w1) \<Rightarrow>
          (case markLastSeen E c1 (mp_DeviceID point) (mp_Timestamp point) w1 of
             (_, c2, w2) \<Rightarrow>
               Some (evaluateAsync ev (mp_DeviceID point) (mp_MetricName point) (mp_Value point) w2)))"

text \<open>
  The loop over the points of a stored batch; \<open>seen\<close> is the set of keys already visited. It runs
  under the context \<open>c\<close> of its caller, the request or the write worker, without a timeout.
\<close>

fun batch_effects ::
    "'r env \<Rightarrow> bool \<Rightarrow> metric_point list \<Rightarrow> string list \<Rightarrow> ctx \<Rightarrow> 'r world \<Rightarrow> 'r world option" where
  "batch_effects E ev [] seen c w = Some w"
| "batch_effects E ev (p # ps) seen c w =
     (let k = mp_DeviceID p @ '':'' @ mp_MetricName p in
      case (if k \<in> set seen then Some (c, w)
            else case InvalidateMetricCache E c (mp_DeviceID p) (mp_MetricName p) w of
              None \<Rightarrow> None
            | Some (_, c1, w1) \<Rightarrow> Some (c1, w1)) of
        None \<Rightarrow> None
      | Some (c1, w1) \<Rightarrow>
          (case markLastSeen E c1 (mp_DeviceID p) (mp_Timestamp p) w1 of
             (_, c2, w2) \<Rightarrow>
               batch_effects E ev ps (if k \<in> set seen then seen else k # seen) c2
                 (evaluateAsync ev (mp_DeviceID p) (mp_MetricName p) (mp_Value p) w2)))"

section \<open>Submission of one metric\<close>

text \<open>
  The part of \<open>SubmitMetric\<close> before the write: either the handler's result (a rejection or
  \<open>duplicate ignored\<close>) or the point to be written.
\<close>

definition submit_prefix ::
    "'r env \<Rightarrow> submit_metric_request \<Rightarrow> 'r world \<Rightarrow>
     ((grpc_error + submit_metric_response) + metric_point) \<times> 'r world" where
  "submit_prefix E req w =
     (case validateAndResolveMetricTimestamp E req w of
        (Inl e, w1) \<Rightarrow> (Inl (Inl (invalid_argument (err_msg e))), w1)
      | (Inr timestamp, w1) \<Rightarrow>
          (case isDuplicate E (smr_DeviceId req) timestamp w1 of
             (Inr True, w2) \<Rightarrow>
               (Inl (Inr \<lparr>smp_Success = True, smp_ServerTimestamp = pb_new timestamp,
                          smp_Message = ''duplicate ignored''\<rparr>), w2)
           | (_, w2) \<Rightarrow> (Inr (metricPointFromRequest req timestamp), w2)))"

definition stored_response :: "gotime \<Rightarrow> submit_metric_response" where
  "stored_response timestamp =
     \<lparr>smp_Success = True, smp_ServerTimestamp = pb_new timestamp,
      smp_Message = ''metric stored successfully''\<rparr>"

definition SubmitMetric ::
    "'r env \<Rightarrow> bool \<Rightarrow> submit_metric_request \<Rightarrow> 'r world \<Rightarrow>
     ((grpc_error + submit_metric_response) \<times> 'r world) option" where
  "SubmitMetric E ev req w =
     (case submit_prefix E req w of
        (Inl result, w1) \<Rightarrow> Some (result, w1)
      | (Inr point, w1) \<Rightarrow>
          (case InsertMetric E point w1 of
             (Some e, w2) \<Rightarrow> Some (Inl (insertFailureStatus e False), w2)
           | (None, w2) \<Rightarrow>
               (case postMetricWrite E ev point w2 of
                  None \<Rightarrow> None
                | Some w3 \<Rightarrow> Some (Inr (stored_response (mp_Timestamp point)), w3))))"

section \<open>Submission of a batch\<close>

fun batch_loop ::
    "'r env \<Rightarrow> submit_metric_request list \<Rightarrow> metric_point list \<Rightarrow> nat \<Rightarrow> 'r world \<Rightarrow>
     (metric_point list \<times> nat) \<times> 'r world" where
  "batch_loop E [] points rejected w = ((points, rejected), w)"
| "batch_loop E (req # reqs) points rejected w =
     (case validateAndResolveMetricTimestamp E req w of
        (Inl e, w1) \<Rightarrow> batch_loop E reqs points (Suc rejected) w1
      | (Inr timestamp, w1) \<Rightarrow>
          (case isDuplicate E (smr_DeviceId req) timestamp w1 of
             (Inr True, w2) \<Rightarrow> batch_loop E reqs points (Suc rejected) w2
           | (_, w2) \<Rightarrow>
               batch_loop E reqs (points @ [metricPointFromRequest req timestamp]) rejected w2))"

definition batch_prefix ::
    "'r env \<Rightarrow> submit_metric_request list \<Rightarrow> 'r world \<Rightarrow>
     (grpc_error + metric_point list \<times> submit_batch_response) \<times> 'r world" where
  "batch_prefix E metrics w =
     (if length metrics = 0 then (Inl (invalid_argument ''batch cannot be empty''), w)
      else if length metrics > maxBatchSize
      then (Inl (invalid_argument ''batch too large (max 1000)''), w)
      else
        (let (now, w1) = time_now E w in
         case batch_loop E metrics [] 0 w1 of
           ((points, rejected), w2) \<Rightarrow>
             if length points = 0
             then (Inl (invalid_argument ''all metrics in batch were invalid or duplicated''), w2)
             else (Inr (points,
               \<lparr>sbp_AcceptedCount = of_nat (length points), sbp_RejectedCount = of_nat rejected,
                sbp_ServerTimestamp = pb_new now,
                sbp_Message = ''accepted '' @ format_int (int (length points)) @
                  '' metrics, rejected '' @ format_int (int rejected)\<rparr>), w2)))"

definition SubmitBatch ::
    "'r env \<Rightarrow> bool \<Rightarrow> ctx \<Rightarrow> submit_metric_request list \<Rightarrow> 'r world \<Rightarrow>
     ((grpc_error + submit_batch_response) \<times> 'r world) option" where
  "SubmitBatch E ev c metrics w =
     (case batch_prefix E metrics w of
        (Inl e, w1) \<Rightarrow> Some (Inl e, w1)
      | (Inr (points, response), w1) \<Rightarrow>
          (case InsertMetricBatch E points w1 of
             (Some e, w2) \<Rightarrow> Some (Inl (insertFailureStatus e True), w2)
           | (None, w2) \<Rightarrow>
               (case batch_effects E ev points [] c w2 of
                  None \<Rightarrow> None
                | Some w3 \<Rightarrow> Some (Inr response, w3))))"

section \<open>Queries\<close>

definition opt_time :: "pb_time \<Rightarrow> gotime" where
  "opt_time p = (case p of None \<Rightarrow> zero_time | Some t \<Rightarrow> as_time (Some t))"

definition time_range_error :: "pb_time \<Rightarrow> pb_time \<Rightarrow> bool" where
  "time_range_error startT endT \<longleftrightarrow>
     \<not> is_zero_time (opt_time startT) \<and> \<not> is_zero_time (opt_time endT) \<and>
     time_before (opt_time endT) (opt_time startT)"

definition validateQueryRequest :: "query_metrics_request \<Rightarrow> go_error option" where
  "validateQueryRequest req =
     (if qmr_DeviceId req = '''' then Some (ErrText ''device_id required'')
      else if qmr_MetricName req = '''' then Some (ErrText ''metric_name required'')
      else if time_range_error (qmr_StartTime req) (qmr_EndTime req)
      then Some (ErrText ''end_time must be after start_time'')
      else if sint (qmr_Limit req) \<le> 0 \<or> sint (qmr_Limit req) > maxQueryLimit
      then Some (ErrText (''limit must be between 1 and '' @ format_int maxQueryLimit))
      else None)"

definition validateAggregationRequest :: "get_aggregations_request \<Rightarrow> go_error option" where
  "validateAggregationRequest req =
     (if gar_DeviceId req = '''' then Some (ErrText ''device_id required'')
      else if gar_MetricName req = '''' then Some (ErrText ''metric_name required'')
      else if time_range_error (gar_StartTime req) (gar_EndTime req)
      then Some (ErrText ''end_time must be after start_time'')
      else if gar_WindowSize req = 0 then Some (ErrText ''window_size required'')
      else None)"

definition validateStatsRequest :: "get_metric_stats_request \<Rightarrow> go_error option" where
  "validateStatsRequest req =
     (if gsr_DeviceId req = '''' then Some (ErrText ''device_id required'')
      else if gsr_MetricName req = '''' then Some (ErrText ''metric_name required'')
      else None)"

definition parseMetricStatus :: "string \<Rightarrow> i32" where
  "parseMetricStatus statusText =
     (case enum_value MetricStatus_name statusText of Some v \<Rightarrow> v | None \<Rightarrow> METRIC_STATUS_OK)"

definition windowSizeToString :: "i32 \<Rightarrow> string" where
  "windowSizeToString ws =
     (if ws = 1 then ''1m'' else if ws = 2 then ''5m'' else if ws = 3 then ''1h''
      else if ws = 4 then ''1d'' else ''1h'')"

definition aggregationTypesToStrings :: "i32 list \<Rightarrow> string list" where
  "aggregationTypesToStrings types =
     (if length types = 0 then [] else map (enum_string AggregationType_name) types)"

definition buildAggCacheKey ::
    "string \<Rightarrow> string \<Rightarrow> string \<Rightarrow> gotime \<Rightarrow> gotime \<Rightarrow> string list \<Rightarrow> string" where
  "buildAggCacheKey deviceID metricName windowSize startTime endTime aggTypes =
     ''agg:'' @ deviceID @ '':'' @ metricName @ '':'' @ windowSize @ '':'' @ unix_dec startTime @
     '':'' @ unix_dec endTime @ '':'' @ fmt_strings aggTypes"

text \<open>The defaults for the range; the clock is read where the end is missing.\<close>

definition query_range ::
    "'r env \<Rightarrow> pb_time \<Rightarrow> pb_time \<Rightarrow> 'r world \<Rightarrow> (gotime \<times> gotime) \<times> 'r world" where
  "query_range E startT endT w =
     (let startTime = opt_time startT; endTime = opt_time endT in
      if is_zero_time startTime \<and> is_zero_time endTime then
        (let (now, w1) = time_now E w in ((time_add now (- hours 24), now), w1))
      else if is_zero_time startTime then ((time_add endTime (- hours 24), endTime), w)
      else if is_zero_time endTime then (let (now, w1) = time_now E w in ((startTime, now), w1))
      else ((startTime, endTime), w))"

definition pb_of_point :: "metric_point \<Rightarrow> pb_metric_point" where
  "pb_of_point p =
     \<lparr>pmp_Timestamp = pb_new (mp_Timestamp p), pmp_DeviceId = mp_DeviceID p,
      pmp_MetricName = mp_MetricName p, pmp_Value = mp_Value p, pmp_Tags = mp_Tags p,
      pmp_Status = parseMetricStatus (mp_Status p)\<rparr>"

definition has_more :: "i32 \<Rightarrow> i32 \<Rightarrow> i64 \<Rightarrow> bool" where
  "has_more offset limit cnt \<longleftrightarrow> sint (offset + limit) < sint (int32_of_int64 cnt)"

definition QueryMetrics_handler ::
    "'r env \<Rightarrow> query_metrics_request \<Rightarrow> 'r world \<Rightarrow>
     (query_metrics_response list \<times> grpc_error option) \<times> 'r world" where
  "QueryMetrics_handler E req0 w =
     (let req = (if qmr_Limit req0 = 0 then req0\<lparr>qmr_Limit := 100\<rparr> else req0) in
      case validateQueryRequest req of
        Some e \<Rightarrow> (([], Some (invalid_argument (err_msg e))), w)
      | None \<Rightarrow>
          (let ((startTime, endTime), w1) = query_range E (qmr_StartTime req) (qmr_EndTime req) w;
               f = \<lparr>qf_DeviceID = qmr_DeviceId req, qf_MetricName = qmr_MetricName req,
                    qf_StartTime = startTime, qf_EndTime = endTime, qf_Limit = qmr_Limit req,
                    qf_Offset = qmr_Offset req, qf_OrderAscending = qmr_OrderAscending req\<rparr> in
           case QueryMetrics E f w1 of
             (Inl e, w2) \<Rightarrow> (([], Some (internal_error ''query failed'' e)), w2)
           | (Inr points, w2) \<Rightarrow>
               (case QueryMetricsCount E f w2 of
                  (Inl e, w3) \<Rightarrow> (([], Some (internal_error ''count query failed'' e)), w3)
                | (Inr totalCount, w3) \<Rightarrow>
                    (case send_all E [] (map (\<lambda>p. \<lparr>qmp_Points = [pb_of_point p],
                            qmp_HasMore = has_more (qmr_Offset req) (qmr_Limit req) totalCount,
                            qmp_TotalCount = totalCount\<rparr>) points) w3 of
                       ((sent, None), w4) \<Rightarrow> ((sent, None), w4)
                     | ((sent, Some e), w4) \<Rightarrow>
                         ((sent, Some (internal_error ''send failed'' e)), w4)))))"

text \<open>\<open>Duration.Milliseconds\<close>: a division that truncates towards zero.\<close>

definition milliseconds :: "int \<Rightarrow> int" where
  "milliseconds d = (if d < 0 then - ((- d) div 1000000) else d div 1000000)"

definition pb_of_aggregation :: "aggregation_result \<Rightarrow> aggregated_metric_point" where
  "pb_of_aggregation item =
     \<lparr>amp_WindowStart = pb_new (ar_WindowStart item), amp_WindowEnd = pb_new (ar_WindowEnd item),
      amp_Aggregations =
        [(''avg'', ar_AvgValue item), (''max'', ar_MaxValue item), (''min'', ar_MinValue item)] @
        (if f_gt (ar_P95 item) f_zero then [(''p95'', ar_P95 item)] else []) @
        (if f_gt (ar_P99 item) f_zero then [(''p99'', ar_P99 item)] else []),
      amp_Count = ar_Count item, amp_LastValue = ar_P99 item\<rparr>"

definition GetAggregations ::
    "'r env \<Rightarrow> get_aggregations_request \<Rightarrow> 'r world \<Rightarrow>
     (grpc_error + get_aggregations_response) \<times> 'r world" where
  "GetAggregations E req w =
     (case validateAggregationRequest req of
        Some e \<Rightarrow> (Inl (invalid_argument (err_msg e)), w)
      | None \<Rightarrow>
          (let windowSize = windowSizeToString (gar_WindowSize req);
               aggTypes = aggregationTypesToStrings (gar_AggregationTypes req);
               startT = as_time (gar_StartTime req); endT = as_time (gar_EndTime req);
               cacheKey = buildAggCacheKey (gar_DeviceId req) (gar_MetricName req) windowSize
                            startT endT aggTypes in
           case GetQueryResult E cacheKey (e_unjson_aggs E) w of
             (Inr cachedResults, w1) \<Rightarrow>
               (Inr \<lparr>gap_Aggregations = cachedResults, gap_QueryDurationMs = 0, gap_FromCache = True,
                     gap_Message = ''result from cache''\<rparr>, w1)
           | (Inl _, w1) \<Rightarrow>
               (let (start, w2) = time_now E w1 in
                case QueryAggregated E
                       \<lparr>aq_DeviceID = gar_DeviceId req, aq_MetricName = gar_MetricName req,
                        aq_StartTime = startT, aq_EndTime = endT, aq_WindowSize = windowSize,
                        aq_AggregationTypes = aggTypes\<rparr> w2 of
                  (Inl e, w3) \<Rightarrow> (Inl (internal_error ''aggregation query failed'' e), w3)
                | (Inr dbResults, w3) \<Rightarrow>
                    (let pbResults = map pb_of_aggregation dbResults;
                         (_, w4) = CacheQueryResult E cacheKey (e_json_aggs E pbResults) w3;
                         (now, w5) = time_now E w4 in
                     (Inr \<lparr>gap_Aggregations = pbResults,
                           gap_QueryDurationMs = word_of_int (milliseconds (time_sub now start)),
                           gap_FromCache = False,
                           gap_Message = ''queried '' @ format_int (int (length pbResults)) @
                             '' windows''\<rparr>, w5)))))"

definition GetMetricStats_handler ::
    "'r env \<Rightarrow> get_metric_stats_request \<Rightarrow> 'r world \<Rightarrow>
     (grpc_error + pb_metric_stats \<times> pb_time) \<times> 'r world" where
  "GetMetricStats_handler E req w =
     (case validateStatsRequest req of
        Some e \<Rightarrow> (Inl (invalid_argument (err_msg e)), w)
      | None \<Rightarrow>
          (case GetMetricStats E (gsr_DeviceId req) (gsr_MetricName req)
                  (as_time (gsr_StartTime req)) (as_time (gsr_EndTime req)) w of
             (Inl e, w1) \<Rightarrow>
               (Inl (if err_is e ErrCanceled then Status Canceled ''context canceled''
                     else if err_is e ErrDeadlineExceeded then Status DeadlineExceeded ''query timeout''
                     else internal_error ''stats query failed'' e), w1)
           | (Inr s, w1) \<Rightarrow>
               (let (now, w2) = time_now E w1 in
                (Inr (\<lparr>pms_DeviceId = ms_DeviceID s, pms_MetricName = ms_MetricName s,
                       pms_FirstSeen = pb_new (ms_FirstSeen s), pms_LastSeen = pb_new (ms_LastSeen s),
                       pms_TotalSamples = ms_TotalSamples s, pms_AvgValue = ms_AvgValue s,
                       pms_MinValue = ms_MinValue s, pms_MaxValue = ms_MaxValue s,
                       pms_StddevValue = ms_StdDevValue s, pms_LatestValue = ms_LatestValue s,
                       pms_LatestStatus = parseMetricStatus (ms_LatestStatus s)\<rparr>, pb_new now), w2))))"

section \<open>What the validation accepts\<close>

lemma isFinite_not_special: "isFinite x \<Longrightarrow> \<not> f_is_nan x \<and> \<not> f_is_inf x"
  by (cases x) (auto simp: isFinite_def f_is_nan_def f_is_inf_def f_gt_def f_1e308_def)

lemma isFinite_bounded:
  assumes "\<bar>q\<bar> \<le> 5010420900022432 * 2 ^ 971"
  shows "isFinite (Fin q)"
proof -
  let ?m = "5010420900022432 * 2 ^ 971 :: rat"
  have "?m \<noteq> 0" by simp
  then have "f_neg (Fin ?m) = Fin (- ?m)" by (simp only: f_neg.simps if_False)
  moreover from assms have "\<not> ?m < q" "\<not> q < - ?m" by linarith+
  ultimately show ?thesis
    by (simp only: isFinite_def f_1e308_def f_gt_def f_lt.simps f_num.simps f_eq.simps simp_thms)
qed

lemma validateSubmitRequest_None:
  "validateSubmitRequest req = None \<longleftrightarrow>
   smr_DeviceId req \<noteq> [] \<and> smr_MetricName req \<noteq> [] \<and> isFinite (smr_Value req)"
  by (simp add: validateSubmitRequest_def)

lemma validateAndResolve_cases:
  obtains (invalid) e where "validateSubmitRequest req = Some e"
      "validateAndResolveMetricTimestamp E req w = (Inl e, w)"
  | (now) "validateSubmitRequest req = None" "sint (smr_TimestampUnixSeconds req) \<le> 0"
      "validateAndResolveMetricTimestamp E req w =
         (Inr (e_clock E (w_tick w)), w\<lparr>w_tick := Suc (w_tick w)\<rparr>)"
  | (future) "validateSubmitRequest req = None" "0 < sint (smr_TimestampUnixSeconds req)"
      "time_add (e_clock E (w_tick w)) futureTimestampSkew < time_unix (smr_TimestampUnixSeconds req)"
      "validateAndResolveMetricTimestamp E req w =
         (Inl (ErrText ''future timestamps are not allowed (beyond 5s skew)''),
          w\<lparr>w_tick := Suc (w_tick w)\<rparr>)"
  | (given) "validateSubmitRequest req = None" "0 < sint (smr_TimestampUnixSeconds req)"
      "time_unix (smr_TimestampUnixSeconds req) \<le> time_add (e_clock E (w_tick w)) futureTimestampSkew"
      "validateAndResolveMetricTimestamp E req w =
         (Inr (time_unix (smr_TimestampUnixSeconds req)), w\<lparr>w_tick := Suc (w_tick w)\<rparr>)"
proof (cases "validateSubmitRequest req")
  case (Some e)
  then show ?thesis by (intro invalid) (simp_all add: validateAndResolveMetricTimestamp_def)
next
  case None
  note d = validateAndResolveMetricTimestamp_def time_now_def time_after_def
  consider "sint (smr_TimestampUnixSeconds req) \<le> 0"
    | "0 < sint (smr_TimestampUnixSeconds req)"
      "time_add (e_clock E (w_tick w)) futureTimestampSkew < time_unix (smr_TimestampUnixSeconds req)"
    | "0 < sint (smr_TimestampUnixSeconds req)"
      "\<not> time_add (e_clock E (w_tick w)) futureTimestampSkew < time_unix (smr_TimestampUnixSeconds req)"
    by linarith
  then show ?thesis
  proof cases
    case 1
    with None show ?thesis by (intro now) (simp_all add: d)
  next
    case 2
    with None show ?thesis by (intro future) (simp_all add: d less_gotime_def)
  next
    case 3
    with None show ?thesis by (intro given) (simp_all add: d Let_def less_gotime_def [symmetric] not_less)
  qed
qed

section \<open>Frames of the parts of a submission\<close>

lemma isDuplicate_same [frame]: "isDuplicate E d ts w = (r, w') \<Longrightarrow> tables_same w' w"
  by (auto simp: isDuplicate_def split: prod.splits sum.splits
      dest!: TryMarkDedup_db_part intro: tables_same_db_part)

lemma validateAndResolve_same [frame]:
  "validateAndResolveMetricTimestamp E req w = (r, w') \<Longrightarrow> tables_same w' w"
  by (cases rule: validateAndResolve_cases [where E = E and req = req and w = w])
    (auto intro: tables_same_same_data)

lemma submit_prefix_same [frame]: "submit_prefix E req w = (r, w') \<Longrightarrow> tables_same w' w"
  unfolding submit_prefix_def
  by (auto split: prod.splits sum.splits bool.splits
      dest!: validateAndResolve_same isDuplicate_same intro: tables_same_trans)

text \<open>Everything a write may start: the tables other than the evaluation tasks stay.\<close>

lemma markLastSeen_cases:
  assumes "markLastSeen E c d ts w = (r, c', w')"
  obtains (over) "c = Some 0" "w' = w"
  | (set) "SetDeviceLastSeen E d ts lastSeenTTL w = (r, w')"
  using assms by (auto simp: markLastSeen_def split: if_splits prod.splits)

lemma markLastSeen_db_part [frame]: "markLastSeen E c d ts w = (r, c', w') \<Longrightarrow> db_part w' = db_part w"
  by (cases rule: markLastSeen_cases [of E c d ts w r c' w']) (auto dest: SetDeviceLastSeen_db_part)

lemma markLastSeen_live:
  assumes "markLastSeen E c d ts w = (r, c', w')" "e_redis E = Some R" "keeps_keys R live" "live k (w_redis w)"
  shows "live k (w_redis w')"
  using assms(1)
proof (cases rule: markLastSeen_cases)
  case set
  from SetDeviceLastSeen_live [OF this assms(2-4)] show ?thesis .
qed (use assms(4) in simp)

lemma postMetricWrite_cases:
  assumes "postMetricWrite E ev p w = Some w'"
  obtains r c1 w1 r2 c2 w2 where
    "InvalidateMetricCache E (with_timeout E postMetricSideEffectTimeout w) (mp_DeviceID p) (mp_MetricName p) w = Some (r, c1, w1)"
    "markLastSeen E c1 (mp_DeviceID p) (mp_Timestamp p) w1 = (r2, c2, w2)"
    "w' = evaluateAsync ev (mp_DeviceID p) (mp_MetricName p) (mp_Value p) w2"
  using assms by (auto simp: postMetricWrite_def split: option.splits prod.splits)

text \<open>The five seconds bound the effects of one write, whatever Redis answers.\<close>

lemma postMetricWrite_returns: "postMetricWrite E ev p w \<noteq> None"
  using InvalidateMetricCache_returns [of E "e_calls E postMetricSideEffectTimeout (w_tick w)" "mp_DeviceID p" "mp_MetricName p" w]
  by (auto simp: postMetricWrite_def with_timeout_def split: prod.splits)

lemma postMetricWrite_effect:
  assumes "postMetricWrite E ev p w = Some w'"
  shows "tables_same (w'\<lparr>w_tasks := w_tasks w\<rparr>) w"
    "w_tasks w' = w_tasks w @ (if ev then [(mp_DeviceID p, mp_MetricName p, mp_Value p)] else [])"
proof -
  from assms obtain r c1 w1 r2 c2 w2 where
    steps: "InvalidateMetricCache E (with_timeout E postMetricSideEffectTimeout w) (mp_DeviceID p) (mp_MetricName p) w = Some (r, c1, w1)"
    "markLastSeen E c1 (mp_DeviceID p) (mp_Timestamp p) w1 = (r2, c2, w2)"
    "w' = evaluateAsync ev (mp_DeviceID p) (mp_MetricName p) (mp_Value p) w2"
    by (rule postMetricWrite_cases)
  from InvalidateMetricCache_db_part [OF steps(1)] markLastSeen_db_part [OF steps(2)]
  have same: "db_part w2 = db_part w" by simp
  show "w_tasks w' = w_tasks w @ (if ev then [(mp_DeviceID p, mp_MetricName p, mp_Value p)] else [])"
    using db_partD(8) [OF same] steps(3) by (simp add: evaluateAsync_def EvaluateAsync_def)
  from same have "db_part (w'\<lparr>w_tasks := w_tasks w\<rparr>) = db_part w"
    using steps(3) by (cases w; cases w2) (simp add: evaluateAsync_def EvaluateAsync_def db_part_def)
  then show "tables_same (w'\<lparr>w_tasks := w_tasks w\<rparr>) w" by (rule tables_same_db_part)
qed

text \<open>With a context that is done some time the loop over the points returns.\<close>

lemma markLastSeen_left: "\<exists>r m w'. markLastSeen E (Some n) d t w = (r, Some m, w')"
  by (auto simp: markLastSeen_def split: prod.splits)

lemma batch_effects_returns: "batch_effects E ev ps seen (Some n) w \<noteq> None"
proof (induction ps arbitrary: seen n w)
  case (Cons p ps)
  let ?k = "mp_DeviceID p @ '':'' @ mp_MetricName p"
  obtain n1 w1 where
    "(if ?k \<in> set seen then Some (Some n, w)
      else case InvalidateMetricCache E (Some n) (mp_DeviceID p) (mp_MetricName p) w of
        None \<Rightarrow> None | Some (_, c1, w1) \<Rightarrow> Some (c1, w1)) = Some (Some n1, w1)"
    using InvalidateMetricCache_returns [of E n "mp_DeviceID p" "mp_MetricName p" w]
    by (cases "?k \<in> set seen") (auto simp del: append.simps)
  moreover obtain r n2 w2 where "markLastSeen E (Some n1) (mp_DeviceID p) (mp_Timestamp p) w1 = (r, Some n2, w2)"
    using markLastSeen_left by blast
  ultimately show ?case using Cons.IH by (simp add: Let_def del: append.simps not_None_eq)
qed simp

lemma tables_same_tasksD:
  assumes "tables_same (w'\<lparr>w_tasks := ts\<rparr>) w"
  shows "w_metrics w' = w_metrics w" "w_devices w' = w_devices w" "w_alerts w' = w_alerts w"
  using tables_sameD [OF assms] by simp_all

lemma batch_effects_effect:
  "batch_effects E ev ps seen c w = Some w' \<Longrightarrow>
   tables_same (w'\<lparr>w_tasks := w_tasks w\<rparr>) w \<and>
   w_tasks w' = w_tasks w @
     (if ev then map (\<lambda>p. (mp_DeviceID p, mp_MetricName p, mp_Value p)) ps else [])"
proof (induction ps arbitrary: seen c w)
  case Nil
  then show ?case by simp
next
  case (Cons p ps)
  let ?k = "mp_DeviceID p @ '':'' @ mp_MetricName p"
  let ?t = "(mp_DeviceID p, mp_MetricName p, mp_Value p)"
  from Cons.prems obtain c1 w1 where
    inv: "(if ?k \<in> set seen then Some (c, w)
       else case InvalidateMetricCache E c (mp_DeviceID p) (mp_MetricName p) w of
         None \<Rightarrow> None | Some (_, c1, w1) \<Rightarrow> Some (c1, w1)) = Some (c1, w1)"
    by (auto simp: Let_def split: option.splits)
  with Cons.prems obtain r c2 w2 where
    ls: "markLastSeen E c1 (mp_DeviceID p) (mp_Timestamp p) w1 = (r, c2, w2)"
    and rest: "batch_effects E ev ps (if ?k \<in> set seen then seen else ?k # seen) c2
        (evaluateAsync ev (mp_DeviceID p) (mp_MetricName p) (mp_Value p) w2) = Some w'"
    by (auto simp: Let_def simp del: append.simps split: prod.splits)
  from inv have "db_part w1 = db_part w"
    by (auto simp del: append.simps split: if_splits option.splits dest: InvalidateMetricCache_db_part)
  with markLastSeen_db_part [OF ls] have same: "db_part w2 = db_part w" by simp
  let ?w3 = "evaluateAsync ev (mp_DeviceID p) (mp_MetricName p) (mp_Value p) w2"
  have tasks: "w_tasks ?w3 = w_tasks w @ (if ev then [?t] else [])"
    using db_partD(8) [OF same] by (simp add: evaluateAsync_def EvaluateAsync_def)
  have "db_part (?w3\<lparr>w_tasks := w_tasks w\<rparr>) = db_part w"
    using same by (cases w; cases w2) (simp add: evaluateAsync_def EvaluateAsync_def db_part_def)
  then have "tables_same (?w3\<lparr>w_tasks := w_tasks w\<rparr>) w" by (rule tables_same_db_part)
  moreover from Cons.IH [OF rest] have
    "tables_same (w'\<lparr>w_tasks := w_tasks ?w3\<rparr>) ?w3"
    "w_tasks w' = w_tasks ?w3 @ (if ev then map (\<lambda>p. (mp_DeviceID p, mp_MetricName p, mp_Value p)) ps else [])"
    by blast+
  ultimately show ?case using tasks
    by (cases w; cases w'; cases ?w3) (auto simp: tables_same_def)
qed

section \<open>The ways through a submission\<close>

lemma isDuplicate_Inr: "isDuplicate E d ts w = (r, w') \<Longrightarrow> \<exists>b. r = Inr b"
  by (auto simp: isDuplicate_def split: prod.splits sum.splits)

lemma submit_prefix_cases:
  obtains (invalid) e w1 where "validateAndResolveMetricTimestamp E req w = (Inl e, w1)"
      "submit_prefix E req w = (Inl (Inl (invalid_argument (err_msg e))), w1)"
  | (duplicate) ts w1 w2 where "validateAndResolveMetricTimestamp E req w = (Inr ts, w1)"
      "isDuplicate E (smr_DeviceId req) ts w1 = (Inr True, w2)"
      "submit_prefix E req w =
         (Inl (Inr \<lparr>smp_Success = True, smp_ServerTimestamp = pb_new ts,
                    smp_Message = ''duplicate ignored''\<rparr>), w2)"
  | (point) ts w1 w2 where "validateAndResolveMetricTimestamp E req w = (Inr ts, w1)"
      "isDuplicate E (smr_DeviceId req) ts w1 = (Inr False, w2)"
      "submit_prefix E req w = (Inr (metricPointFromRequest req ts), w2)"
proof (cases "validateAndResolveMetricTimestamp E req w")
  case (Pair r w1)
  show ?thesis
  proof (cases r)
    case (Inl e)
    with Pair show ?thesis by (intro invalid) (auto simp: submit_prefix_def)
  next
    case (Inr ts)
    obtain d w2 where d: "isDuplicate E (smr_DeviceId req) ts w1 = (d, w2)" by fastforce
    then obtain b where b: "d = Inr b" using isDuplicate_Inr by blast
    show ?thesis
    proof (cases b)
      case True
      with Pair Inr d b show ?thesis by (intro duplicate) (auto simp: submit_prefix_def)
    next
      case False
      with Pair Inr d b show ?thesis by (intro point) (auto simp: submit_prefix_def)
    qed
  qed
qed

lemma SubmitMetric_cases:
  assumes "SubmitMetric E ev req w = Some (r, w')"
  obtains (early) "submit_prefix E req w = (Inl r, w')"
  | (failed) point w1 e where "submit_prefix E req w = (Inr point, w1)"
      "InsertMetric E point w1 = (Some e, w')" "r = Inl (insertFailureStatus e False)"
  | (stored) point w1 w2 where "submit_prefix E req w = (Inr point, w1)"
      "InsertMetric E point w1 = (None, w2)" "postMetricWrite E ev point w2 = Some w'"
      "r = Inr (stored_response (mp_Timestamp point))"
  using assms by (auto simp: SubmitMetric_def split: prod.splits sum.splits option.splits)

lemma submit_prefix_early_message:
  "submit_prefix E req w = (Inl (Inr resp), w') \<Longrightarrow> smp_Message resp = ''duplicate ignored''"
  by (cases rule: submit_prefix_cases [where E = E and req = req and w = w]) auto

text \<open>
  The insert of a submission: the metric table grows by the point or, where the row's key was
  there already, stays.
\<close>

lemma InsertMetric_metrics:
  "InsertMetric E p w = (None, w') \<Longrightarrow>
   w_metrics w' = (if metric_key (row_of_point p) \<in> metric_keys w then w_metrics w
                   else w_metrics w @ [row_of_point p])"
  by (cases rule: InsertMetric_cases [where E = E and w = w and p = p]) (auto simp: metric_keys_def)

lemma InsertMetric_err_same: "InsertMetric E p w = (Some e, w') \<Longrightarrow> same_data w' w"
  by (cases rule: InsertMetric_cases [where E = E and w = w and p = p]) auto

lemma metric_keys_same: "w_metrics w' = w_metrics w \<Longrightarrow> metric_keys w' = metric_keys w"
  by (simp add: metric_keys_def)

text \<open>Every answer other than \<open>metric stored successfully\<close> leaves the metric table alone.\<close>

lemma SubmitMetric_not_stored:
  assumes "SubmitMetric E ev req w = Some (r, w')"
    "\<not> (\<exists>resp. r = Inr resp \<and> smp_Message resp = ''metric stored successfully'')"
  shows "w_metrics w' = w_metrics w"
  using assms(1)
proof (cases rule: SubmitMetric_cases)
  case early
  then show ?thesis using submit_prefix_same tables_sameD(1) by blast
next
  case (failed point w1 e)
  then show ?thesis using submit_prefix_same tables_sameD(1) InsertMetric_err_same same_dataD(1) by metis
next
  case (stored point w1 w2)
  with assms(2) show ?thesis by (simp add: stored_response_def)
qed

lemma SubmitMetric_stored:
  assumes "SubmitMetric E ev req w = Some (Inr resp, w')" "smp_Message resp = ''metric stored successfully''"
  obtains ts where "smp_ServerTimestamp resp = pb_new ts"
    "w_metrics w' = (let row = row_of_point (metricPointFromRequest req ts) in
       if metric_key row \<in> metric_keys w then w_metrics w else w_metrics w @ [row])"
    "metric_key (row_of_point (metricPointFromRequest req ts)) \<in> metric_keys w'"
    "smr_TimestampUnixSeconds req = unix_secs ts \<or> sint (smr_TimestampUnixSeconds req) \<le> 0"
    "w_tasks w' = w_tasks w @ (if ev then [(smr_DeviceId req, smr_MetricName req, smr_Value req)] else [])"
  using assms(1)
proof (cases rule: SubmitMetric_cases)
  case early
  then have "smp_Message resp = ''duplicate ignored''" by (rule submit_prefix_early_message)
  with assms(2) show ?thesis by simp
next
  case (stored point w1 w2)
  from stored(1) obtain ts w0 where ts: "validateAndResolveMetricTimestamp E req w = (Inr ts, w0)"
    "point = metricPointFromRequest req ts"
    by (cases rule: submit_prefix_cases [where E = E and req = req and w = w]) auto
  note same1 = tables_sameD [OF submit_prefix_same [OF stored(1)]]
  note post = postMetricWrite_effect [OF stored(3)]
  note m = tables_same_tasksD(1) [OF post(1)]
  have keys: "metric_keys w1 = metric_keys w" by (rule metric_keys_same [OF same1(1)])
  have "unix_secs ts = smr_TimestampUnixSeconds req \<or> sint (smr_TimestampUnixSeconds req) \<le> 0"
    using ts(1) by (cases rule: validateAndResolve_cases [where E = E and req = req and w = w]) auto
  moreover have "metric_key (row_of_point point) \<in> metric_keys w'"
    using tdb.insert_ok [OF stored(2)] metric_keys_same [OF m] by simp
  moreover have "w_tasks w2 = w_tasks w1"
    using same_dataD(8) [OF InsertMetric_frame(1) [OF stored(2)]] by simp
  ultimately show ?thesis
    using stored(4) InsertMetric_metrics [OF stored(2)] m keys same1 post(2) ts(2)
    by (intro that [of ts])
      (auto simp: stored_response_def Let_def metricPointFromRequest_def)
qed simp

text \<open>Without the write queue a submission always comes to its answer.\<close>

lemma SubmitMetric_returns: "SubmitMetric E ev req w \<noteq> None"
  using postMetricWrite_returns [of E ev]
  by (auto simp del: not_None_eq simp: SubmitMetric_def split: prod.splits sum.splits option.splits)

section \<open>Deduplication\<close>

lemma isDuplicate_live:
  assumes "e_redis E = Some R" "keeps_keys R live" "live (dedup_key d ts) (w_redis w)"
    "isDuplicate E d ts w = (Inr b, w')" "\<And>k v t r. \<exists>b r'. r_setnx R k v t r = (Inr b, r')"
  shows "b"
proof -
  from assms(5) obtain b' r' where s: "r_setnx R (dedup_key d ts) ''1'' dedupTTL (w_redis w) = (Inr b', r')"
    by blast
  from TryMarkDedup_live [OF assms(1-3) s] assms(4) show ?thesis by (simp add: isDuplicate_def)
qed

text \<open>A point that gets past the test has left its mark.\<close>

lemma submit_prefix_marks:
  assumes "e_redis E = Some R" "keeps_keys R live" "submit_prefix E req w = (Inr point, w')"
    "\<And>k v t r. \<exists>b r'. r_setnx R k v t r = (Inr b, r')"
  shows "live (dedup_key (smr_DeviceId req) (mp_Timestamp point)) (w_redis w')"
  using assms(3)
proof (cases rule: submit_prefix_cases [where E = E and req = req and w = w])
  case (point ts w1 w2)
  with assms(3) have eqs: "mp_Timestamp point = ts" "w' = w2"
    by (auto simp: metricPointFromRequest_def)
  from assms(4) obtain b r' where
    s: "r_setnx R (dedup_key (smr_DeviceId req) ts) ''1'' dedupTTL (w_redis w1) = (Inr b, r')" by blast
  then have mk: "TryMarkDedup E (smr_DeviceId req) ts dedupTTL w1 = (Inr b, w1\<lparr>w_redis := r'\<rparr>)"
    using assms(1) by (simp add: TryMarkDedup_def redis_do_def)
  with point(2) have "w2 = w1\<lparr>w_redis := r'\<rparr>" by (simp add: isDuplicate_def)
  with TryMarkDedup_marks(2) [OF assms(1,2) mk] s eqs show ?thesis by simp
qed auto

lemma InsertMetric_redis: "InsertMetric E p w = (r, w') \<Longrightarrow> w_redis w' = w_redis w"
  by (cases rule: InsertMetric_cases [where E = E and w = w and p = p]) auto

lemma postMetricWrite_live:
  assumes "postMetricWrite E ev p w = Some w'" "e_redis E = Some R" "keeps_keys R live" "scan_law R"
    "\<not> has_prefix k ''point:''" "\<not> has_prefix k ''stats:''" "live k (w_redis w)"
  shows "live k (w_redis w')"
proof -
  from assms(1) obtain r c1 w1 r2 c2 w2 where
    steps: "InvalidateMetricCache E (with_timeout E postMetricSideEffectTimeout w) (mp_DeviceID p) (mp_MetricName p) w = Some (r, c1, w1)"
    "markLastSeen E c1 (mp_DeviceID p) (mp_Timestamp p) w1 = (r2, c2, w2)"
    "w' = evaluateAsync ev (mp_DeviceID p) (mp_MetricName p) (mp_Value p) w2"
    by (rule postMetricWrite_cases)
  from InvalidateMetricCache_live [OF steps(1) assms(2-7)]
    markLastSeen_live [OF steps(2) assms(2,3)]
  have "live k (w_redis w2)" by blast
  with steps(3) show ?thesis by (simp add: evaluateAsync_def EvaluateAsync_def)
qed

text \<open>A submission that reached the insert, whatever came of it, has marked its second.\<close>

lemma SubmitMetric_marks:
  assumes "e_redis E = Some R" "keeps_keys R live" "scan_law R"
    "\<And>k v t r. \<exists>b r'. r_setnx R k v t r = (Inr b, r')"
    "SubmitMetric E ev req w = Some (r, w')" "submit_prefix E req w = (Inr point, w1)"
  shows "live (dedup_key (smr_DeviceId req) (mp_Timestamp point)) (w_redis w')"
proof -
  note mark = submit_prefix_marks [OF assms(1,2,6,4)]
  from assms(5) show ?thesis
  proof (cases rule: SubmitMetric_cases)
    case early
    with assms(6) show ?thesis by simp
  next
    case (failed p w1' e)
    with assms(6) mark InsertMetric_redis [of E p w1' "Some e" w'] show ?thesis by simp
  next
    case (stored p w1' w2)
    with assms(6) mark InsertMetric_redis [of E p w1' None w2]
    have "live (dedup_key (smr_DeviceId req) (mp_Timestamp point)) (w_redis w2)" by simp
    from postMetricWrite_live [OF stored(3) assms(1-3) dedup_key_not_cached this] show ?thesis .
  qed
qed

text \<open>The next submission for the marked second is answered as a duplicate.\<close>

lemma SubmitMetric_duplicate:
  assumes "e_redis E = Some R" "keeps_keys R live" "\<And>k v t r. \<exists>b r'. r_setnx R k v t r = (Inr b, r')"
    "validateAndResolveMetricTimestamp E req w = (Inr ts, w1)"
    "live (dedup_key (smr_DeviceId req) ts) (w_redis w)"
  shows "\<exists>w'. SubmitMetric E ev req w =
      Some (Inr \<lparr>smp_Success = True, smp_ServerTimestamp = pb_new ts,
                 smp_Message = ''duplicate ignored''\<rparr>, w') \<and> w_metrics w' = w_metrics w"
proof -
  have redis: "w_redis w1 = w_redis w"
    using assms(4) by (cases rule: validateAndResolve_cases [where E = E and req = req and w = w]) auto
  obtain d w2 where d: "isDuplicate E (smr_DeviceId req) ts w1 = (d, w2)" by fastforce
  then obtain b where b: "d = Inr b" using isDuplicate_Inr by blast
  have "b" using isDuplicate_live [OF assms(1,2) _ d [unfolded b] assms(3)] assms(5) redis by simp
  with assms(4) d b have "submit_prefix E req w =
      (Inl (Inr \<lparr>smp_Success = True, smp_ServerTimestamp = pb_new ts,
                 smp_Message = ''duplicate ignored''\<rparr>), w2)"
    by (simp add: submit_prefix_def)
  then show ?thesis
    using tables_sameD(1) [OF submit_prefix_same] by (simp add: SubmitMetric_def)
qed

section \<open>Batches\<close>

text \<open>A point a request may give: valid, with the request's time or the server's.\<close>

definition point_of :: "submit_metric_request list \<Rightarrow> metric_point \<Rightarrow> bool" where
  "point_of reqs p \<longleftrightarrow>
     (\<exists>req \<in> set reqs. validateSubmitRequest req = None \<and>
        p = metricPointFromRequest req (mp_Timestamp p) \<and>
        (0 < sint (smr_TimestampUnixSeconds req) \<longrightarrow>
           mp_Timestamp p = time_unix (smr_TimestampUnixSeconds req)))"

lemma batch_loop_step_cases:
  obtains (reject) w1 where "tables_same w1 w"
      "batch_loop E (req # reqs) ps n w = batch_loop E reqs ps (Suc n) w1"
  | (accept) ts w1 where "tables_same w1 w" "validateSubmitRequest req = None"
      "0 < sint (smr_TimestampUnixSeconds req) \<longrightarrow> ts = time_unix (smr_TimestampUnixSeconds req)"
      "batch_loop E (req # reqs) ps n w = batch_loop E reqs (ps @ [metricPointFromRequest req ts]) n w1"
proof (cases "validateAndResolveMetricTimestamp E req w")
  case (Pair r w1)
  note same1 = validateAndResolve_same [OF Pair]
  show thesis
  proof (cases r)
    case (Inl e)
    with Pair same1 show thesis by (intro reject) auto
  next
    case (Inr ts)
    obtain d w2 where d: "isDuplicate E (smr_DeviceId req) ts w1 = (d, w2)" by fastforce
    then obtain b where b: "d = Inr b" using isDuplicate_Inr by blast
    have same2: "tables_same w2 w" using isDuplicate_same [OF d] same1 by (rule tables_same_trans)
    have ts: "validateSubmitRequest req = None"
      "0 < sint (smr_TimestampUnixSeconds req) \<longrightarrow> ts = time_unix (smr_TimestampUnixSeconds req)"
      using Pair Inr by (cases rule: validateAndResolve_cases [where E = E and req = req and w = w]; auto)+
    show thesis
    proof (cases b)
      case True
      with Pair Inr d b same2 show thesis by (intro reject [of w2]) auto
    next
      case False
      with Pair Inr d b same2 ts show thesis by (intro accept [of w2 ts]) auto
    qed
  qed
qed

lemma point_of_Cons: "point_of reqs p \<Longrightarrow> point_of (req # reqs) p"
  by (auto simp: point_of_def)

lemma batch_loop_result:
  "batch_loop E reqs ps n w = ((out, k), w') \<Longrightarrow>
   tables_same w' w \<and> length out + k = length ps + n + length reqs \<and>
   (\<exists>new. out = ps @ new \<and> (\<forall>p \<in> set new. point_of reqs p))"
proof (induction reqs arbitrary: ps n w)
  case Nil
  then show ?case by simp
next
  case (Cons req reqs)
  show ?case
  proof (cases rule: batch_loop_step_cases [where E = E and req = req and reqs = reqs and ps = ps
        and n = n and w = w])
    case (reject w1)
    with Cons.prems have "batch_loop E reqs ps (Suc n) w1 = ((out, k), w')" by simp
    from Cons.IH [OF this] reject(1) show ?thesis
      by (auto intro: tables_same_trans point_of_Cons)
  next
    case (accept ts w1)
    with Cons.prems have
      "batch_loop E reqs (ps @ [metricPointFromRequest req ts]) n w1 = ((out, k), w')" by simp
    from Cons.IH [OF this] obtain new where
      ih: "tables_same w' w1" "length out + k = Suc (length ps) + n + length reqs"
      "out = (ps @ [metricPointFromRequest req ts]) @ new" "\<forall>p \<in> set new. point_of reqs p"
      by auto
    have "point_of (req # reqs) (metricPointFromRequest req ts)"
      using accept(2,3) by (auto simp: point_of_def metricPointFromRequest_def)
    with ih accept(1) show ?thesis
      by (auto intro!: exI [of _ "metricPointFromRequest req ts # new"]
          intro: tables_same_trans point_of_Cons)
  qed
qed

lemma batch_prefix_Inr:
  assumes "batch_prefix E reqs w = (Inr (points, resp), w')"
  obtains k where "tables_same w' w" "points \<noteq> []" "\<forall>p \<in> set points. point_of reqs p"
    "length points + k = length reqs" "length reqs \<le> 1000"
    "sbp_AcceptedCount resp = of_nat (length points)" "sbp_RejectedCount resp = of_nat k"
proof -
  from assms obtain k where b:
    "batch_loop E reqs [] 0 (w\<lparr>w_tick := Suc (w_tick w)\<rparr>) = ((points, k), w')" "points \<noteq> []"
    "length reqs \<le> 1000" "sbp_AcceptedCount resp = of_nat (length points)"
    "sbp_RejectedCount resp = of_nat k"
    by (auto simp: batch_prefix_def maxBatchSize_def time_now_def split: if_splits prod.splits)
  from batch_loop_result [OF b(1)] have
    "tables_same w' (w\<lparr>w_tick := Suc (w_tick w)\<rparr>)" "length points + k = length reqs"
    "\<forall>p \<in> set points. point_of reqs p" by auto
  moreover have "tables_same (w\<lparr>w_tick := Suc (w_tick w)\<rparr>) w" by (simp add: tables_same_def)
  ultimately show thesis using b by (intro that [of k]) (auto intro: tables_same_trans)
qed

lemma batch_prefix_same [frame]: "batch_prefix E reqs w = (r, w') \<Longrightarrow> tables_same w' w"
proof (cases r)
  case (Inr pr)
  then show "batch_prefix E reqs w = (r, w') \<Longrightarrow> tables_same w' w"
    by (cases pr) (auto elim: batch_prefix_Inr)
next
  case (Inl e)
  have "tables_same (w\<lparr>w_tick := Suc (w_tick w)\<rparr>) w" by (simp add: tables_same_def)
  then show "batch_prefix E reqs w = (r, w') \<Longrightarrow> tables_same w' w"
    using Inl by (auto simp: batch_prefix_def time_now_def split: if_splits prod.splits
        dest!: batch_loop_result intro: tables_same_trans)
qed

text \<open>A batch is written whole or not at all.\<close>

lemma SubmitBatch_ok:
  assumes "SubmitBatch E ev c reqs w = Some (Inr resp, w')"
  obtains points where "points \<noteq> []" "\<forall>p \<in> set points. point_of reqs p"
    "w_metrics w' = w_metrics w @ map row_of_point points"
    "unat (sbp_AcceptedCount resp) = length points"
    "unat (sbp_AcceptedCount resp) + unat (sbp_RejectedCount resp) = length reqs"
    "\<forall>p \<in> set points. mp_DeviceID p \<in> device_ids w"
proof -
  from assms obtain points w1 w2 where steps:
    "batch_prefix E reqs w = (Inr (points, resp), w1)" "InsertMetricBatch E points w1 = (None, w2)"
    "batch_effects E ev points [] c w2 = Some w'"
    by (auto simp: SubmitBatch_def split: prod.splits sum.splits option.splits)
  from steps(1) show thesis
  proof (cases rule: batch_prefix_Inr)
    case (1 k)
    note ins = InsertMetricBatch_ok [OF steps(2)]
    have m: "w_metrics w' = w_metrics w2"
      using tables_same_tasksD(1) batch_effects_effect [OF steps(3)] by blast
    have len: "length points < 2 ^ 32" "k < 2 ^ 32" using 1(4,5) by simp_all
    then have "unat (sbp_AcceptedCount resp) = length points" "unat (sbp_RejectedCount resp) = k"
      using 1(6,7) by (simp_all add: unat_of_nat take_bit_eq_mod)
    moreover have "device_ids w1 = device_ids w" using tables_sameD(2) [OF 1(1)] by (simp add: device_ids_def)
    ultimately show thesis
      using 1 ins m tables_sameD(1) [OF 1(1)] by (intro that [of points]) auto
  qed
qed

lemma SubmitBatch_err:
  "SubmitBatch E ev c reqs w = Some (Inl e, w') \<Longrightarrow> w_metrics w' = w_metrics w"
  by (auto simp: SubmitBatch_def split: prod.splits sum.splits option.splits
      dest!: batch_prefix_same InsertMetricBatch_err tables_sameD(1) same_dataD(1))

section \<open>The invariant of the metric table\<close>

lemma metrics_inv_cong:
  "w_metrics w' = w_metrics w \<Longrightarrow> w_devices w' = w_devices w \<Longrightarrow> metrics_inv w' = metrics_inv w"
  by (simp add: metrics_inv_def device_ids_def)

lemma SubmitMetric_inv [inv_intros]:
  assumes "SubmitMetric E ev req w = Some (r, w')" "metrics_inv w"
  shows "metrics_inv w'"
  using assms(1)
proof (cases rule: SubmitMetric_cases)
  case early
  note same = tables_sameD [OF submit_prefix_same [OF early]]
  show ?thesis using metrics_inv_cong [OF same(1,2)] assms(2) by simp
next
  case (failed point w1 e)
  note same = tables_sameD [OF submit_prefix_same [OF failed(1)]]
  have "metrics_inv w1" using metrics_inv_cong [OF same(1,2)] assms(2) by simp
  from InsertMetric_inv [OF failed(2) this] show ?thesis .
next
  case (stored point w1 w2)
  note same = tables_sameD [OF submit_prefix_same [OF stored(1)]]
  have "metrics_inv w1" using metrics_inv_cong [OF same(1,2)] assms(2) by simp
  from InsertMetric_inv [OF stored(2) this] have "metrics_inv w2" .
  moreover note post = tables_same_tasksD [OF postMetricWrite_effect(1) [OF stored(3)]]
  ultimately show ?thesis using metrics_inv_cong [OF post(1,2)] by simp
qed

lemma SubmitBatch_inv [inv_intros]:
  assumes "SubmitBatch E ev c reqs w = Some (r, w')" "metrics_inv w"
  shows "metrics_inv w'"
proof -
  obtain q w1 where q: "batch_prefix E reqs w = (q, w1)" by fastforce
  note same = tables_sameD [OF batch_prefix_same [OF q]]
  have inv1: "metrics_inv w1" using metrics_inv_cong [OF same(1,2)] assms(2) by simp
  show ?thesis
  proof (cases q)
    case (Inl e)
    with assms(1) q inv1 show ?thesis by (simp add: SubmitBatch_def)
  next
    case (Inr pr)
    obtain points resp where pr: "pr = (points, resp)" by fastforce
    obtain x w2 where x: "InsertMetricBatch E points w1 = (x, w2)" by fastforce
    from InsertMetricBatch_inv [OF x inv1] have inv2: "metrics_inv w2" .
    with assms(1) q Inr pr x consider "w' = w2" | "batch_effects E ev points [] c w2 = Some w'"
      by (auto simp: SubmitBatch_def split: option.splits)
    then show ?thesis
    proof cases
      case 1
      with inv2 show ?thesis by simp
    next
      case 2
      note eff = tables_same_tasksD [OF conjunct1 [OF batch_effects_effect [OF 2]]]
      show ?thesis using metrics_inv_cong [OF eff(1,2)] inv2 by simp
    qed
  qed
qed

section \<open>Queries: what is sent\<close>

text \<open>
  A query that ends without an error has sent, one point per message, the page of the ordered
  rows of the range, and every message carries the number of all rows of the range.
\<close>

definition range_rows :: "query_metrics_request \<Rightarrow> gotime \<times> gotime \<Rightarrow> metric_row list \<Rightarrow> metric_row list" where
  "range_rows req rg rows =
     order_rows (qmr_OrderAscending req)
       (filter (\<lambda>r. mr_DeviceID r = qmr_DeviceId req \<and> mr_MetricName r = qmr_MetricName req \<and>
                    fst rg \<le> mr_Time r \<and> mr_Time r \<le> snd rg) rows)"

definition page_limit :: "query_metrics_request \<Rightarrow> i32" where
  "page_limit req = (if qmr_Limit req = 0 then 100 else qmr_Limit req)"

lemma query_range_same: "query_range E a b w = (r, w') \<Longrightarrow> same_data w' w"
  by (auto simp: query_range_def time_now_def Let_def split: if_splits)

lemma QueryMetrics_handler_sent:
  assumes "QueryMetrics_handler E req w = ((sent, None), w')"
  obtains rg w1 where
    "query_range E (qmr_StartTime req) (qmr_EndTime req) w = (rg, w1)" "same_data w' w"
    "1 \<le> sint (page_limit req)" "sint (page_limit req) \<le> 10000" "0 \<le> sint (qmr_Offset req)"
    "concat (map qmp_Points sent) = map (pb_of_point \<circ> scanMetricPoint)
       (window (nat (sint (qmr_Offset req))) (nat (sint (page_limit req)))
         (range_rows req rg (w_metrics w)))"
    "\<forall>m \<in> set sent. qmp_TotalCount m = of_nat (length (range_rows req rg (w_metrics w))) \<and>
       qmp_HasMore m = has_more (qmr_Offset req) (page_limit req) (qmp_TotalCount m)"
proof -
  define req1 where "req1 = (if qmr_Limit req = 0 then req\<lparr>qmr_Limit := 100\<rparr> else req)"
  have req1: "qmr_Limit req1 = page_limit req" "qmr_Offset req1 = qmr_Offset req"
    "qmr_DeviceId req1 = qmr_DeviceId req" "qmr_MetricName req1 = qmr_MetricName req"
    "qmr_StartTime req1 = qmr_StartTime req" "qmr_EndTime req1 = qmr_EndTime req"
    "qmr_OrderAscending req1 = qmr_OrderAscending req"
    by (simp_all add: req1_def page_limit_def)
  obtain rg w1 where rg: "query_range E (qmr_StartTime req) (qmr_EndTime req) w = (rg, w1)"
    by fastforce
  define f where "f = \<lparr>qf_DeviceID = qmr_DeviceId req, qf_MetricName = qmr_MetricName req,
    qf_StartTime = fst rg, qf_EndTime = snd rg, qf_Limit = page_limit req,
    qf_Offset = qmr_Offset req, qf_OrderAscending = qmr_OrderAscending req\<rparr>"
  have valid: "validateQueryRequest req1 = None"
    using assms by (auto simp: QueryMetrics_handler_def Let_def req1_def [symmetric] split: option.splits)
  obtain x w2 where q: "QueryMetrics E f w1 = (x, w2)" by fastforce
  obtain c w3 where c: "QueryMetricsCount E f w2 = (c, w3)" by fastforce
  from assms valid rg q obtain points where x: "x = Inr points"
    by (cases x) (auto simp: QueryMetrics_handler_def Let_def req1_def [symmetric] req1 f_def
        split: prod.splits)
  from assms valid rg q x c obtain n where n: "c = Inr n"
    by (cases c) (auto simp: QueryMetrics_handler_def Let_def req1_def [symmetric] req1 f_def
        split: prod.splits)
  have send: "send_all E [] (map (\<lambda>p. \<lparr>qmp_Points = [pb_of_point p],
      qmp_HasMore = has_more (qmr_Offset req) (page_limit req) n, qmp_TotalCount = n\<rparr>) points) w3 =
      ((sent, None), w')"
    using assms valid rg q x c n
    by (auto simp: QueryMetrics_handler_def Let_def req1_def [symmetric] req1 f_def
        split: prod.splits option.splits)
  from send_all_result [OF send] have sent: "sent = map (\<lambda>p. \<lparr>qmp_Points = [pb_of_point p],
      qmp_HasMore = has_more (qmr_Offset req) (page_limit req) n, qmp_TotalCount = n\<rparr>) points"
    and same3: "same_data w' w3" by auto
  note same1 = query_range_same [OF rg]
  note same2 = QueryMetrics_same_data [OF q [unfolded x]]
  have same: "same_data w' w"
    using same3 QueryMetricsCount_same_data [OF c] same2 same1 by (meson same_data_trans)
  have m: "w_metrics w1 = w_metrics w" "w_metrics w2 = w_metrics w"
    using same_dataD(1) [OF same1] same_dataD(1) [OF same2] by simp_all
  have fm: "filter_matches f = (\<lambda>r. mr_DeviceID r = qmr_DeviceId req \<and>
      mr_MetricName r = qmr_MetricName req \<and> fst rg \<le> mr_Time r \<and> mr_Time r \<le> snd rg)"
    by (simp add: fun_eq_iff filter_matches_def f_def)
  have rows: "order_rows (qmr_OrderAscending req) (filter (filter_matches f) (w_metrics w)) =
      range_rows req rg (w_metrics w)"
    by (simp add: range_rows_def fm)
  note ps = QueryMetrics_Inr [OF q [unfolded x]]
  have n_eq: "n = of_nat (length (range_rows req rg (w_metrics w)))"
    using c n m rows [symmetric] by (auto simp: QueryMetricsCount_def ext_fault_def split: option.splits if_splits)
  show thesis
  proof (rule that [OF rg same])
    show "1 \<le> sint (page_limit req)" "sint (page_limit req) \<le> 10000" "0 \<le> sint (qmr_Offset req)"
      using ps(1) by (auto simp: validateQueryFilter_def f_def split: if_splits)
    have "points = map scanMetricPoint (window (nat (sint (qmr_Offset req)))
        (nat (sint (page_limit req))) (range_rows req rg (w_metrics w)))"
      using ps(2) rows m(1) by (simp add: f_def)
    then show "concat (map qmp_Points sent) = map (pb_of_point \<circ> scanMetricPoint)
       (window (nat (sint (qmr_Offset req))) (nat (sint (page_limit req)))
         (range_rows req rg (w_metrics w)))"
      by (simp add: sent comp_def)
  qed (simp add: sent n_eq)
qed

text \<open>Within the range of \<open>int32\<close>, \<open>HasMore\<close> says whether rows follow the page.\<close>

lemma has_more_exact:
  assumes "0 \<le> sint off" "0 \<le> sint lm" "sint off + sint lm < 2 ^ 31" "n < 2 ^ 31"
  shows "has_more off lm (of_nat n) \<longleftrightarrow> nat (sint off) + nat (sint lm) < n"
proof -
  have s: "sint (off + lm) = sint off + sint lm"
    using assms(1-3) by (simp add: sint_word_ariths signed_take_bit_int_eq_self)
  have c: "sint (int32_of_int64 (of_nat n)) = int n"
  proof -
    have "int32_of_int64 (of_nat n) = of_nat n"
      by (simp add: int32_of_int64_def unsigned_of_nat) (rule bit_word_eqI, simp add: bit_simps)
    then show ?thesis using assms(4) by (simp add: signed_of_nat signed_take_bit_int_eq_self)
  qed
  show ?thesis using assms(1,2) by (simp add: has_more_def s c) linarith
qed

end
