(* ===== verification/WriteQueue.thy ===== *)
theory WriteQueue
  imports TelemetryService
begin

text \<open>
  The telemetry service with a write queue (\<open>telemetry_service.go\<close>, \<open>writeCh\<close>): handlers put
  jobs on a bounded channel, one worker takes them, writes and answers on the job's \<open>done\<close>
  channel, and starts or performs the side effects. The parts run concurrently: a step relation
  over the state of the channel, the worker, the handlers and the started goroutines.
\<close>

section \<open>State\<close>

record write_job =
  wj_call :: nat
  wj_points :: "metric_point list"

datatype reply = MetricReply submit_metric_response | BatchReply submit_batch_response

text \<open>
  A handler that is running or has returned: the points it queued, its answer if they are
  stored, what its \<open>done\<close> channel holds and its result. \<open>cl_points\<close> is empty for a handler that
  returned without queueing.
\<close>

record call =
  cl_batch :: bool
  cl_points :: "metric_point list"
  cl_reply :: reply
  cl_done :: "go_error option option"
  cl_result :: "(grpc_error + reply) option"

text \<open>
  The worker between two jobs, in the side effects of a batch, or after its \<open>return\<close>. The flag
  \<open>qs_canceled\<close> says whether \<open>writeCancel\<close> was called.
\<close>

datatype worker = Idle | Effects "metric_point list" | Stopped

record 'r queue_state =
  qs_world :: "'r world"
  qs_queue :: "write_job list"
  qs_worker :: worker
  qs_canceled :: bool
  qs_calls :: "call list"
  qs_post :: "metric_point list"

definition initial_queue_state :: "'r world \<Rightarrow> 'r queue_state" where
  "initial_queue_state w =
     \<lparr>qs_world = w, qs_queue = [], qs_worker = Idle, qs_canceled = False, qs_calls = [],
      qs_post = []\<rparr>"

section \<open>Handlers\<close>

datatype request = MetricReq submit_metric_request | BatchReq "submit_metric_request list"

text \<open>What a handler does before it queues: its result, or the job's parts.\<close>

definition handler_prefix ::
    "'r env \<Rightarrow> request \<Rightarrow> 'r world \<Rightarrow>
     ((grpc_error + reply) + (bool \<times> metric_point list \<times> reply)) \<times> 'r world" where
  "handler_prefix E req w =
     (case req of
        MetricReq r \<Rightarrow>
          (case submit_prefix E r w of
             (Inl (Inl e), w1) \<Rightarrow> (Inl (Inl e), w1)
           | (Inl (Inr resp), w1) \<Rightarrow> (Inl (Inr (MetricReply resp)), w1)
           | (Inr point, w1) \<Rightarrow>
               (Inr (False, [point], MetricReply (stored_response (mp_Timestamp point))), w1))
      | BatchReq rs \<Rightarrow>
          (case batch_prefix E rs w of
             (Inl e, w1) \<Rightarrow> (Inl (Inl e), w1)
           | (Inr (points, resp), w1) \<Rightarrow> (Inr (True, points, BatchReply resp), w1)))"

text \<open>The channel: a send succeeds while there is room and is refused when it is full.\<close>

definition try_send :: "nat \<Rightarrow> 'a \<Rightarrow> 'a list \<Rightarrow> 'a list \<times> 'a list" where
  "try_send cap x q = (if length q < cap then ([], q @ [x]) else ([x], q))"

definition returned :: "grpc_error + reply \<Rightarrow> call" where
  "returned res = \<lparr>cl_batch = False, cl_points = [], cl_reply = MetricReply (stored_response zero_time),
     cl_done = None, cl_result = Some res\<rparr>"

text \<open>The \<open>select\<close> that queues the job, with the context not done.\<close>

definition submit_call ::
    "'r env \<Rightarrow> nat \<Rightarrow> request \<Rightarrow> 'r queue_state \<Rightarrow> 'r queue_state" where
  "submit_call E cap req s =
     (case handler_prefix E req (qs_world s) of
        (Inl res, w1) \<Rightarrow> s\<lparr>qs_world := w1, qs_calls := qs_calls s @ [returned res]\<rparr>
      | (Inr (batch, points, rep), w1) \<Rightarrow>
          (case try_send cap \<lparr>wj_call = length (qs_calls s), wj_points = points\<rparr> (qs_queue s) of
             ([], q) \<Rightarrow>
               s\<lparr>qs_world := w1, qs_queue := q, qs_calls := qs_calls s @
                 [\<lparr>cl_batch = batch, cl_points = points, cl_reply = rep, cl_done = None,
                   cl_result = None\<rparr>]\<rparr>
           | (_ # _, q) \<Rightarrow>
               s\<lparr>qs_world := w1, qs_calls := qs_calls s @
                 [returned (Inl (Status ResourceExhausted ''metric write queue full''))]\<rparr>))"

text \<open>The same \<open>select\<close> taking the branch of the done context.\<close>

definition submit_canceled ::
    "'r env \<Rightarrow> request \<Rightarrow> 'r queue_state \<Rightarrow> 'r queue_state" where
  "submit_canceled E req s =
     (case handler_prefix E req (qs_world s) of
        (Inl res, w1) \<Rightarrow> s\<lparr>qs_world := w1, qs_calls := qs_calls s @ [returned res]\<rparr>
      | (Inr _, w1) \<Rightarrow>
          s\<lparr>qs_world := w1, qs_calls := qs_calls s @
            [returned (Inl (Status Canceled ''request canceled''))]\<rparr>)"

text \<open>The second \<open>select\<close>: the answer arrives, or the context is done first.\<close>

definition finish_call :: "call \<Rightarrow> go_error option \<Rightarrow> call" where
  "finish_call c r =
     c\<lparr>cl_result := Some (case r of Some e \<Rightarrow> Inl (insertFailureStatus e (cl_batch c))
                          | None \<Rightarrow> Inr (cl_reply c))\<rparr>"

definition from_context_error :: "go_error \<Rightarrow> grpc_error" where
  "from_context_error e =
     (if err_is e ErrDeadlineExceeded then Status DeadlineExceeded (err_msg e)
      else if err_is e ErrCanceled then Status Canceled (err_msg e)
      else Status Unknown (err_msg e))"

section \<open>Worker\<close>

text \<open>The write of a job: a single point by \<open>InsertMetric\<close>, more by \<open>InsertMetricBatch\<close>.\<close>

definition write_points ::
    "'r env \<Rightarrow> metric_point list \<Rightarrow> 'r world \<Rightarrow> go_error option \<times> 'r world" where
  "write_points E points w =
     (if length points = 1 then InsertMetric E (hd points) w else InsertMetricBatch E points w)"

definition worker_write :: "'r env \<Rightarrow> 'r queue_state \<Rightarrow> 'r queue_state option" where
  "worker_write E s =
     (case (qs_worker s, qs_queue s) of
        (Idle, job # jobs) \<Rightarrow>
          (case write_points E (wj_points job) (qs_world s) of
             (err, w1) \<Rightarrow>
               (let s1 = s\<lparr>qs_world := w1, qs_queue := jobs, qs_calls :=
                       (qs_calls s)[wj_call job := (qs_calls s ! wj_call job)\<lparr>cl_done := Some err\<rparr>]\<rparr> in
                Some (if err \<noteq> None then s1
                      else if length (wj_points job) = 1
                      then s1\<lparr>qs_post := qs_post s @ [hd (wj_points job)]\<rparr>
                      else s1\<lparr>qs_worker := Effects (wj_points job)\<rparr>)))
      | _ \<Rightarrow> None)"

text \<open>The effects run under the worker's own context.\<close>

definition worker_effects :: "'r env \<Rightarrow> bool \<Rightarrow> ctx \<Rightarrow> 'r queue_state \<Rightarrow> 'r queue_state option" where
  "worker_effects E ev c s =
     (case qs_worker s of
        Effects points \<Rightarrow>
          map_option (\<lambda>w1. s\<lparr>qs_world := w1, qs_worker := Idle\<rparr>)
            (batch_effects E ev points [] c (qs_world s))
      | _ \<Rightarrow> None)"

text \<open>One of the goroutines \<open>go s.postMetricWrite(...)\<close> runs to its end.\<close>

definition run_post :: "'r env \<Rightarrow> bool \<Rightarrow> nat \<Rightarrow> 'r queue_state \<Rightarrow> 'r queue_state option" where
  "run_post E ev i s =
     (if i < length (qs_post s)
      then map_option (\<lambda>w1. s\<lparr>qs_world := w1, qs_post := take i (qs_post s) @ drop (Suc i) (qs_post s)\<rparr>)
             (postMetricWrite E ev (qs_post s ! i) (qs_world s))
      else None)"

text \<open>
  \<open>StopWriteWorker\<close> cancels the worker's context; the worker returns when its \<open>select\<close> takes the
  branch of the done context. Where a job waits too, the \<open>select\<close> may still take the job.
\<close>

definition StopWriteWorker :: "'r queue_state \<Rightarrow> 'r queue_state" where
  "StopWriteWorker s = s\<lparr>qs_canceled := True\<rparr>"

definition worker_exit :: "'r queue_state \<Rightarrow> 'r queue_state option" where
  "worker_exit s =
     (if qs_worker s = Idle \<and> qs_canceled s then Some (s\<lparr>qs_worker := Stopped\<rparr>) else None)"

section \<open>Steps\<close>

text \<open>
  The worker's context is done only by \<open>StopWriteWorker\<close>: where that was called, the effects
  under way go on for some number of Redis calls, and fail from then on.
\<close>

inductive qstep :: "'r env \<Rightarrow> bool \<Rightarrow> nat \<Rightarrow> 'r queue_state \<Rightarrow> 'r queue_state \<Rightarrow> bool"
  for E :: "'r env" and ev :: bool and cap :: nat where
  submit: "qstep E ev cap s (submit_call E cap req s)"
| canceled: "qstep E ev cap s (submit_canceled E req s)"
| work: "worker_write E s = Some s' \<Longrightarrow> qstep E ev cap s s'"
| effects: "c = None \<or> qs_canceled s \<Longrightarrow> worker_effects E ev c s = Some s' \<Longrightarrow> qstep E ev cap s s'"
| post: "run_post E ev i s = Some s' \<Longrightarrow> qstep E ev cap s s'"
| answer: "i < length (qs_calls s) \<Longrightarrow> cl_result (qs_calls s ! i) = None \<Longrightarrow>
    cl_done (qs_calls s ! i) = Some r \<Longrightarrow>
    qstep E ev cap s (s\<lparr>qs_calls := (qs_calls s)[i := finish_call (qs_calls s ! i) r]\<rparr>)"
| expired: "i < length (qs_calls s) \<Longrightarrow> cl_result (qs_calls s ! i) = None \<Longrightarrow>
    qstep E ev cap s (s\<lparr>qs_calls := (qs_calls s)[i :=
      (qs_calls s ! i)\<lparr>cl_result := Some (Inl (from_context_error e))\<rparr>]\<rparr>)"
| stop: "qstep E ev cap s (StopWriteWorker s)"
| exit: "worker_exit s = Some s' \<Longrightarrow> qstep E ev cap s s'"

lemma StopWriteWorker_simps [simp]:
  "qs_world (StopWriteWorker s) = qs_world s" "qs_queue (StopWriteWorker s) = qs_queue s"
  "qs_calls (StopWriteWorker s) = qs_calls s" "qs_worker (StopWriteWorker s) = qs_worker s"
  "qs_post (StopWriteWorker s) = qs_post s" "qs_canceled (StopWriteWorker s)"
  by (simp_all add: StopWriteWorker_def)

lemma worker_exit_Some:
  "worker_exit s = Some s' \<Longrightarrow> qs_worker s = Idle \<and> qs_canceled s \<and> s' = s\<lparr>qs_worker := Stopped\<rparr>"
  by (simp add: worker_exit_def split: if_splits)

inductive_cases qstepE: "qstep E ev cap s s'"

interpretation wq: bounded_buffer cap "try_send cap" for cap :: nat
  by unfold_locales (auto simp: try_send_def split: if_splits)

section \<open>What an answer means\<close>

text \<open>
  The invariant: a queued job belongs to a handler that waits for it with the job's points; no
  two jobs to one handler; where a handler's channel holds success, or the handler has
  answered success, its points are in the table.
\<close>

definition stored_points :: "'r queue_state \<Rightarrow> metric_point list \<Rightarrow> bool" where
  "stored_points s ps \<longleftrightarrow> (\<lambda>p. metric_key (row_of_point p)) ` set ps \<subseteq> metric_keys (qs_world s)"

definition call_ok :: "'r queue_state \<Rightarrow> call \<Rightarrow> bool" where
  "call_ok s c \<longleftrightarrow>
     (cl_done c = Some None \<longrightarrow> stored_points s (cl_points c)) \<and>
     (\<forall>rep. cl_result c = Some (Inr rep) \<longrightarrow> cl_points c = [] \<or> stored_points s (cl_points c) \<and> rep = cl_reply c)"

definition queue_inv :: "nat \<Rightarrow> 'r queue_state \<Rightarrow> bool" where
  "queue_inv cap s \<longleftrightarrow>
     length (qs_queue s) \<le> cap \<and> distinct_by wj_call (qs_queue s) \<and>
     (\<forall>j \<in> set (qs_queue s). wj_call j < length (qs_calls s) \<and>
        cl_points (qs_calls s ! wj_call j) = wj_points j \<and> cl_done (qs_calls s ! wj_call j) = None) \<and>
     (\<forall>c \<in> set (qs_calls s). call_ok s c)"

lemma call_ok_mono:
  "call_ok s c \<Longrightarrow> metric_keys (qs_world s) \<subseteq> metric_keys (qs_world s') \<Longrightarrow> call_ok s' c"
  by (auto simp: call_ok_def stored_points_def)

lemma call_ok_returned: "call_ok s (returned res)"
  by (simp add: call_ok_def returned_def)

lemma handler_prefix_same [frame]: "handler_prefix E req w = (r, w') \<Longrightarrow> tables_same w' w"
  by (auto simp: handler_prefix_def split: request.splits prod.splits sum.splits
      dest: submit_prefix_same batch_prefix_same)

lemma write_points_keys:
  "write_points E ps w = (r, w') \<Longrightarrow>
   metric_keys w \<subseteq> metric_keys w' \<and>
   (r = None \<longrightarrow> (\<lambda>p. metric_key (row_of_point p)) ` set ps \<subseteq> metric_keys w')"
  unfolding write_points_def by (frule bdb.write_keys) simp

lemma tables_same_keys: "tables_same w' w \<Longrightarrow> metric_keys w' = metric_keys w"
  by (rule metric_keys_same) (rule tables_sameD)

text \<open>The key sets grow with every step.\<close>

lemma qstep_keys:
  assumes "qstep E ev cap s s'"
  shows "metric_keys (qs_world s) \<subseteq> metric_keys (qs_world s')"
  using assms
proof (cases rule: qstep.cases)
  case (submit req)
  obtain r w1 where "handler_prefix E req (qs_world s) = (r, w1)" by fastforce
  with handler_prefix_same [THEN tables_same_keys] submit show ?thesis
    by (fastforce simp: submit_call_def split: sum.splits prod.splits list.splits)
next
  case (canceled req)
  obtain r w1 where "handler_prefix E req (qs_world s) = (r, w1)" by fastforce
  with handler_prefix_same [THEN tables_same_keys] canceled show ?thesis
    by (fastforce simp: submit_canceled_def split: sum.splits prod.splits)
next
  case work
  then obtain ps err w1 where "write_points E ps (qs_world s) = (err, w1)" "qs_world s' = w1"
    by (auto simp: worker_write_def Let_def split: worker.splits list.splits prod.splits)
  then show ?thesis using write_points_keys by blast
next
  case (effects c)
  then obtain ps w1 where "batch_effects E ev ps [] c (qs_world s) = Some w1" "qs_world s' = w1"
    by (auto simp: worker_effects_def split: worker.splits)
  then show ?thesis
    using metric_keys_same [OF tables_same_tasksD(1)] batch_effects_effect by blast
next
  case (post i)
  then obtain p w1 where "postMetricWrite E ev p (qs_world s) = Some w1" "qs_world s' = w1"
    by (auto simp: run_post_def split: if_splits)
  then show ?thesis
    using metric_keys_same [OF tables_same_tasksD(1)] postMetricWrite_effect(1) by blast
qed (auto dest: worker_exit_Some)

section \<open>The invariant is kept\<close>

lemma queue_inv_initial: "queue_inv cap (initial_queue_state w)"
  by (simp add: queue_inv_def initial_queue_state_def)

lemma queue_inv_add_returned:
  assumes "queue_inv cap s" "tables_same w1 (qs_world s)"
  shows "queue_inv cap (s\<lparr>qs_world := w1, qs_calls := qs_calls s @ [returned res]\<rparr>)"
proof -
  let ?s = "s\<lparr>qs_world := w1, qs_calls := qs_calls s @ [returned res]\<rparr>"
  have "call_ok ?s c" if "call_ok s c" for c
    by (rule call_ok_mono [OF that]) (simp add: tables_same_keys [OF assms(2)])
  with assms(1) show ?thesis
    by (auto simp: queue_inv_def nth_append call_ok_returned)
qed

lemma queue_inv_submit:
  assumes "queue_inv cap s"
  shows "queue_inv cap (submit_call E cap req s)"
proof (cases "handler_prefix E req (qs_world s)")
  case (Pair r w1)
  note same = handler_prefix_same [OF Pair]
  show ?thesis
  proof (cases r)
    case (Inl res)
    with Pair queue_inv_add_returned [OF assms same] show ?thesis by (simp add: submit_call_def)
  next
    case (Inr parts)
    obtain batch points rep where parts: "parts = (batch, points, rep)" by (cases parts)
    let ?job = "\<lparr>wj_call = length (qs_calls s), wj_points = points\<rparr>"
    show ?thesis
    proof (cases "length (qs_queue s) < cap")
      case False
      with Pair Inr parts queue_inv_add_returned [OF assms same] show ?thesis
        by (simp add: submit_call_def try_send_def)
    next
      case True
      let ?c = "\<lparr>cl_batch = batch, cl_points = points, cl_reply = rep, cl_done = None, cl_result = None\<rparr>"
      let ?s = "s\<lparr>qs_world := w1, qs_queue := qs_queue s @ [?job], qs_calls := qs_calls s @ [?c]\<rparr>"
      have s': "submit_call E cap req s = ?s"
        using Pair Inr parts True by (simp add: submit_call_def try_send_def)
      have old: "call_ok ?s c" if "call_ok s c" for c
        by (rule call_ok_mono [OF that]) (simp add: tables_same_keys [OF same])
      have new: "call_ok ?s ?c" by (simp add: call_ok_def)
      have fresh: "length (qs_calls s) \<notin> wj_call ` set (qs_queue s)"
        using assms by (auto simp: queue_inv_def)
      show ?thesis unfolding s' using assms True old new fresh
        by (auto simp: queue_inv_def nth_append)
    qed
  qed
qed

lemma queue_inv_canceled:
  assumes "queue_inv cap s"
  shows "queue_inv cap (submit_canceled E req s)"
proof (cases "handler_prefix E req (qs_world s)")
  case (Pair r w1)
  with queue_inv_add_returned [OF assms handler_prefix_same [OF Pair]] show ?thesis
    by (cases r) (simp_all add: submit_canceled_def split: prod.splits)
qed

lemma queue_inv_world:
  assumes "queue_inv cap s" "metric_keys (qs_world s) \<subseteq> metric_keys (qs_world s')"
    "qs_queue s' = qs_queue s" "qs_calls s' = qs_calls s"
  shows "queue_inv cap s'"
  using assms call_ok_mono [of s _ s'] by (auto simp: queue_inv_def)

lemma queue_inv_work:
  assumes "queue_inv cap s" "worker_write E s = Some s'"
  shows "queue_inv cap s'"
proof -
  from assms(2) obtain job jobs err w1 where
    q: "qs_queue s = job # jobs" and wr: "write_points E (wj_points job) (qs_world s) = (err, w1)"
    and s': "qs_world s' = w1" "qs_queue s' = jobs"
      "qs_calls s' = (qs_calls s)[wj_call job := (qs_calls s ! wj_call job)\<lparr>cl_done := Some err\<rparr>]"
    by (auto simp: worker_write_def Let_def split: worker.splits list.splits prod.splits)
  note keys = write_points_keys [OF wr]
  let ?i = "wj_call job" and ?c = "qs_calls s ! wj_call job"
  from assms(1) q have i: "?i < length (qs_calls s)" "cl_points ?c = wj_points job"
    "cl_done ?c = None" "\<forall>j \<in> set jobs. wj_call j \<noteq> ?i" "distinct_by wj_call jobs"
    "Suc (length jobs) \<le> cap"
    by (auto simp: queue_inv_def image_iff)
  have old: "call_ok s' c" if "c \<in> set (qs_calls s)" for c
    using assms(1) that keys s'(1) by (auto simp: queue_inv_def intro: call_ok_mono)
  have "call_ok s' ?c" using i(1) by (intro old) simp
  then have "call_ok s' (?c\<lparr>cl_done := Some err\<rparr>)"
    using keys i(2) s'(1) by (simp add: call_ok_def stored_points_def)
  then have "\<forall>c \<in> set (qs_calls s'). call_ok s' c"
    unfolding s'(3) using old set_update_subset_insert by fastforce
  moreover have "\<forall>j \<in> set jobs. wj_call j < length (qs_calls s) \<and>
      cl_points (qs_calls s ! wj_call j) = wj_points j \<and> cl_done (qs_calls s ! wj_call j) = None"
    using assms(1) q by (simp add: queue_inv_def)
  ultimately show ?thesis
    using i(4-6) by (auto simp: queue_inv_def s'(2,3))
qed

lemma queue_inv_set_call:
  assumes "queue_inv cap s" "i < length (qs_calls s)" "call_ok s c'"
    "cl_points c' = cl_points (qs_calls s ! i)" "cl_done c' = cl_done (qs_calls s ! i)"
  shows "queue_inv cap (s\<lparr>qs_calls := (qs_calls s)[i := c']\<rparr>)"
proof -
  let ?s = "s\<lparr>qs_calls := (qs_calls s)[i := c']\<rparr>"
  have ok: "call_ok ?s c = call_ok s c" for c by (simp add: call_ok_def stored_points_def)
  have "\<forall>c \<in> set ((qs_calls s)[i := c']). call_ok s c"
    using assms(1,3) set_update_subset_insert by (fastforce simp: queue_inv_def)
  then show ?thesis using assms by (auto simp: queue_inv_def ok nth_list_update)
qed

lemma qstep_inv:
  assumes "qstep E ev cap s s'" "queue_inv cap s"
  shows "queue_inv cap s'"
  using assms(1)
proof (cases rule: qstep.cases)
  case (submit req)
  with queue_inv_submit [OF assms(2)] show ?thesis by simp
next
  case (canceled req)
  with queue_inv_canceled [OF assms(2)] show ?thesis by simp
next
  case work
  with queue_inv_work [OF assms(2)] show ?thesis by simp
next
  case (effects c)
  then have "qs_queue s' = qs_queue s" "qs_calls s' = qs_calls s"
    by (auto simp: worker_effects_def split: worker.splits)
  with queue_inv_world [OF assms(2) qstep_keys [OF assms(1)]] show ?thesis by simp
next
  case (post i)
  then have "qs_queue s' = qs_queue s" "qs_calls s' = qs_calls s"
    by (auto simp: run_post_def split: if_splits)
  with queue_inv_world [OF assms(2) qstep_keys [OF assms(1)]] show ?thesis by simp
next
  case (answer i r)
  let ?c = "qs_calls s ! i"
  have "call_ok s ?c" using assms(2) answer(2) by (simp add: queue_inv_def)
  with answer(4) have "call_ok s (finish_call ?c r)"
    by (cases r) (auto simp: call_ok_def finish_call_def)
  with queue_inv_set_call [OF assms(2) answer(2)] answer(1) show ?thesis
    by (simp add: finish_call_def)
next
  case (expired i e)
  let ?c = "qs_calls s ! i"
  have "call_ok s ?c" using assms(2) expired(2) by (simp add: queue_inv_def)
  then have "call_ok s (?c\<lparr>cl_result := Some (Inl (from_context_error e))\<rparr>)"
    by (simp add: call_ok_def)
  with queue_inv_set_call [OF assms(2) expired(2)] expired(1) show ?thesis by simp
next
  case stop
  with queue_inv_world [OF assms(2) qstep_keys [OF assms(1)]] show ?thesis by simp
next
  case exit
  with queue_inv_world [OF assms(2) qstep_keys [OF assms(1)]] show ?thesis by (auto dest: worker_exit_Some)
qed

interpretation qinv: step_invariant "qstep E ev cap" "queue_inv cap"
  for E :: "'r env" and ev cap
  by unfold_locales (rule qstep_inv)

section \<open>A worker in a loop over \<open>SCAN\<close>\<close>

text \<open>
  A Redis whose \<open>SCAN\<close> from cursor 0 always leaves a further page: one with more keys than the
  server visits in a call.
\<close>

definition paged_law :: "'r redis_ops \<Rightarrow> bool" where
  "paged_law R \<longleftrightarrow>
     (\<forall>p r. \<exists>keys c r'. r_scan R 0 p 0 r = (Inr (keys, c), r') \<and> c \<noteq> 0) \<and>
     (\<forall>ks r. \<exists>n r'. r_del R ks r = (Inr n, r'))"

lemma paged_law_paged_redis: "paged_law paged_redis"
  by (simp add: paged_law_def paged_redis_def mem_redis_def)

lemma scan_del_loop_paged:
  assumes "paged_law R"
  shows "scan_del_loop R sm dm 0 p None w = None"
proof (rule scan_del_loop_diverges [where J = "\<lambda>_. True"])
  fix w :: "'a world"
  from assms obtain keys c r' where s: "r_scan R 0 p 0 (w_redis w) = (Inr (keys, c), r')" "c \<noteq> 0"
    unfolding paged_law_def by blast
  from assms obtain n r2 where d: "r_del R keys r' = (Inr n, r2)" unfolding paged_law_def by blast
  show "\<exists>keys c' w1. redis_do (r_scan R 0 p 0) w = (Inr (keys, c'), w1) \<and> c' \<noteq> 0 \<and>
       (keys = [] \<and> True \<or> keys \<noteq> [] \<and> (\<exists>n w2. redis_do (r_del R keys) w1 = (Inr n, w2) \<and> True))"
    using s d by (cases keys) (auto simp: redis_do_def)
qed simp

lemma batch_effects_paged:
  assumes "e_redis E = Some R" "paged_law R" "ps \<noteq> []"
  shows "batch_effects E ev ps [] None w = None"
  using assms by (cases ps) (simp_all add: InvalidateMetricCache_def scan_del_loop_paged)

text \<open>As long as it is not told to stop, the worker stays in its loop and the queue never gets shorter.\<close>

lemma qstep_canceled: "qstep E ev cap s s' \<Longrightarrow> qs_canceled s \<Longrightarrow> qs_canceled s'"
  by (erule qstep.cases)
    (auto simp: submit_call_def submit_canceled_def worker_write_def worker_effects_def run_post_def Let_def
      split: sum.splits prod.splits list.splits worker.splits if_splits dest: worker_exit_Some)

interpretation qcancel: step_invariant "qstep E ev cap" qs_canceled
  for E :: "'r env" and ev cap
  by unfold_locales (rule qstep_canceled)

lemma stuck_worker_step:
  assumes "e_redis E = Some R" "paged_law R" "ps \<noteq> []" "\<not> qs_canceled s" "qs_worker s = Effects ps"
    "qstep E ev cap s s'"
  shows "qs_worker s' = Effects ps \<and> prefix (qs_queue s) (qs_queue s')"
  using assms(6)
proof (cases rule: qstep.cases)
  case (submit req)
  with assms(5) show ?thesis
    by (auto simp: submit_call_def try_send_def split: prod.splits sum.splits list.splits)
next
  case (canceled req)
  with assms(5) show ?thesis by (auto simp: submit_canceled_def split: prod.splits sum.splits)
next
  case work
  with assms(5) show ?thesis by (simp add: worker_write_def)
next
  case (effects c)
  with assms(4,5) batch_effects_paged [OF assms(1-3)] show ?thesis by (simp add: worker_effects_def)
next
  case (post i)
  with assms(5) show ?thesis by (auto simp: run_post_def split: if_splits)
qed (use assms(5) in \<open>auto dest: worker_exit_Some\<close>)

lemma stuck_worker:
  "(qstep E ev cap)\<^sup>*\<^sup>* s s' \<Longrightarrow> e_redis E = Some R \<Longrightarrow> paged_law R \<Longrightarrow> ps \<noteq> [] \<Longrightarrow>
   qs_worker s = Effects ps \<Longrightarrow> \<not> qs_canceled s' \<Longrightarrow>
   qs_worker s' = Effects ps \<and> prefix (qs_queue s) (qs_queue s')"
proof (induction rule: rtranclp_induct)
  case (step s1 s2)
  then have "\<not> qs_canceled s1" using qstep_canceled by blast
  with step show ?case using stuck_worker_step [of E R ps s1 ev cap s2] by (auto intro: prefix_order.trans)
qed simp

section \<open>Calls that queued nothing\<close>

text \<open>
  A call that queued nothing has returned, and its only success is the answer to a duplicate.
\<close>

definition early_ok :: "call \<Rightarrow> bool" where
  "early_ok c \<longleftrightarrow>
     (cl_points c = [] \<longrightarrow> (\<exists>res. cl_result c = Some res \<and>
        (\<forall>rep. res = Inr rep \<longrightarrow>
           (\<exists>resp. rep = MetricReply resp \<and> smp_Message resp = ''duplicate ignored''))))"

lemma handler_prefix_early:
  assumes "handler_prefix E req w = (Inl res, w')"
  shows "early_ok (returned res)"
  using assms submit_prefix_early_message
  by (fastforce simp: handler_prefix_def early_ok_def returned_def
      split: request.splits prod.splits sum.splits)

lemma handler_prefix_points:
  assumes "handler_prefix E req w = (Inr (batch, points, rep), w')"
  shows "points \<noteq> []"
  using assms by (auto simp: handler_prefix_def split: request.splits prod.splits sum.splits
      elim: batch_prefix_Inr)

text \<open>What the two invariants of a call say of an answer.\<close>

lemma call_acknowledged:
  assumes "call_ok s c" "early_ok c" "cl_result c = Some (Inr rep)"
  shows "if cl_points c = []
    then \<exists>resp. rep = MetricReply resp \<and> smp_Message resp = ''duplicate ignored''
    else rep = cl_reply c \<and>
      (\<lambda>p. metric_key (row_of_point p)) ` set (cl_points c) \<subseteq> metric_keys (qs_world s)"
  using assms by (auto simp: call_ok_def early_ok_def stored_points_def)

lemma early_ok_error: "early_ok (returned (Inl e))"
  by (simp add: early_ok_def returned_def)

lemma early_ok_same: "early_ok c \<Longrightarrow> cl_points c' = cl_points c \<Longrightarrow> cl_points c \<noteq> [] \<Longrightarrow> early_ok c'"
  by (simp add: early_ok_def)

lemma early_ok_update:
  assumes "\<forall>c \<in> set cs. early_ok c" "i < length cs" "early_ok c'"
  shows "\<forall>c \<in> set (cs[i := c']). early_ok c"
  using assms set_update_subset_insert by fastforce

lemma early_ok_waiting: "early_ok c \<Longrightarrow> cl_result c = None \<Longrightarrow> cl_points c \<noteq> []"
  by (auto simp: early_ok_def)

lemma early_ok_done: "early_ok c \<Longrightarrow> early_ok (c\<lparr>cl_done := d\<rparr>)"
  by (simp add: early_ok_def)

lemma worker_write_calls:
  assumes "worker_write E s = Some s'"
  obtains job jobs err where "qs_worker s = Idle" "qs_queue s = job # jobs" "qs_queue s' = jobs"
    "qs_calls s' = (qs_calls s)[wj_call job := (qs_calls s ! wj_call job)\<lparr>cl_done := Some err\<rparr>]"
  using assms
  by (auto simp: worker_write_def Let_def split: worker.splits list.splits prod.splits if_splits)

lemma early_ok_work:
  assumes "\<forall>c \<in> set (qs_calls s). early_ok c" "worker_write E s = Some s'"
  shows "\<forall>c \<in> set (qs_calls s'). early_ok c"
proof -
  from assms(2) obtain job :: write_job and err where
    s': "qs_calls s' = (qs_calls s)[wj_call job := (qs_calls s ! wj_call job)\<lparr>cl_done := Some err\<rparr>]"
    by (elim worker_write_calls) blast
  show ?thesis
  proof (cases "wj_call job < length (qs_calls s)")
    case True
    with assms(1) show ?thesis unfolding s' by (intro early_ok_update early_ok_done) auto
  next
    case False
    with assms(1) s' show ?thesis by (simp add: list_update_beyond)
  qed
qed

lemma qstep_early:
  assumes "qstep E ev cap s s'" "\<forall>c \<in> set (qs_calls s). early_ok c"
  shows "\<forall>c \<in> set (qs_calls s'). early_ok c"
  using assms(1)
proof (cases rule: qstep.cases)
  case (submit req)
  with assms(2) show ?thesis
    by (auto simp: submit_call_def early_ok_error dest: handler_prefix_early handler_prefix_points
        split: sum.splits prod.splits list.splits) (auto simp: early_ok_def dest: handler_prefix_points)
next
  case (canceled req)
  with assms(2) show ?thesis
    by (auto simp: submit_canceled_def early_ok_error dest: handler_prefix_early split: sum.splits prod.splits)
next
  case work
  with early_ok_work assms(2) show ?thesis by blast
next
  case effects
  with assms(2) show ?thesis by (auto simp: worker_effects_def split: worker.splits)
next
  case (post i)
  with assms(2) show ?thesis by (auto simp: run_post_def split: if_splits)
next
  case (answer i r)
  have "early_ok (qs_calls s ! i)" using assms(2) answer(2) by simp
  then have "early_ok (finish_call (qs_calls s ! i) r)"
    using early_ok_waiting answer(3) by (auto simp: finish_call_def early_ok_def)
  with early_ok_update [OF assms(2) answer(2)] answer(1) show ?thesis by simp
next
  case (expired i e)
  have "early_ok ((qs_calls s ! i)\<lparr>cl_result := Some (Inl (from_context_error e))\<rparr>)"
    by (simp add: early_ok_def)
  with early_ok_update [OF assms(2) expired(2)] expired(1) show ?thesis by simp
qed (use assms(2) in \<open>auto dest: worker_exit_Some\<close>)

interpretation qearly: step_invariant "qstep E ev cap" "\<lambda>s. \<forall>c \<in> set (qs_calls s). early_ok c"
  for E :: "'r env" and ev cap
  by unfold_locales (rule qstep_early)

lemma early_ok_initial: "\<forall>c \<in> set (qs_calls (initial_queue_state w)). early_ok c"
  by (simp add: initial_queue_state_def)

section \<open>Draining\<close>

lemma worker_idle:
  assumes "qs_canceled s \<or> (\<forall>ps w. batch_effects E ev ps [] None w \<noteq> None)" "qs_worker s \<noteq> Stopped"
  shows "\<exists>s'. (qstep E ev cap)\<^sup>*\<^sup>* s s' \<and> qs_worker s' = Idle \<and> qs_queue s' = qs_queue s \<and>
    qs_calls s' = qs_calls s"
proof (cases "qs_worker s")
  case (Effects ps)
  from assms(1) have "\<exists>c. (c = None \<or> qs_canceled s) \<and> batch_effects E ev ps [] c (qs_world s) \<noteq> None"
    using batch_effects_returns [of E ev ps "[]" 0 "qs_world s"] by blast
  then obtain c w1 where c: "c = None \<or> qs_canceled s" "batch_effects E ev ps [] c (qs_world s) = Some w1"
    by blast
  with Effects have "worker_effects E ev c s = Some (s\<lparr>qs_world := w1, qs_worker := Idle\<rparr>)"
    by (simp add: worker_effects_def)
  from qstep.effects [OF c(1) this] show ?thesis by (intro exI conjI, rule r_into_rtranclp) auto
qed (use assms(2) in auto)

text \<open>Once told to stop, the worker can always come to its \<open>return\<close>, whatever Redis answers.\<close>

lemma canceled_worker_stops:
  assumes "qs_canceled s"
  shows "\<exists>s'. (qstep E ev cap)\<^sup>*\<^sup>* s s' \<and> qs_worker s' = Stopped"
proof (cases "qs_worker s = Stopped")
  case False
  with assms obtain s1 where s1: "(qstep E ev cap)\<^sup>*\<^sup>* s s1" "qs_worker s1 = Idle"
    using worker_idle [of s E ev cap] by blast
  from s1(1) assms have "qs_canceled s1" by (rule qcancel.run_kept)
  with s1(2) have "worker_exit s1 = Some (s1\<lparr>qs_worker := Stopped\<rparr>)" by (simp add: worker_exit_def)
  from rtranclp.rtrancl_into_rtrancl [OF s1(1) qstep.exit [OF this]] show ?thesis by (intro exI conjI) auto
qed auto

lemma worker_write_done:
  assumes "qs_worker s = Idle" "qs_queue s = job # jobs"
  obtains s' where "worker_write E s = Some s'" "qs_queue s' = jobs" "qs_worker s' \<noteq> Stopped"
    "length (qs_calls s') = length (qs_calls s)"
    "\<forall>i < length (qs_calls s). i = wj_call job \<or> cl_done (qs_calls s ! i) \<noteq> None \<longrightarrow>
       cl_done (qs_calls s' ! i) \<noteq> None"
proof -
  have "worker_write E s \<noteq> None"
    using assms by (simp add: worker_write_def Let_def split: prod.splits)
  then obtain s' where s': "worker_write E s = Some s'" by blast
  then have "qs_worker s' \<noteq> Stopped"
    using assms by (auto simp: worker_write_def Let_def split: prod.splits if_splits)
  moreover obtain err where q: "qs_queue s' = jobs"
    "qs_calls s' = (qs_calls s)[wj_call job := (qs_calls s ! wj_call job)\<lparr>cl_done := Some err\<rparr>]"
    using s' assms by (elim worker_write_calls) auto
  have "cl_done (qs_calls s' ! i) \<noteq> None"
    if "i < length (qs_calls s)" "i = wj_call job \<or> cl_done (qs_calls s ! i) \<noteq> None" for i
    using that by (cases "wj_call job = i") (auto simp: q(2))
  ultimately show thesis by (intro that [OF s' q(1)]) (simp_all add: q(2))
qed

text \<open>
  Where the loops of the cache end, a worker that has not returned can empty the queue, and every handler whose job
  was queued then has an answer on its channel.
\<close>

lemma queue_drains:
  assumes "\<forall>ps w. batch_effects E ev ps [] None w \<noteq> None"
  shows "\<forall>j \<in> set (qs_queue s). wj_call j < length (qs_calls s) \<Longrightarrow> qs_worker s \<noteq> Stopped \<Longrightarrow>
    \<exists>s'. (qstep E ev cap)\<^sup>*\<^sup>* s s' \<and> qs_queue s' = [] \<and> length (qs_calls s') = length (qs_calls s) \<and>
      (\<forall>i < length (qs_calls s). i \<in> wj_call ` set (qs_queue s) \<or> cl_done (qs_calls s ! i) \<noteq> None \<longrightarrow>
         cl_done (qs_calls s' ! i) \<noteq> None)"
proof (induction "qs_queue s" arbitrary: s)
  case Nil
  then show ?case by (intro exI [of _ s]) auto
next
  case (Cons job jobs)
  obtain s1 where s1: "(qstep E ev cap)\<^sup>*\<^sup>* s s1" "qs_worker s1 = Idle" "qs_queue s1 = job # jobs"
    "qs_calls s1 = qs_calls s"
    using worker_idle [OF disjI2 [OF assms] Cons.prems(2), of cap] Cons.hyps(2) by metis
  obtain s2 where s2: "worker_write E s1 = Some s2" "qs_queue s2 = jobs"
    and run2: "qs_worker s2 \<noteq> Stopped" and s2':
    "length (qs_calls s2) = length (qs_calls s)"
    "\<forall>i < length (qs_calls s). i = wj_call job \<or> cl_done (qs_calls s ! i) \<noteq> None \<longrightarrow>
       cl_done (qs_calls s2 ! i) \<noteq> None"
    using worker_write_done [OF s1(2,3), of E] s1(4) by metis
  note s2 = s2 s2'
  have "\<forall>j \<in> set (qs_queue s2). wj_call j < length (qs_calls s2)"
    using Cons.prems(1) Cons.hyps(2) [symmetric] s2(2,3) by simp
  from Cons.hyps(1) [OF s2(2) [symmetric] this run2] obtain s3 where
    s3: "(qstep E ev cap)\<^sup>*\<^sup>* s2 s3" "qs_queue s3 = []" "length (qs_calls s3) = length (qs_calls s2)"
    "\<forall>i < length (qs_calls s2). i \<in> wj_call ` set (qs_queue s2) \<or> cl_done (qs_calls s2 ! i) \<noteq> None \<longrightarrow>
       cl_done (qs_calls s3 ! i) \<noteq> None" by blast
  have "(qstep E ev cap)\<^sup>*\<^sup>* s s3"
    using s1(1) qstep.work [OF s2(1)] s3(1) by (meson rtranclp.rtrancl_into_rtrancl rtranclp_trans)
  moreover have "cl_done (qs_calls s3 ! i) \<noteq> None"
    if "i < length (qs_calls s)" "i \<in> wj_call ` set (qs_queue s) \<or> cl_done (qs_calls s ! i) \<noteq> None" for i
    using that s2 s3(4) Cons.hyps(2) [symmetric] by auto
  ultimately show ?case using s2(3) s3(2,3) by (intro exI [of _ s3]) auto
qed

section \<open>Shutdown\<close>

text \<open>
  A call that queued its points answers success only after its channel held success; a job that
  is still queued has points, and belongs to a call that has not succeeded.
\<close>

definition waits_ok :: "call \<Rightarrow> bool" where
  "waits_ok c \<longleftrightarrow> cl_points c \<noteq> [] \<longrightarrow> (\<forall>rep. cl_result c = Some (Inr rep) \<longrightarrow> cl_done c = Some None)"

definition wait_inv :: "'r queue_state \<Rightarrow> bool" where
  "wait_inv s \<longleftrightarrow> (\<forall>j \<in> set (qs_queue s). wj_points j \<noteq> []) \<and> (\<forall>c \<in> set (qs_calls s). waits_ok c)"

lemma waits_ok_returned [simp]: "waits_ok (returned res)"
  by (simp add: waits_ok_def returned_def)

lemma wait_inv_update:
  "wait_inv s \<Longrightarrow> waits_ok c' \<Longrightarrow> set q \<subseteq> set (qs_queue s) \<Longrightarrow>
   wait_inv (s\<lparr>qs_queue := q, qs_calls := (qs_calls s)[i := c']\<rparr>)"
  using set_update_subset_insert by (fastforce simp: wait_inv_def)

lemma wait_inv_cong:
  "wait_inv s \<Longrightarrow> qs_queue s' = qs_queue s \<Longrightarrow> qs_calls s' = qs_calls s \<Longrightarrow> wait_inv s'"
  by (simp add: wait_inv_def)

lemma wait_inv_work:
  assumes "queue_inv cap s" "wait_inv s" "worker_write E s = Some s'"
  shows "wait_inv s'"
proof -
  from assms(3) obtain job jobs err where q: "qs_queue s = job # jobs" "qs_queue s' = jobs"
    "qs_calls s' = (qs_calls s)[wj_call job := (qs_calls s ! wj_call job)\<lparr>cl_done := Some err\<rparr>]"
    by (elim worker_write_calls) blast
  let ?c = "qs_calls s ! wj_call job"
  have "wj_call job < length (qs_calls s)" "cl_done ?c = None" "cl_points ?c = wj_points job"
    "wj_points job \<noteq> []" using assms(1,2) q(1) by (auto simp: queue_inv_def wait_inv_def)
  moreover from this(1) have "waits_ok ?c" using assms(2) by (simp add: wait_inv_def)
  ultimately have "waits_ok (?c\<lparr>cl_done := Some err\<rparr>)" by (simp add: waits_ok_def)
  with q(1) have "wait_inv (s\<lparr>qs_queue := jobs, qs_calls := (qs_calls s)[wj_call job := ?c\<lparr>cl_done := Some err\<rparr>]\<rparr>)"
    by (intro wait_inv_update [OF assms(2)]) auto
  with q show ?thesis by (simp add: wait_inv_def)
qed

lemma wait_inv_submit: "wait_inv s \<Longrightarrow> wait_inv (submit_call E cap req s)"
  by (auto simp: wait_inv_def submit_call_def waits_ok_def try_send_def returned_def
      split: sum.splits prod.splits list.splits if_splits dest!: handler_prefix_points)

lemma qstep_wait_inv:
  assumes "qstep E ev cap s s'" "queue_inv cap s" "wait_inv s"
  shows "wait_inv s'"
  using assms(1)
proof (cases rule: qstep.cases)
  case (submit req)
  with wait_inv_submit [OF assms(3)] show ?thesis by simp
next
  case (canceled req)
  with assms(3) show ?thesis
    by (auto simp: wait_inv_def submit_canceled_def split: sum.splits prod.splits)
next
  case work
  with wait_inv_work [OF assms(2,3)] show ?thesis by simp
next
  case effects
  then show ?thesis by (intro wait_inv_cong [OF assms(3)]) (auto simp: worker_effects_def split: worker.splits)
next
  case (post i)
  then show ?thesis by (intro wait_inv_cong [OF assms(3)]) (auto simp: run_post_def split: if_splits)
next
  case (answer i r)
  then have "waits_ok (finish_call (qs_calls s ! i) r)"
    by (auto simp: waits_ok_def finish_call_def split: option.splits)
  from wait_inv_update [OF assms(3) this subset_refl, of i] answer(1) show ?thesis by simp
next
  case (expired i e)
  have "waits_ok ((qs_calls s ! i)\<lparr>cl_result := Some (Inl (from_context_error e))\<rparr>)"
    by (simp add: waits_ok_def)
  from wait_inv_update [OF assms(3) this subset_refl, of i] expired(1) show ?thesis by simp
next
  case stop
  then show ?thesis by (intro wait_inv_cong [OF assms(3)]) auto
next
  case exit
  then show ?thesis by (intro wait_inv_cong [OF assms(3)]) (auto dest: worker_exit_Some)
qed

interpretation qwait: step_invariant "qstep E ev cap" "\<lambda>s. queue_inv cap s \<and> wait_inv s"
  for E :: "'r env" and ev cap
  by unfold_locales (auto dest: qstep_inv qstep_wait_inv)

lemma wait_inv_initial: "wait_inv (initial_queue_state w)"
  by (simp add: wait_inv_def initial_queue_state_def)

lemma queued_not_succeeded:
  assumes "queue_inv cap s" "wait_inv s" "j \<in> set (qs_queue s)"
  shows "wj_call j < length (qs_calls s)" "cl_done (qs_calls s ! wj_call j) = None"
    "cl_result (qs_calls s ! wj_call j) \<noteq> Some (Inr rep)"
proof -
  let ?c = "qs_calls s ! wj_call j"
  have q: "wj_call j < length (qs_calls s)" "cl_points ?c = wj_points j" "cl_done ?c = None"
    "wj_points j \<noteq> []" using assms by (auto simp: queue_inv_def wait_inv_def)
  moreover from q(1) have "waits_ok ?c" using assms(2) by (simp add: wait_inv_def)
  ultimately show "wj_call j < length (qs_calls s)" "cl_done ?c = None" "cl_result ?c \<noteq> Some (Inr rep)"
    by (auto simp: waits_ok_def)
qed

text \<open>After its return the worker stays away: no row is added and no job is taken any more.\<close>

lemma stopped_step:
  assumes "qs_worker s = Stopped" "qstep E ev cap s s'"
  shows "qs_worker s' = Stopped \<and> prefix (qs_queue s) (qs_queue s') \<and>
    w_metrics (qs_world s') = w_metrics (qs_world s)"
  using assms(2)
proof (cases rule: qstep.cases)
  case (submit req)
  obtain r w1 where p: "handler_prefix E req (qs_world s) = (r, w1)" by fastforce
  with handler_prefix_same [OF p, THEN tables_sameD(1)] submit assms(1) show ?thesis
    by (auto simp: submit_call_def try_send_def split: sum.splits prod.splits list.splits)
next
  case (canceled req)
  obtain r w1 where p: "handler_prefix E req (qs_world s) = (r, w1)" by fastforce
  with handler_prefix_same [OF p, THEN tables_sameD(1)] canceled assms(1) show ?thesis
    by (auto simp: submit_canceled_def split: sum.splits prod.splits)
next
  case (post i)
  then obtain p w1 where "postMetricWrite E ev p (qs_world s) = Some w1" "s' = s\<lparr>qs_world := w1,
      qs_post := take i (qs_post s) @ drop (Suc i) (qs_post s)\<rparr>"
    by (auto simp: run_post_def split: if_splits)
  with tables_same_tasksD(1) [OF postMetricWrite_effect(1)] assms(1) show ?thesis by fastforce
qed (use assms(1) in \<open>auto simp: worker_write_def worker_effects_def dest: worker_exit_Some\<close>)

interpretation qstopped: step_order "qstep E ev cap" "\<lambda>s. qs_worker s = Stopped"
    "\<lambda>s s'. prefix (qs_queue s) (qs_queue s') \<and> w_metrics (qs_world s') = w_metrics (qs_world s)"
  for E :: "'r env" and ev cap
  by unfold_locales (auto dest: stopped_step intro: prefix_order.trans)

end
