(* ===== verification/DeviceDB.thy ===== *)
theory DeviceDB
  imports AlertDB
begin

text \<open>
  \<open>internal/db/device_db.go\<close> over the tables \<open>devices\<close> and \<open>device_certificates\<close> of
  \<open>migrations/001_init_device_registry.sql\<close>. The driver reports an empty result as
  \<open>pgx.ErrNoRows\<close>, a value different from the \<open>sql.ErrNoRows\<close> the code compares with.
\<close>

section \<open>Constraints\<close>

definition device_statuses :: "string list" where
  "device_statuses = [''active'', ''silent'', ''degraded'', ''inactive'']"

definition device_checks :: "device \<Rightarrow> (bool \<times> string) list" where
  "device_checks d =
     [text_ok [dv_DeviceID d, dv_Floor d, dv_DeviceType d, dv_FirmwareVersion d, dv_Status d,
               dv_CertificateCN d],
      varchar_ok 255 (dv_DeviceID d), varchar_ok 100 (dv_Floor d), varchar_ok 100 (dv_DeviceType d),
      varchar_ok 50 (dv_FirmwareVersion d), varchar_ok 20 (dv_Status d),
      varchar_ok 255 (dv_CertificateCN d), (dv_Status d \<in> set device_statuses, ''23514'')]"

definition certificate_checks :: "device_certificate \<Rightarrow> (bool \<times> string) list" where
  "certificate_checks c =
     [text_ok [dc_DeviceID c, dc_CertificatePEM c, dc_CertificateHash c],
      varchar_ok 255 (dc_DeviceID c), varchar_ok 255 (dc_CertificateHash c)]"

section \<open>Creation\<close>

definition sql_insert_device ::
    "'r env \<Rightarrow> device \<Rightarrow> 'r world \<Rightarrow> go_error option \<times> 'r world" where
  "sql_insert_device E d w =
     (case first_violation (device_checks d) of
        Some code \<Rightarrow> (Some (pg_error E code), w)
      | None \<Rightarrow>
          if dv_DeviceID d \<in> dv_DeviceID ` set (w_devices w) then (Some (pg_error E ''23505''), w)
          else (None, w\<lparr>w_devices := w_devices w @ [d]\<rparr>))"

text \<open>The row's \<open>revoked_at\<close> is NULL: the statement does not name the column.\<close>

definition sql_insert_certificate ::
    "'r env \<Rightarrow> device_certificate \<Rightarrow> 'r world \<Rightarrow> go_error option \<times> 'r world" where
  "sql_insert_certificate E c w =
     (let row = c\<lparr>dc_RevokedAt := None\<rparr> in
      case first_violation (certificate_checks row) of
        Some code \<Rightarrow> (Some (pg_error E code), w)
      | None \<Rightarrow>
          if dc_CertificateHash row \<in> dc_CertificateHash ` set (w_certs w)
          then (Some (pg_error E ''23505''), w)
          else if dc_DeviceID row \<notin> dv_DeviceID ` set (w_devices w)
          then (Some (pg_error E ''23503''), w)
          else (None, w\<lparr>w_certs := w_certs w @ [row]\<rparr>))"

text \<open>\<open>tx.Rollback\<close>: the tables of the transaction's start, the reads made since then kept.\<close>

definition rollback :: "'r world \<Rightarrow> 'r world \<Rightarrow> 'r world" where
  "rollback before w = w\<lparr>w_devices := w_devices before, w_certs := w_certs before\<rparr>"

definition CreateDevice_db ::
    "'r env \<Rightarrow> device \<Rightarrow> device_certificate \<Rightarrow> 'r world \<Rightarrow> go_error option \<times> 'r world" where
  "CreateDevice_db E device cert w =
     (case ext_fault E w of
        (Some e, w0) \<Rightarrow> (Some (ErrWrap ''failed to start transaction'' e), w0)
      | (None, w0) \<Rightarrow>
     (case ext_fault E w0 of
        (Some e, w1) \<Rightarrow> (Some (ErrWrap ''failed to insert device'' e), rollback w w1)
      | (None, w1) \<Rightarrow>
     (case sql_insert_device E device w1 of
        (Some e, w2) \<Rightarrow> (Some (ErrWrap ''failed to insert device'' e), rollback w w2)
      | (None, w2) \<Rightarrow>
     (case ext_fault E w2 of
        (Some e, w3) \<Rightarrow> (Some (ErrWrap ''failed to insert certificate'' e), rollback w w3)
      | (None, w3) \<Rightarrow>
     (case sql_insert_certificate E cert w3 of
        (Some e, w4) \<Rightarrow> (Some (ErrWrap ''failed to insert certificate'' e), rollback w w4)
      | (None, w4) \<Rightarrow>
     (case ext_fault E w4 of
        (Some e, w5) \<Rightarrow> (Some (ErrWrap ''failed to commit transaction'' e), rollback w w5)
      | (None, w5) \<Rightarrow> (None, w5)))))))"

section \<open>Reading\<close>

definition sql_select_device ::
    "'r env \<Rightarrow> string \<Rightarrow> 'r world \<Rightarrow> (go_error + device) \<times> 'r world" where
  "sql_select_device E deviceID w =
     (case ext_fault E w of
        (Some e, w1) \<Rightarrow> (Inl e, w1)
      | (None, w1) \<Rightarrow>
          if \<not> no_nul deviceID then (Inl (pg_error E ''22021''), w1)
          else (case List.find (\<lambda>d. dv_DeviceID d = deviceID) (w_devices w1) of
                  None \<Rightarrow> (Inl ErrPgxNoRows, w1)
                | Some d \<Rightarrow> (Inr d, w1)))"

definition GetDevice_db ::
    "'r env \<Rightarrow> string \<Rightarrow> 'r world \<Rightarrow> (go_error + device) \<times> 'r world" where
  "GetDevice_db E deviceID w =
     (case sql_select_device E deviceID w of
        (Inl e, w1) \<Rightarrow>
          (if e = ErrSqlNoRows then (Inl ErrSqlNoRows, w1)
           else (Inl (ErrWrap ''failed to query device'' e), w1))
      | (Inr d, w1) \<Rightarrow> (Inr d, w1))"

definition sql_select_certificate ::
    "'r env \<Rightarrow> string \<Rightarrow> 'r world \<Rightarrow> (go_error + device_certificate) \<times> 'r world" where
  "sql_select_certificate E deviceID w =
     (case ext_fault E w of
        (Some e, w1) \<Rightarrow> (Inl e, w1)
      | (None, w1) \<Rightarrow>
          if \<not> no_nul deviceID then (Inl (pg_error E ''22021''), w1)
          else (case sort_desc dc_ExpiresAt (filter (\<lambda>c. dc_DeviceID c = deviceID \<and>
                       dc_RevokedAt c = None) (w_certs w1)) of
                  [] \<Rightarrow> (Inl ErrPgxNoRows, w1)
                | c # cs \<Rightarrow> (Inr c, w1)))"

definition GetDeviceCertificate ::
    "'r env \<Rightarrow> string \<Rightarrow> 'r world \<Rightarrow> (go_error + device_certificate) \<times> 'r world" where
  "GetDeviceCertificate E deviceID w =
     (case sql_select_certificate E deviceID w of
        (Inl e, w1) \<Rightarrow>
          (if e = ErrSqlNoRows then (Inl ErrSqlNoRows, w1)
           else (Inl (ErrWrap ''failed to query device certificate'' e), w1))
      | (Inr c, w1) \<Rightarrow> (Inr c, w1))"

definition device_matches :: "string \<Rightarrow> string \<Rightarrow> device \<Rightarrow> bool" where
  "device_matches flr status d \<longleftrightarrow>
     (flr \<noteq> '''' \<longrightarrow> dv_Floor d = flr) \<and> (status \<noteq> '''' \<longrightarrow> dv_Status d = status)"

definition ListDevices_db ::
    "'r env \<Rightarrow> string \<Rightarrow> string \<Rightarrow> int \<Rightarrow> int \<Rightarrow> 'r world \<Rightarrow>
     (go_error + device list \<times> i64) \<times> 'r world" where
  "ListDevices_db E flr status limit offset w =
     (case ext_fault E w of
        (Some e, w1) \<Rightarrow> (Inl (ErrWrap ''failed to count devices'' e), w1)
      | (None, w1) \<Rightarrow>
     if \<not> list_all no_nul [flr, status]
     then (Inl (ErrWrap ''failed to count devices'' (pg_error E ''22021'')), w1)
     else
       (let rs = filter (device_matches flr status) (w_devices w1);
            totalCount = of_nat (length rs) in
        case ext_fault E w1 of
          (Some e, w2) \<Rightarrow> (Inl (ErrWrap ''failed to query devices'' e), w2)
        | (None, w2) \<Rightarrow>
            (case sql_paging E limit offset (sort_desc dv_CreatedAt rs) of
               Inl e \<Rightarrow> (Inl (ErrWrap ''failed to query devices'' e), w2)
             | Inr devices \<Rightarrow> (Inr (devices, totalCount), w2))))"

section \<open>Updates\<close>

definition sql_update_status ::
    "'r env \<Rightarrow> string \<Rightarrow> string \<Rightarrow> 'r world \<Rightarrow> (go_error + device) \<times> 'r world" where
  "sql_update_status E deviceID newStatus w =
     (case ext_fault E w of
        (Some e, w1) \<Rightarrow> (Inl e, w1)
      | (None, w1) \<Rightarrow>
     (let (now, w2) = time_now E w1 in
      if \<not> list_all no_nul [newStatus, deviceID] then (Inl (pg_error E ''22021''), w2)
      else case List.find (\<lambda>d. dv_DeviceID d = deviceID) (w_devices w2) of
        None \<Rightarrow> (Inl ErrPgxNoRows, w2)
      | Some d \<Rightarrow>
          (let row = d\<lparr>dv_Status := newStatus, dv_UpdatedAt := now\<rparr> in
           case first_violation (device_checks row) of
             Some code \<Rightarrow> (Inl (pg_error E code), w2)
           | None \<Rightarrow> (Inr row, w2\<lparr>w_devices :=
               map (\<lambda>x. if dv_DeviceID x = deviceID then row else x) (w_devices w2)\<rparr>))))"

definition UpdateDeviceStatus_db ::
    "'r env \<Rightarrow> string \<Rightarrow> string \<Rightarrow> 'r world \<Rightarrow> (go_error + device) \<times> 'r world" where
  "UpdateDeviceStatus_db E deviceID newStatus w =
     (case sql_update_status E deviceID newStatus w of
        (Inl e, w1) \<Rightarrow>
          (if e = ErrSqlNoRows then (Inl (ErrText (''device not found: '' @ deviceID)), w1)
           else (Inl (ErrWrap ''failed to update device status'' e), w1))
      | (Inr d, w1) \<Rightarrow> (Inr d, w1))"

definition UpdateDeviceLastSeen ::
    "'r env \<Rightarrow> string \<Rightarrow> 'r world \<Rightarrow> go_error option \<times> 'r world" where
  "UpdateDeviceLastSeen E deviceID w =
     (case ext_fault E w of
        (Some e, w1) \<Rightarrow> (Some (ErrWrap ''failed to update device last_seen'' e), w1)
      | (None, w1) \<Rightarrow>
     (let (now, w2) = time_now E w1 in
      if \<not> no_nul deviceID
      then (Some (ErrWrap ''failed to update device last_seen'' (pg_error E ''22021'')), w2)
      else
        (let hit = (\<lambda>d. dv_DeviceID d = deviceID);
             w3 = w2\<lparr>w_devices := map (\<lambda>d. if hit d then d\<lparr>dv_LastSeen := now, dv_UpdatedAt := now\<rparr>
                        else d) (w_devices w2)\<rparr> in
         if length (filter hit (w_devices w2)) = 0
         then (Some (ErrText (''device not found: '' @ deviceID)), w3)
         else (None, w3))))"

definition DeviceExists ::
    "'r env \<Rightarrow> string \<Rightarrow> 'r world \<Rightarrow> (go_error + bool) \<times> 'r world" where
  "DeviceExists E deviceID w =
     (case ext_fault E w of
        (Some e, w1) \<Rightarrow> (Inl (ErrWrap ''failed to check device existence'' e), w1)
      | (None, w1) \<Rightarrow>
          if no_nul deviceID then (Inr (list_ex (\<lambda>d. dv_DeviceID d = deviceID) (w_devices w1)), w1)
          else (Inl (ErrWrap ''failed to check device existence'' (pg_error E ''22021'')), w1))"

section \<open>Creation is atomic\<close>

lemma sql_insert_device_ok:
  "sql_insert_device E d w = (None, w') \<Longrightarrow>
   w' = w\<lparr>w_devices := w_devices w @ [d]\<rparr> \<and> first_violation (device_checks d) = None \<and>
   dv_DeviceID d \<notin> dv_DeviceID ` set (w_devices w)"
  by (auto simp: sql_insert_device_def split: option.splits if_splits)

lemma sql_insert_device_err: "sql_insert_device E d w = (Some e, w') \<Longrightarrow> w' = w"
  by (auto simp: sql_insert_device_def split: option.splits if_splits)

lemma sql_insert_certificate_ok:
  "sql_insert_certificate E c w = (None, w') \<Longrightarrow>
   w' = w\<lparr>w_certs := w_certs w @ [c\<lparr>dc_RevokedAt := None\<rparr>]\<rparr> \<and>
   first_violation (certificate_checks c) = None \<and>
   dc_CertificateHash c \<notin> dc_CertificateHash ` set (w_certs w) \<and>
   dc_DeviceID c \<in> dv_DeviceID ` set (w_devices w)"
  by (auto simp: sql_insert_certificate_def certificate_checks_def Let_def
      split: option.splits if_splits)

lemma sql_insert_certificate_err: "sql_insert_certificate E c w = (Some e, w') \<Longrightarrow> w' = w"
  by (auto simp: sql_insert_certificate_def Let_def split: option.splits if_splits)

lemma ext_fault_eq: "ext_fault E w = (r, w1) \<Longrightarrow> w1 = w\<lparr>w_tick := Suc (w_tick w)\<rparr> \<and> r = e_fault E (w_tick w)"
  by (auto simp: ext_fault_def)

lemma rollback_same_data:
  "same_data (rollback w w1) w" if "w1 = w\<lparr>w_tick := n, w_devices := ds, w_certs := cs\<rparr>"
  using that by (cases w) (simp add: rollback_def same_data_def)

lemma CreateDevice_db_ok:
  assumes "CreateDevice_db E d c w = (None, w')"
  shows "w' = w\<lparr>w_tick := w_tick w + 4, w_devices := w_devices w @ [d],
           w_certs := w_certs w @ [c\<lparr>dc_RevokedAt := None\<rparr>]\<rparr>"
    "first_violation (device_checks d) = None" "first_violation (certificate_checks c) = None"
    "dv_DeviceID d \<notin> dv_DeviceID ` set (w_devices w)"
    "dc_CertificateHash c \<notin> dc_CertificateHash ` set (w_certs w)"
    "dc_DeviceID c \<in> insert (dv_DeviceID d) (dv_DeviceID ` set (w_devices w))"
proof -
  from assms obtain w1 w2 w3 w4 where steps:
    "sql_insert_device E d (w\<lparr>w_tick := w_tick w + 2\<rparr>) = (None, w2)"
    "w3 = w2\<lparr>w_tick := Suc (w_tick w2)\<rparr>" "sql_insert_certificate E c w3 = (None, w4)"
    "w' = w4\<lparr>w_tick := Suc (w_tick w4)\<rparr>"
    by (auto simp: CreateDevice_db_def ext_fault_def eval_nat_numeral
        split: option.splits prod.splits)
  note dev = sql_insert_device_ok [OF steps(1)] and crt = sql_insert_certificate_ok [OF steps(3)]
  have w2: "w2 = w\<lparr>w_tick := w_tick w + 2, w_devices := w_devices w @ [d]\<rparr>" using dev by simp
  have w4: "w4 = w3\<lparr>w_certs := w_certs w3 @ [c\<lparr>dc_RevokedAt := None\<rparr>]\<rparr>" using crt by simp
  show "w' = w\<lparr>w_tick := w_tick w + 4, w_devices := w_devices w @ [d],
           w_certs := w_certs w @ [c\<lparr>dc_RevokedAt := None\<rparr>]\<rparr>"
    unfolding steps(4) w4 steps(2) w2 by (cases w) simp
  show "first_violation (device_checks d) = None" "dv_DeviceID d \<notin> dv_DeviceID ` set (w_devices w)"
    using dev by simp_all
  show "first_violation (certificate_checks c) = None" using crt by simp
  show "dc_CertificateHash c \<notin> dc_CertificateHash ` set (w_certs w)"
    "dc_DeviceID c \<in> insert (dv_DeviceID d) (dv_DeviceID ` set (w_devices w))"
    using crt unfolding steps(2) w2 by auto
qed

text \<open>What a transaction on the two tables leaves alone.\<close>

definition other_tables :: "'r world \<Rightarrow> 'r world" where
  "other_tables w = w\<lparr>w_tick := 0, w_devices := [], w_certs := []\<rparr>"

lemma ext_fault_other: "ext_fault E w = (r, w1) \<Longrightarrow> other_tables w1 = other_tables w"
  by (auto simp: ext_fault_def other_tables_def)

lemma sql_insert_device_other: "sql_insert_device E d w = (r, w1) \<Longrightarrow> other_tables w1 = other_tables w"
  by (auto simp: sql_insert_device_def other_tables_def split: option.splits if_splits)

lemma sql_insert_certificate_other:
  "sql_insert_certificate E c w = (r, w1) \<Longrightarrow> other_tables w1 = other_tables w"
  by (auto simp: sql_insert_certificate_def other_tables_def Let_def split: option.splits if_splits)

lemma rollback_other: "other_tables w1 = other_tables w \<Longrightarrow> same_data (rollback w w1) w"
  by (cases w; cases w1) (simp add: other_tables_def rollback_def same_data_def)

lemma ext_fault_other_same:
  "ext_fault E w = (r, w1) \<Longrightarrow> other_tables w1 = other_tables w \<and> same_data w1 w"
  by (auto simp: ext_fault_def other_tables_def)

lemma CreateDevice_db_err: "CreateDevice_db E d c w = (Some e, w') \<Longrightarrow> same_data w' w"
  unfolding CreateDevice_db_def
  by (auto split: prod.splits option.splits intro!: rollback_other
      dest!: ext_fault_other_same sql_insert_device_other sql_insert_certificate_other)

section \<open>Invariant\<close>

definition devices_inv :: "'r world \<Rightarrow> bool" where
  "devices_inv w \<longleftrightarrow>
     distinct_by dv_DeviceID (w_devices w) \<and> distinct_by dc_CertificateHash (w_certs w) \<and>
     (\<forall>d \<in> set (w_devices w). first_violation (device_checks d) = None) \<and>
     (\<forall>c \<in> set (w_certs w). first_violation (certificate_checks c) = None \<and>
        dc_DeviceID c \<in> dv_DeviceID ` set (w_devices w))"

lemma devices_inv_same: "same_data w w' \<Longrightarrow> devices_inv w = devices_inv w'"
  using same_dataD [of w w'] by (simp add: devices_inv_def)

lemma CreateDevice_db_inv [inv_intros]:
  assumes "CreateDevice_db E d c w = (r, w')" "devices_inv w"
  shows "devices_inv w'"
proof (cases r)
  case None
  with assms(1) have ok: "CreateDevice_db E d c w = (None, w')" by simp
  have "certificate_checks (c\<lparr>dc_RevokedAt := None\<rparr>) = certificate_checks c"
    by (simp add: certificate_checks_def)
  then show ?thesis
    using CreateDevice_db_ok [OF ok] assms(2) unfolding devices_inv_def by simp
next
  case (Some e)
  with assms show ?thesis using CreateDevice_db_err devices_inv_same by blast
qed

lemma sql_update_status_ok:
  assumes "sql_update_status E i s w = (Inr row, w')"
  obtains d now where "d \<in> set (w_devices w)" "dv_DeviceID d = i"
    "row = d\<lparr>dv_Status := s, dv_UpdatedAt := now\<rparr>" "first_violation (device_checks row) = None"
    "w' = w\<lparr>w_tick := w_tick w + 2,
       w_devices := map (\<lambda>x. if dv_DeviceID x = i then row else x) (w_devices w)\<rparr>"
proof -
  from assms obtain d where d: "List.find (\<lambda>d. dv_DeviceID d = i) (w_devices w) = Some d"
    by (auto simp: sql_update_status_def ext_fault_def time_now_def Let_def
        split: option.splits if_splits)
  then have "d \<in> set (w_devices w)" "dv_DeviceID d = i" by (auto simp: find_Some_iff)
  moreover from assms d have
    "row = d\<lparr>dv_Status := s, dv_UpdatedAt := e_clock E (Suc (w_tick w))\<rparr>"
    "first_violation (device_checks row) = None"
    "w' = w\<lparr>w_tick := w_tick w + 2,
       w_devices := map (\<lambda>x. if dv_DeviceID x = i then row else x) (w_devices w)\<rparr>"
    by (auto simp: sql_update_status_def ext_fault_def time_now_def Let_def
        split: option.splits if_splits)
  ultimately show thesis by (rule that)
qed

lemma sql_update_status_err: "sql_update_status E i s w = (Inl e, w') \<Longrightarrow> same_data w' w"
  by (auto simp: sql_update_status_def ext_fault_def time_now_def Let_def
      split: option.splits if_splits)

lemma UpdateDeviceStatus_db_Inr:
  "UpdateDeviceStatus_db E i s w = (Inr row, w') \<longleftrightarrow> sql_update_status E i s w = (Inr row, w')"
  by (auto simp: UpdateDeviceStatus_db_def split: sum.splits prod.splits if_splits)

lemma UpdateDeviceStatus_db_err: "UpdateDeviceStatus_db E i s w = (Inl e, w') \<Longrightarrow> same_data w' w"
  by (auto simp: UpdateDeviceStatus_db_def split: sum.splits prod.splits if_splits
      dest: sql_update_status_err)

text \<open>The status of a stored row is one of the four declared texts; any other is refused.\<close>

lemma UpdateDeviceStatus_db_status:
  "UpdateDeviceStatus_db E i s w = (Inr row, w') \<Longrightarrow> s \<in> set device_statuses"
  unfolding UpdateDeviceStatus_db_Inr
  by (erule sql_update_status_ok) (auto simp: device_checks_def split: if_splits)

lemma UpdateDeviceStatus_db_inv [inv_intros]:
  assumes "UpdateDeviceStatus_db E i s w = (r, w')" "devices_inv w"
  shows "devices_inv w'"
proof (cases r)
  case (Inl e)
  with assms show ?thesis using UpdateDeviceStatus_db_err devices_inv_same by blast
next
  case (Inr row)
  with assms(1) have "sql_update_status E i s w = (Inr row, w')"
    by (simp add: UpdateDeviceStatus_db_Inr)
  then show ?thesis
  proof (cases rule: sql_update_status_ok)
    case (1 d now)
    then have id: "dv_DeviceID row = i" by simp
    have ids: "map dv_DeviceID (map (\<lambda>x. if dv_DeviceID x = i then row else x) (w_devices w)) =
        map dv_DeviceID (w_devices w)" using id by auto
    then have "dv_DeviceID ` set (map (\<lambda>x. if dv_DeviceID x = i then row else x) (w_devices w)) =
        dv_DeviceID ` set (w_devices w)" by (metis set_map)
    then show ?thesis using assms(2) ids 1(4) unfolding 1(5) devices_inv_def
      by (auto simp del: map_map)
  qed
qed

lemma UpdateDeviceLastSeen_inv [inv_intros]:
  assumes "UpdateDeviceLastSeen E i w = (r, w')" "devices_inv w"
  shows "devices_inv w'"
proof -
  let ?f = "\<lambda>now d. if dv_DeviceID d = i then d\<lparr>dv_LastSeen := now, dv_UpdatedAt := now\<rparr> else d"
  consider "same_data w' w" | now n where "w' = w\<lparr>w_tick := n, w_devices := map (?f now) (w_devices w)\<rparr>"
    using assms(1)
    by (auto simp: UpdateDeviceLastSeen_def ext_fault_def time_now_def Let_def
        split: option.splits if_splits)
  then show ?thesis
  proof cases
    case 1
    with assms(2) show ?thesis using devices_inv_same by blast
  next
    case (2 now n)
    have ids: "map dv_DeviceID (map (?f now) (w_devices w)) = map dv_DeviceID (w_devices w)" by auto
    then have "dv_DeviceID ` set (map (?f now) (w_devices w)) = dv_DeviceID ` set (w_devices w)"
      by (metis set_map)
    moreover have "device_checks (d\<lparr>dv_LastSeen := now, dv_UpdatedAt := now\<rparr>) = device_checks d" for d
      by (simp add: device_checks_def)
    then have "\<forall>d \<in> set (map (?f now) (w_devices w)). first_violation (device_checks d) = None"
      using assms(2) by (auto simp: devices_inv_def)
    ultimately show ?thesis using assms(2) ids unfolding 2 devices_inv_def
      by (simp del: map_map set_map split del: if_split)
  qed
qed

section \<open>Reads\<close>

lemma GetDevice_db_same_data [frame]: "GetDevice_db E i w = (r, w') \<Longrightarrow> same_data w' w"
  by (auto simp: GetDevice_db_def sql_select_device_def ext_fault_def
      split: option.splits if_splits sum.splits prod.splits)

lemma GetDeviceCertificate_same_data [frame]: "GetDeviceCertificate E i w = (r, w') \<Longrightarrow> same_data w' w"
  by (auto simp: GetDeviceCertificate_def sql_select_certificate_def ext_fault_def
      split: option.splits if_splits sum.splits prod.splits list.splits)

lemma ListDevices_db_same_data [frame]: "ListDevices_db E f s n off w = (r, w') \<Longrightarrow> same_data w' w"
  by (auto simp: ListDevices_db_def ext_fault_def Let_def split: option.splits if_splits sum.splits)

lemma DeviceExists_same_data [frame]: "DeviceExists E i w = (r, w') \<Longrightarrow> same_data w' w"
  by (auto simp: DeviceExists_def ext_fault_def split: option.splits if_splits)

lemma DeviceExists_Inr:
  "DeviceExists E i w = (Inr b, w') \<Longrightarrow> b \<longleftrightarrow> i \<in> dv_DeviceID ` set (w_devices w)"
  by (auto simp: DeviceExists_def ext_fault_def list_ex_iff split: option.splits if_splits)

lemma GetDevice_db_Inr:
  "GetDevice_db E i w = (Inr d, w') \<Longrightarrow> d \<in> set (w_devices w) \<and> dv_DeviceID d = i"
  by (auto simp: GetDevice_db_def sql_select_device_def ext_fault_def find_Some_iff
      split: option.splits if_splits sum.splits prod.splits)

text \<open>
  The sentinel of \<open>database/sql\<close> is never returned where the driver does not produce it: an
  unknown device is a wrapped \<open>pgx.ErrNoRows\<close>.
\<close>

definition no_sql_norows :: "'r env \<Rightarrow> bool" where
  "no_sql_norows E \<longleftrightarrow> (\<forall>n. e_fault E n \<noteq> Some ErrSqlNoRows)"

lemma GetDevice_db_never_sql_norows:
  "no_sql_norows E \<Longrightarrow> GetDevice_db E i w = (Inl e, w') \<Longrightarrow> \<exists>e'. e = ErrWrap ''failed to query device'' e'"
  by (auto simp: no_sql_norows_def GetDevice_db_def sql_select_device_def ext_fault_def pg_error_def
      split: option.splits if_splits sum.splits prod.splits)

lemma GetDeviceCertificate_never_sql_norows:
  "no_sql_norows E \<Longrightarrow> GetDeviceCertificate E i w = (Inl e, w') \<Longrightarrow> e \<noteq> ErrSqlNoRows"
  by (auto simp: no_sql_norows_def GetDeviceCertificate_def sql_select_certificate_def ext_fault_def
      pg_error_def split: option.splits if_splits sum.splits prod.splits list.splits)

lemma devices_inv_status: "devices_inv w \<Longrightarrow> \<forall>d \<in> set (w_devices w). dv_Status d \<in> set device_statuses"
  by (auto simp: devices_inv_def device_checks_def split: if_splits)

end
