(* ===== verification/DeviceCache.thy ===== *)
theory DeviceCache
  imports RedisLaws GoStrings
begin

text \<open>
  \<open>internal/cache/device_cache.go\<close>: the devices' JSON under \<open>device:<id>\<close>. Unlike the telemetry
  cache it has no mode without a client; \<open>R\<close> is the client it was built with.
\<close>

definition DeviceCacheTTL :: int where
  "DeviceCacheTTL = minutes 5"

definition DeviceCacheKeyPrefix :: string where
  "DeviceCacheKeyPrefix = ''device:''"

definition device_cache_key :: "string \<Rightarrow> string" where
  "device_cache_key deviceID = DeviceCacheKeyPrefix @ deviceID"

definition DeviceCache_Set ::
    "'r env \<Rightarrow> 'r redis_ops \<Rightarrow> device \<Rightarrow> 'r world \<Rightarrow> go_error option \<times> 'r world" where
  "DeviceCache_Set E R d w =
     (case e_json_device E d of
        Inl e \<Rightarrow> (Some (ErrWrap ''failed to marshal device'' e), w)
      | Inr data \<Rightarrow> redis_do (r_set R (device_cache_key (dv_DeviceID d)) data DeviceCacheTTL) w)"

text \<open>A miss is \<open>(nil, nil)\<close>: \<open>Inr None\<close>.\<close>

definition DeviceCache_Get ::
    "'r env \<Rightarrow> 'r redis_ops \<Rightarrow> string \<Rightarrow> 'r world \<Rightarrow> (go_error + device option) \<times> 'r world" where
  "DeviceCache_Get E R deviceID w =
     (case redis_do (r_get R (device_cache_key deviceID)) w of
        (Inl e, w1) \<Rightarrow>
          (if e = ErrRedisNil then (Inr None, w1)
           else (Inl (ErrWrap ''failed to get device from cache'' e), w1))
      | (Inr data, w1) \<Rightarrow>
          (case e_unjson_device E data of
             Inl e \<Rightarrow> (Inl (ErrWrap ''failed to unmarshal device'' e), w1)
           | Inr d \<Rightarrow> (Inr (Some d), w1)))"

definition err_of :: "go_error + 'a \<Rightarrow> go_error option" where
  "err_of r = (case r of Inl e \<Rightarrow> Some e | Inr _ \<Rightarrow> None)"

definition DeviceCache_Delete ::
    "'r redis_ops \<Rightarrow> string \<Rightarrow> 'r world \<Rightarrow> go_error option \<times> 'r world" where
  "DeviceCache_Delete R deviceID w =
     (case redis_do (r_del R [device_cache_key deviceID]) w of (r, w1) \<Rightarrow> (err_of r, w1))"

definition DeviceCache_Exists ::
    "'r redis_ops \<Rightarrow> string \<Rightarrow> 'r world \<Rightarrow> (go_error + bool) \<times> 'r world" where
  "DeviceCache_Exists R deviceID w =
     (case redis_do (r_exists R (device_cache_key deviceID)) w of
        (Inl e, w1) \<Rightarrow> (Inl (ErrWrap ''failed to check cache'' e), w1)
      | (Inr n, w1) \<Rightarrow> (Inr (n > 0), w1))"

text \<open>The client's iterator: it scans page after page, each from the cursor the last one gave.\<close>

partial_function (option) scan_iter ::
    "'r redis_ops \<Rightarrow> i64 \<Rightarrow> string \<Rightarrow> int \<Rightarrow> string list \<Rightarrow> 'r world \<Rightarrow>
     ((go_error + string list) \<times> 'r world) option" where
  "scan_iter R cursor pattern n acc w =
     (case redis_do (r_scan R cursor pattern n) w of
        (Inl e, w1) \<Rightarrow> Some (Inl e, w1)
      | (Inr (keys, cursor'), w1) \<Rightarrow>
          if cursor' = 0 then Some (Inr (acc @ keys), w1)
          else scan_iter R cursor' pattern n (acc @ keys) w1)"

definition DeviceCache_Clear ::
    "'r redis_ops \<Rightarrow> 'r world \<Rightarrow> (go_error option \<times> 'r world) option" where
  "DeviceCache_Clear R w =
     (case scan_iter R 0 (DeviceCacheKeyPrefix @ ''*'') 100 [] w of
        None \<Rightarrow> None
      | Some (Inl e, w1) \<Rightarrow> Some (Some (ErrWrap ''failed to scan cache keys'' e), w1)
      | Some (Inr keys, w1) \<Rightarrow>
          if length keys > 0
          then (case redis_do (r_del R keys) w1 of (r, w2) \<Rightarrow> Some (err_of r, w2))
          else Some (None, w1))"

lemma device_cache_key_inject [simp]: "device_cache_key d = device_cache_key d' \<longleftrightarrow> d = d'"
  by (simp add: device_cache_key_def)

text \<open>What was stored is read back, where the JSON of a device decodes to the device.\<close>

lemma DeviceCache_roundtrip:
  assumes "set_get_law R" "DeviceCache_Set E R d w = (None, w1)"
    "\<And>data. e_json_device E d = Inr data \<Longrightarrow> e_unjson_device E data = Inr d"
  shows "fst (DeviceCache_Get E R (dv_DeviceID d) w1) = Inr (Some d)"
proof -
  from assms(2) obtain data r1 where r1: "e_json_device E d = Inr data"
    "r_set R (device_cache_key (dv_DeviceID d)) data DeviceCacheTTL (w_redis w) = (None, r1)"
    "w1 = w\<lparr>w_redis := r1\<rparr>"
    by (auto simp: DeviceCache_Set_def redis_do_def Let_def split: prod.splits sum.splits)
  with assms(1) have "fst (r_get R (device_cache_key (dv_DeviceID d)) r1) = Inr data"
    unfolding set_get_law_def by blast
  then obtain r2 where "r_get R (device_cache_key (dv_DeviceID d)) r1 = (Inr data, r2)"
    by (cases "r_get R (device_cache_key (dv_DeviceID d)) r1") auto
  with r1 assms(3) show ?thesis by (simp add: DeviceCache_Get_def redis_do_def)
qed

lemma DeviceCache_db_part [frame]:
  "DeviceCache_Set E R d w = (r, w') \<Longrightarrow> db_part w' = db_part w"
  "DeviceCache_Get E R i w = (s, w') \<Longrightarrow> db_part w' = db_part w"
  "DeviceCache_Delete R i w = (r, w') \<Longrightarrow> db_part w' = db_part w"
  by (auto simp: DeviceCache_Set_def DeviceCache_Get_def DeviceCache_Delete_def
      split: prod.splits sum.splits if_splits dest: redis_do_db_part)

end
