(* ===== verification/Certs.thy ===== *)
theory Certs
  imports Environment
begin

text \<open>
  \<open>internal/certs/generation.go\<close>. The cryptographic and encoding functions of Go's library
  (\<open>crypto\<close>, \<open>x509\<close>, \<open>pem\<close>) are the parameter \<open>pki\<close>; what is modelled is the code around them: the
  template of a device certificate, the checks on the signed certificate, the bundle and the
  loading of the root. Functions that draw randomness read the counter of the world.
\<close>

section \<open>The parameter\<close>

text \<open>
  \<open>pki_create\<close> is \<open>x509.CreateCertificate\<close> with the parent's certificate, \<open>pki_create_self\<close> the same function
  with the template as its own parent; \<open>pki_raw\<close> is the field \<open>Raw\<close> of a parsed certificate,
  \<open>pki_check_signature\<close> its method \<open>CheckSignatureFrom\<close>.
\<close>

datatype key_usage = DigitalSignature | KeyEncipherment | CertSign | CRLSign
datatype ext_key_usage = ServerAuth | ClientAuth

record cert_template =
  ct_SerialNumber :: i64
  ct_CommonName :: string
  ct_Organization :: "string list"
  ct_NotBefore :: gotime
  ct_NotAfter :: gotime
  ct_KeyUsage :: "key_usage list"
  ct_ExtKeyUsage :: "ext_key_usage list"
  ct_DNSNames :: "string list"
  ct_IsCA :: bool
  ct_BasicConstraintsValid :: bool
  ct_MaxPathLen :: int

record ('key, 'pub, 'cert) pki =
  pki_generate_key :: "nat \<Rightarrow> go_error + 'key"
  pki_public :: "'key \<Rightarrow> 'pub"
  pki_create :: "nat \<Rightarrow> cert_template \<Rightarrow> 'cert \<Rightarrow> 'pub \<Rightarrow> 'key \<Rightarrow> go_error + string"
  pki_create_self :: "nat \<Rightarrow> cert_template \<Rightarrow> 'pub \<Rightarrow> 'key \<Rightarrow> go_error + string"
  pki_raw :: "'cert \<Rightarrow> string"
  pki_parse_cert :: "string \<Rightarrow> go_error + 'cert"
  pki_common_name :: "'cert \<Rightarrow> string"
  pki_not_after :: "'cert \<Rightarrow> gotime"
  pki_sha256_hex :: "string \<Rightarrow> string"
  pki_pem_encode :: "string \<Rightarrow> string \<Rightarrow> string"
  pki_pem_decode :: "string \<Rightarrow> string option"
  pki_marshal_key :: "'key \<Rightarrow> go_error + string"
  pki_parse_key :: "string \<Rightarrow> go_error + 'key"
  pki_verify :: "'cert \<Rightarrow> 'cert list \<Rightarrow> go_error option"
  pki_check_signature :: "'cert \<Rightarrow> 'cert \<Rightarrow> go_error option"
  pki_read_file :: "string \<Rightarrow> go_error + string"

section \<open>The code\<close>

text \<open>The field \<open>ClientKeyPEM\<close> of the bundle is never set by the code and has no counterpart.\<close>

record certificate_bundle =
  cb_DeviceID :: string
  cb_ClientCertPEM :: string
  cb_ClientCertHash :: string
  cb_CertificateExpiry :: gotime

record key_generator =
  kg_Algorithm :: string
  kg_ValidityDuration :: int

definition NewKeyGenerator :: key_generator where
  "NewKeyGenerator = \<lparr>kg_Algorithm = ''ecdsa-p256'', kg_ValidityDuration = hours (365 * 24)\<rparr>"

definition GenerateDeviceKeypair ::
    "('key, 'pub, 'cert) pki \<Rightarrow> key_generator \<Rightarrow> 'r world \<Rightarrow> (go_error + 'key) \<times> 'r world" where
  "GenerateDeviceKeypair P kg w =
     (if kg_Algorithm kg = ''ecdsa-p256''
      then (pki_generate_key P (w_tick w), w\<lparr>w_tick := Suc (w_tick w)\<rparr>)
      else (Inl (ErrText (''unsupported key algorithm: '' @ kg_Algorithm kg)), w))"

definition LoadRootCA ::
    "('key, 'pub, 'cert) pki \<Rightarrow> string \<Rightarrow> string \<Rightarrow> go_error + 'cert \<times> 'key" where
  "LoadRootCA P certPath keyPath =
     (case pki_read_file P certPath of
        Inl e \<Rightarrow> Inl (ErrWrap ''failed to read CA cert'' e)
      | Inr certPEM \<Rightarrow>
     (case pki_pem_decode P certPEM of
        None \<Rightarrow> Inl (ErrText ''failed to parse CA cert PEM'')
      | Some certBytes \<Rightarrow>
     (case pki_parse_cert P certBytes of
        Inl e \<Rightarrow> Inl (ErrWrap ''failed to parse CA cert'' e)
      | Inr rootCert \<Rightarrow>
     (case pki_read_file P keyPath of
        Inl e \<Rightarrow> Inl (ErrWrap ''failed to read CA key'' e)
      | Inr keyPEM \<Rightarrow>
     (case pki_pem_decode P keyPEM of
        None \<Rightarrow> Inl (ErrText ''failed to parse CA key PEM'')
      | Some keyBytes \<Rightarrow>
     (case pki_parse_key P keyBytes of
        Inl e \<Rightarrow> Inl (ErrWrap ''failed to parse CA key'' e)
      | Inr rootKey \<Rightarrow> Inr (rootCert, rootKey)))))))"

text \<open>The clock is read three times: serial number, start and end of the validity.\<close>

definition device_template :: "'r env \<Rightarrow> key_generator \<Rightarrow> string \<Rightarrow> 'r world \<Rightarrow> cert_template \<times> 'r world" where
  "device_template E kg deviceID w =
     (let (t1, w1) = time_now E w; (t2, w2) = time_now E w1; (t3, w3) = time_now E w2 in
      (\<lparr>ct_SerialNumber = unix_nano t1, ct_CommonName = deviceID,
        ct_Organization = [''FieldPulse Industrial IoT''], ct_NotBefore = t2,
        ct_NotAfter = time_add t3 (kg_ValidityDuration kg),
        ct_KeyUsage = [DigitalSignature, KeyEncipherment], ct_ExtKeyUsage = [ServerAuth, ClientAuth],
        ct_DNSNames = [''localhost'', deviceID, deviceID @ ''.devices.internal''], ct_IsCA = False,
        ct_BasicConstraintsValid = False, ct_MaxPathLen = 0\<rparr>, w3))"

definition SignDeviceCertificate ::
    "'r env \<Rightarrow> ('key, 'pub, 'cert) pki \<Rightarrow> key_generator \<Rightarrow> string \<Rightarrow> 'pub \<Rightarrow> 'cert \<Rightarrow> 'key \<Rightarrow>
     'r world \<Rightarrow> (go_error + certificate_bundle) \<times> 'r world" where
  "SignDeviceCertificate E P kg deviceID devicePublicKey rootCert rootKey w =
     (let (template, w1) = device_template E kg deviceID w;
          w2 = w1\<lparr>w_tick := Suc (w_tick w1)\<rparr> in
      case pki_create P (w_tick w1) template rootCert devicePublicKey rootKey of
        Inl e \<Rightarrow> (Inl (ErrWrap ''failed to sign certificate'' e), w2)
      | Inr certDER \<Rightarrow>
     (case pki_parse_cert P certDER of
        Inl e \<Rightarrow> (Inl (ErrWrap ''failed to parse signed certificate'' e), w2)
      | Inr cert \<Rightarrow>
          if pki_common_name P cert \<noteq> deviceID
          then (Inl (ErrText (''certificate CN mismatch: expected '' @ deviceID @ '', got '' @
                       pki_common_name P cert)), w2)
          else (Inr \<lparr>cb_DeviceID = deviceID,
                     cb_ClientCertPEM = pki_pem_encode P ''CERTIFICATE'' certDER,
                     cb_ClientCertHash = pki_sha256_hex P certDER,
                     cb_CertificateExpiry = pki_not_after P cert\<rparr>, w2)))"

definition EncodePrivateKeyPEM :: "('key, 'pub, 'cert) pki \<Rightarrow> 'key \<Rightarrow> go_error + string" where
  "EncodePrivateKeyPEM P key =
     (case pki_marshal_key P key of
        Inl e \<Rightarrow> Inl (ErrWrap ''failed to marshal private key'' e)
      | Inr derBytes \<Rightarrow> Inr (pki_pem_encode P ''EC PRIVATE KEY'' derBytes))"

definition VerifyDeviceCertificate ::
    "('key, 'pub, 'cert) pki \<Rightarrow> string \<Rightarrow> 'cert \<Rightarrow> go_error option" where
  "VerifyDeviceCertificate P certPEM rootCert =
     (case pki_pem_decode P certPEM of
        None \<Rightarrow> Some (ErrText ''failed to decode certificate PEM'')
      | Some certBytes \<Rightarrow>
          (case pki_parse_cert P certBytes of
             Inl e \<Rightarrow> Some (ErrWrap ''failed to parse certificate'' e)
           | Inr cert \<Rightarrow> pki_verify P cert [rootCert]))"

section \<open>Facts\<close>

text \<open>A bundle names the device in its certificate and carries the certificate it hashed.\<close>

lemma SignDeviceCertificate_bundle:
  assumes "SignDeviceCertificate E P kg d pub rc rk w = (Inr b, w')"
  obtains der cert where "pki_parse_cert P der = Inr cert" "pki_common_name P cert = d"
    "cb_DeviceID b = d" "cb_ClientCertPEM b = pki_pem_encode P ''CERTIFICATE'' der"
    "cb_ClientCertHash b = pki_sha256_hex P der" "cb_CertificateExpiry b = pki_not_after P cert"
    "\<exists>n t. pki_create P n t rc pub rk = Inr der \<and> ct_CommonName t = d \<and> d \<in> set (ct_DNSNames t)"
proof -
  obtain t w1 where t: "device_template E kg d w = (t, w1)" by fastforce
  then have "ct_CommonName t = d" "d \<in> set (ct_DNSNames t)"
    by (auto simp: device_template_def time_now_def Let_def)
  note tmpl = this
  from assms t obtain der cert where d: "pki_create P (w_tick w1) t rc pub rk = Inr der"
    "pki_parse_cert P der = Inr cert" "pki_common_name P cert = d"
    "b = \<lparr>cb_DeviceID = d, cb_ClientCertPEM = pki_pem_encode P ''CERTIFICATE'' der,
          cb_ClientCertHash = pki_sha256_hex P der, cb_CertificateExpiry = pki_not_after P cert\<rparr>"
    by (auto simp: SignDeviceCertificate_def Let_def split: sum.splits if_splits)
  show thesis
  proof (rule that [OF d(2,3)])
    show "\<exists>n t. pki_create P n t rc pub rk = Inr der \<and> ct_CommonName t = d \<and> d \<in> set (ct_DNSNames t)"
      using d(1) tmpl by blast
  qed (simp_all add: d(4))
qed

lemma Sign_same_data [frame]: "SignDeviceCertificate E P kg d pub rc rk w = (r, w') \<Longrightarrow> same_data w' w"
  by (auto simp: SignDeviceCertificate_def device_template_def time_now_def Let_def
      split: sum.splits if_splits)

lemma Generate_same_data [frame]: "GenerateDeviceKeypair P kg w = (r, w') \<Longrightarrow> same_data w' w"
  by (auto simp: GenerateDeviceKeypair_def split: if_splits)

text \<open>
  A signed certificate is accepted by the verification against the root it was signed with,
  where PEM decodes what it encodes and the library verifies what it created.
\<close>

lemma Verify_signed:
  assumes "SignDeviceCertificate E P kg d pub rc rk w = (Inr b, w')"
    "\<And>ty x. pki_pem_decode P (pki_pem_encode P ty x) = Some x"
    "\<And>n t der cert. pki_create P n t rc pub rk = Inr der \<Longrightarrow> pki_parse_cert P der = Inr cert \<Longrightarrow>
       pki_verify P cert [rc] = None"
  shows "VerifyDeviceCertificate P (cb_ClientCertPEM b) rc = None"
  using assms(1)
proof (cases rule: SignDeviceCertificate_bundle)
  case (1 der cert)
  then obtain n t where "pki_create P n t rc pub rk = Inr der" by blast
  from assms(3) [OF this 1(1)] 1(1,4) show ?thesis
    by (simp add: VerifyDeviceCertificate_def assms(2))
qed

end
