(* ===== verification/DeviceService.thy ===== *)
theory DeviceService
  imports DeviceDB DeviceCache Certs Grpc
begin

text \<open>
  \<open>internal/services/device_service.go\<close>: provisioning, reading, listing and status changes of
  devices. The handlers return plain errors (\<open>fmt.Errorf\<close>). The goroutines they start to warm
  the cache are returned as tasks; \<open>run_device_task\<close> is what such a task does when it runs.
\<close>

section \<open>State and outcomes\<close>

record ('key, 'cert) device_service =
  sv_keyGen :: key_generator
  sv_rootCert :: 'cert
  sv_rootKey :: 'key
  sv_rootCertPEM :: string

definition NewDeviceService ::
    "('key, 'pub, 'cert) pki \<Rightarrow> string \<Rightarrow> 'cert \<Rightarrow> 'key \<Rightarrow> ('key, 'cert) device_service" where
  "NewDeviceService P certPathEnv rootCert rootKey =
     (let path = (if certPathEnv = '''' then ''certs/ca.crt'' else certPathEnv) in
      \<lparr>sv_keyGen = NewKeyGenerator, sv_rootCert = rootCert, sv_rootKey = rootKey,
       sv_rootCertPEM = (case pki_read_file P path of Inl _ \<Rightarrow> '''' | Inr pem \<Rightarrow> pem)\<rparr>)"

datatype device_task = CacheDevice device | RefreshDevice string

text \<open>A handler returns a response or an error, or panics.\<close>

datatype 'a outcome = Returns 'a | Fails go_error | Panics

section \<open>Cache helpers\<close>

definition cacheDevice ::
    "'r env \<Rightarrow> 'r redis_ops \<Rightarrow> device \<Rightarrow> 'r world \<Rightarrow> go_error option \<times> 'r world" where
  "cacheDevice E R d w = DeviceCache_Set E R d w"

definition refreshDeviceInCache ::
    "'r env \<Rightarrow> 'r redis_ops \<Rightarrow> string \<Rightarrow> 'r world \<Rightarrow> go_error option \<times> 'r world" where
  "refreshDeviceInCache E R deviceID w =
     (case GetDevice_db E deviceID w of
        (Inl e, w1) \<Rightarrow> (Some e, w1)
      | (Inr d, w1) \<Rightarrow> cacheDevice E R d w1)"

definition invalidateDeviceCache ::
    "'r redis_ops \<Rightarrow> string \<Rightarrow> 'r world \<Rightarrow> go_error option \<times> 'r world" where
  "invalidateDeviceCache R deviceID w = DeviceCache_Delete R deviceID w"

definition run_device_task :: "'r env \<Rightarrow> 'r redis_ops \<Rightarrow> device_task \<Rightarrow> 'r world \<Rightarrow> 'r world" where
  "run_device_task E R t w =
     (case t of CacheDevice d \<Rightarrow> snd (cacheDevice E R d w)
      | RefreshDevice i \<Rightarrow> snd (refreshDeviceInCache E R i w))"

section \<open>Messages\<close>

definition pb_of_device :: "i32 \<Rightarrow> device \<Rightarrow> pb_device" where
  "pb_of_device status d =
     \<lparr>pd_DeviceId = dv_DeviceID d, pd_Floor = dv_Floor d, pd_DeviceType = dv_DeviceType d,
      pd_FirmwareVersion = dv_FirmwareVersion d, pd_Status = status,
      pd_CertificateCn = dv_CertificateCN d, pd_ProvisionedAt = pb_new (dv_ProvisionnedAt d),
      pd_LastSeen = pb_new (dv_LastSeen d), pd_CreatedAt = pb_new (dv_CreatedAt d),
      pd_UpdatedAt = pb_new (dv_UpdatedAt d)\<rparr>"

text \<open>\<open>pb.DeviceStatus(pb.DeviceStatus_value[device.Status])\<close>\<close>

definition status_by_name :: "device \<Rightarrow> i32" where
  "status_by_name d = enum_value_or_zero DeviceStatus_name (dv_Status d)"

text \<open>The table \<open>statusMap\<close> of \<open>deviceToResponse\<close>.\<close>

definition status_map :: "(string \<times> i32) list" where
  "status_map =
     [(''active'', DEVICE_STATUS_ACTIVE), (''silent'', DEVICE_STATUS_SILENT),
      (''degraded'', DEVICE_STATUS_DEGRADED), (''inactive'', DEVICE_STATUS_INACTIVE)]"

definition deviceToResponse :: "device \<Rightarrow> get_device_response" where
  "deviceToResponse d =
     (let status = (case map_of status_map (dv_Status d) of
                      None \<Rightarrow> DEVICE_STATUS_UNSPECIFIED | Some s \<Rightarrow> s) in
      \<lparr>gdp_Device = Some (pb_of_device status d), gdp_CertificateHash = '''',
       gdp_CertificateExpiresAt = None\<rparr>)"

section \<open>Handlers\<close>

definition CreateDevice ::
    "'r env \<Rightarrow> ('key, 'pub, 'cert) pki \<Rightarrow> ('key, 'cert) device_service \<Rightarrow> create_device_request \<Rightarrow>
     'r world \<Rightarrow> (go_error + create_device_response) \<times> device_task list \<times> 'r world" where
  "CreateDevice E P s req w =
     (if cdr_DeviceId req = '''' then (Inl (ErrText ''device_id is required''), [], w)
      else if cdr_Floor req = '''' then (Inl (ErrText ''floor is required''), [], w)
      else if cdr_DeviceType req = '''' then (Inl (ErrText ''device_type is required''), [], w)
      else case DeviceExists E (cdr_DeviceId req) w of
        (Inl e, w1) \<Rightarrow> (Inl (ErrWrap ''failed to check device existence'' e), [], w1)
      | (Inr True, w1) \<Rightarrow> (Inl (ErrText (''device already exists: '' @ cdr_DeviceId req)), [], w1)
      | (Inr False, w1) \<Rightarrow>
     (case GenerateDeviceKeypair P (sv_keyGen s) w1 of
        (Inl e, w2) \<Rightarrow> (Inl (ErrWrap ''failed to generate device keypair'' e), [], w2)
      | (Inr devicePrivateKey, w2) \<Rightarrow>
     (case SignDeviceCertificate E P (sv_keyGen s) (cdr_DeviceId req) (pki_public P devicePrivateKey)
             (sv_rootCert s) (sv_rootKey s) w2 of
        (Inl e, w3) \<Rightarrow> (Inl (ErrWrap ''failed to sign device certificate'' e), [], w3)
      | (Inr certBundle, w3) \<Rightarrow>
     (case EncodePrivateKeyPEM P devicePrivateKey of
        Inl e \<Rightarrow> (Inl (ErrWrap ''failed to encode device key'' e), [], w3)
      | Inr keyPEM \<Rightarrow>
          (let (now, w4) = time_now E w3;
               deviceRecord = \<lparr>dv_DeviceID = cdr_DeviceId req, dv_Floor = cdr_Floor req,
                 dv_DeviceType = cdr_DeviceType req, dv_FirmwareVersion = cdr_FirmwareVersion req,
                 dv_Status = ''active'', dv_CertificateCN = cdr_DeviceId req,
                 dv_ProvisionnedAt = now, dv_LastSeen = now, dv_CreatedAt = now, dv_UpdatedAt = now\<rparr>;
               certRecord = \<lparr>dc_DeviceID = cdr_DeviceId req,
                 dc_CertificatePEM = cb_ClientCertPEM certBundle,
                 dc_CertificateHash = cb_ClientCertHash certBundle,
                 dc_ExpiresAt = cb_CertificateExpiry certBundle, dc_RevokedAt = None\<rparr> in
           case CreateDevice_db E deviceRecord certRecord w4 of
             (Some e, w5) \<Rightarrow> (Inl (ErrWrap ''failed to create device in database'' e), [], w5)
           | (None, w5) \<Rightarrow>
               (Inr \<lparr>cdp_DeviceId = cdr_DeviceId req, cdp_BrokerUrl = ''mqtls://broker:8883'',
                     cdp_ClientCertPem = cb_ClientCertPEM certBundle, cdp_ClientKeyPem = keyPEM,
                     cdp_CaPem = sv_rootCertPEM s, cdp_ProvisionedAt = pb_new now\<rparr>,
                [CacheDevice deviceRecord], w5))))))"

definition getDeviceFromCache ::
    "'r env \<Rightarrow> 'r redis_ops \<Rightarrow> string \<Rightarrow> 'r world \<Rightarrow> (go_error + device option) \<times> 'r world" where
  [simp]: "getDeviceFromCache E R deviceID w = DeviceCache_Get E R deviceID w"

definition GetDevice ::
    "'r env \<Rightarrow> 'r redis_ops \<Rightarrow> string \<Rightarrow> 'r world \<Rightarrow>
     get_device_response outcome \<times> device_task list \<times> 'r world" where
  "GetDevice E R deviceId w =
     (if deviceId = '''' then (Fails (ErrText ''device_id is required''), [], w)
      else case getDeviceFromCache E R deviceId w of
        (Inr (Some d), w1) \<Rightarrow> (Returns (deviceToResponse d), [RefreshDevice deviceId], w1)
      | (_, w1) \<Rightarrow>
     (case GetDevice_db E deviceId w1 of
        (Inl e, w2) \<Rightarrow>
          (if e = ErrSqlNoRows then (Fails (ErrText (''device not found: '' @ deviceId)), [], w2)
           else (Fails (ErrWrap ''failed to get device'' e), [], w2))
      | (Inr d, w2) \<Rightarrow>
     (case GetDeviceCertificate E deviceId w2 of
        (Inl e, w3) \<Rightarrow>
          (if e \<noteq> ErrSqlNoRows
           then (Fails (ErrWrap ''failed to get device certificate'' e), [CacheDevice d], w3)
           else (Panics, [CacheDevice d], w3))
      | (Inr cert, w3) \<Rightarrow>
          (Returns \<lparr>gdp_Device = Some (pb_of_device (status_by_name d) d),
                    gdp_CertificateHash = dc_CertificateHash cert,
                    gdp_CertificateExpiresAt = pb_new (dc_ExpiresAt cert)\<rparr>, [CacheDevice d], w3))))"

definition ListDevices ::
    "'r env \<Rightarrow> list_devices_request \<Rightarrow> 'r world \<Rightarrow> (go_error + list_devices_response) \<times> 'r world" where
  "ListDevices E req w =
     (let limit = (if ldr_Limit req = 0 then 50 else sint (ldr_Limit req));
          limit1 = (if limit > 1000 then 1000 else limit);
          offset = (if sint (ldr_Offset req) < 0 then 0 else sint (ldr_Offset req)) in
      case ListDevices_db E (ldr_FilterFloor req) (go_string_of_int (sint (ldr_FilterStatus req)))
             limit1 offset w of
        (Inl e, w1) \<Rightarrow> (Inl (ErrWrap ''failed to list devices'' e), w1)
      | (Inr (devices, totalCount), w1) \<Rightarrow>
          (Inr \<lparr>ldp_Devices = map (\<lambda>d. pb_of_device (status_by_name d) d) devices,
                ldp_TotalCount = totalCount\<rparr>, w1))"

definition UpdateDeviceStatus ::
    "'r env \<Rightarrow> 'r redis_ops \<Rightarrow> update_device_status_request \<Rightarrow> 'r world \<Rightarrow>
     (go_error + update_device_status_response) \<times> 'r world" where
  "UpdateDeviceStatus E R req w =
     (if udr_DeviceId req = '''' then (Inl (ErrText ''device_id is required''), w)
      else case UpdateDeviceStatus_db E (udr_DeviceId req)
                  (go_string_of_int (sint (udr_NewStatus req))) w of
        (Inl e, w1) \<Rightarrow> (Inl (ErrWrap ''failed to update device status'' e), w1)
      | (Inr d, w1) \<Rightarrow>
          (case invalidateDeviceCache R (udr_DeviceId req) w1 of
             (_, w2) \<Rightarrow>
               (Inr \<lparr>udp_Device = Some (pb_of_device (status_by_name d) d),
                     udp_StatusChangedAt = pb_new (dv_UpdatedAt d)\<rparr>, w2)))"

section \<open>Status texts\<close>

text \<open>No enum value converts to one of the four texts of the table.\<close>

lemma go_string_not_status: "go_string_of_int v \<notin> set device_statuses"
proof -
  have "go_string_of_int v \<noteq> s" if "s \<in> set device_statuses" for s
    using that by (intro go_string_of_int_not_word) (auto simp: device_statuses_def)
  then show ?thesis by blast
qed

lemma UpdateDeviceStatus_never:
  "\<exists>e w'. UpdateDeviceStatus E R req w = (Inl e, w') \<and> same_data w' w"
proof (cases "udr_DeviceId req = ''''")
  case True
  then show ?thesis by (simp add: UpdateDeviceStatus_def)
next
  case False
  obtain r w1 where db: "UpdateDeviceStatus_db E (udr_DeviceId req)
      (go_string_of_int (sint (udr_NewStatus req))) w = (r, w1)" by fastforce
  show ?thesis
  proof (cases r)
    case (Inl e)
    with db False show ?thesis
      by (auto simp: UpdateDeviceStatus_def dest: UpdateDeviceStatus_db_err)
  next
    case (Inr d)
    with db UpdateDeviceStatus_db_status go_string_not_status show ?thesis by fastforce
  qed
qed

lemma ListDevices_never:
  assumes "\<forall>d \<in> set (w_devices w). dv_Status d \<in> set device_statuses"
    "ListDevices E req w = (Inr resp, w')"
  shows "ldp_Devices resp = []" "ldp_TotalCount resp = 0"
proof -
  let ?s = "go_string_of_int (sint (ldr_FilterStatus req))"
  have "filter (device_matches (ldr_FilterFloor req) ?s) (w_devices w) = []"
    using assms(1) go_string_not_status by (auto simp: filter_empty_conv device_matches_def)
  with assms(2) show "ldp_Devices resp = []" "ldp_TotalCount resp = 0"
    by (auto simp: ListDevices_def ListDevices_db_def ext_fault_def sql_paging_def window_def Let_def
        sort_desc_def split: option.splits sum.splits prod.splits if_splits)
qed

text \<open>The unfiltered listing sends a zero byte, which the server refuses.\<close>

lemma ListDevices_unfiltered:
  "ldr_FilterStatus req = 0 \<Longrightarrow> \<exists>e w'. ListDevices E req w = (Inl e, w')"
  by (auto simp: ListDevices_def ListDevices_db_def ext_fault_def Let_def go_string_of_int_def
      no_nul_def split: option.splits)

section \<open>Provisioning\<close>

lemma CreateDevice_ok:
  assumes "CreateDevice E P s req w = (Inr resp, ts, w')"
  obtains d c where "w_devices w' = w_devices w @ [d]" "w_certs w' = w_certs w @ [c]"
    "dv_DeviceID d = cdr_DeviceId req" "dv_Status d = ''active''" "dv_CertificateCN d = cdr_DeviceId req"
    "dc_DeviceID c = cdr_DeviceId req" "dc_RevokedAt c = None"
    "dc_CertificatePEM c = cdp_ClientCertPem resp" "cdr_DeviceId req \<notin> dv_DeviceID ` set (w_devices w)"
    "ts = [CacheDevice d]" "w_redis w' = w_redis w" "w_metrics w' = w_metrics w" "w_alerts w' = w_alerts w"
proof -
  from assms obtain w1 key w2 cb w3 kp dv ct where steps:
    "DeviceExists E (cdr_DeviceId req) w = (Inr False, w1)"
    "GenerateDeviceKeypair P (sv_keyGen s) w1 = (Inr key, w2)"
    "SignDeviceCertificate E P (sv_keyGen s) (cdr_DeviceId req) (pki_public P key)
       (sv_rootCert s) (sv_rootKey s) w2 = (Inr cb, w3)"
    "CreateDevice_db E dv ct (w3\<lparr>w_tick := Suc (w_tick w3)\<rparr>) = (None, w')"
    "dv_DeviceID dv = cdr_DeviceId req" "dv_Status dv = ''active''"
    "dv_CertificateCN dv = cdr_DeviceId req" "dc_DeviceID ct = cdr_DeviceId req"
    "dc_CertificatePEM ct = cdp_ClientCertPem resp" "ts = [CacheDevice dv]" "dc_RevokedAt ct = None"
    by (auto simp: CreateDevice_def time_now_def Let_def
        split: if_splits prod.splits sum.splits bool.splits option.splits)
  have same: "same_data (w3\<lparr>w_tick := Suc (w_tick w3)\<rparr>) w"
    using DeviceExists_same_data [OF steps(1)] Generate_same_data [OF steps(2)]
      Sign_same_data [OF steps(3)] by (simp add: same_data_def)
  note sd = same_dataD [OF same] and ok = CreateDevice_db_ok [OF steps(4)]
  have "ct\<lparr>dc_RevokedAt := None\<rparr> = ct" using steps(11) by simp
  with ok(1,4) sd steps(5-11) show thesis by (intro that [of dv ct]) simp_all
qed

lemma CreateDevice_err:
  assumes "CreateDevice E P s req w = (Inl e, ts, w')"
  shows "same_data w' w" "ts = []"
proof -
  show "ts = []" using assms
    by (auto simp: CreateDevice_def time_now_def Let_def
        split: if_splits prod.splits sum.splits bool.splits option.splits)
  show "same_data w' w" using assms
    by (auto simp: CreateDevice_def time_now_def Let_def
        split: if_splits prod.splits sum.splits bool.splits option.splits
        dest!: DeviceExists_same_data Generate_same_data Sign_same_data CreateDevice_db_err)
      (simp_all add: same_data_def)
qed

lemma CreateDevice_exists:
  "cdr_DeviceId req \<in> dv_DeviceID ` set (w_devices w) \<Longrightarrow>
   \<exists>e ts w'. CreateDevice E P s req w = (Inl e, ts, w') \<and> same_data w' w"
proof (cases "CreateDevice E P s req w")
  case (fields r ts w')
  assume "cdr_DeviceId req \<in> dv_DeviceID ` set (w_devices w)"
  with fields show ?thesis
    by (cases r) (auto dest: CreateDevice_err(1) elim: CreateDevice_ok)
qed

section \<open>Reading\<close>

lemma GetDevice_no_panic:
  assumes "no_sql_norows E"
  shows "fst (GetDevice E R i w) \<noteq> Panics"
  using GetDeviceCertificate_never_sql_norows [OF assms]
  by (auto simp: GetDevice_def split: prod.splits sum.splits option.splits if_splits)

text \<open>
  Read from the table a device has the unspecified status; read from the cache, the status of
  its text.
\<close>

lemma status_by_name_stored: "dv_Status d \<in> set device_statuses \<Longrightarrow> status_by_name d = 0"
  by (auto simp: status_by_name_def enum_value_or_zero_def enum_value_def DeviceStatus_name_def
      device_statuses_def)

lemma deviceToResponse_stored:
  "dv_Status d \<in> set device_statuses \<Longrightarrow>
   \<exists>p. gdp_Device (deviceToResponse d) = Some p \<and> pd_Status p \<noteq> 0"
  by (auto simp: deviceToResponse_def status_map_def device_statuses_def pb_of_device_def Let_def)

section \<open>The invariant of the device tables\<close>

lemma CreateDevice_inv [inv_intros]:
  assumes "CreateDevice E P s req w = (r, ts, w')" "devices_inv w"
  shows "devices_inv w'"
proof (cases r)
  case (Inl e)
  with CreateDevice_err(1) assms devices_inv_same show ?thesis by blast
next
  case (Inr resp)
  from assms(1) [unfolded Inr] obtain w1 key w2 cb w3 dv ct where steps:
    "DeviceExists E (cdr_DeviceId req) w = (Inr False, w1)"
    "GenerateDeviceKeypair P (sv_keyGen s) w1 = (Inr key, w2)"
    "SignDeviceCertificate E P (sv_keyGen s) (cdr_DeviceId req) (pki_public P key)
       (sv_rootCert s) (sv_rootKey s) w2 = (Inr cb, w3)"
    "CreateDevice_db E dv ct (w3\<lparr>w_tick := Suc (w_tick w3)\<rparr>) = (None, w')"
    by (auto simp: CreateDevice_def time_now_def Let_def
        split: if_splits prod.splits sum.splits bool.splits option.splits)
  have "same_data (w3\<lparr>w_tick := Suc (w_tick w3)\<rparr>) w"
    using DeviceExists_same_data [OF steps(1)] Generate_same_data [OF steps(2)]
      Sign_same_data [OF steps(3)] by (simp add: same_data_def)
  with assms(2) devices_inv_same have "devices_inv (w3\<lparr>w_tick := Suc (w_tick w3)\<rparr>)" by blast
  with CreateDevice_db_inv [OF steps(4)] show ?thesis by blast
qed

end
