(* ===== verification/SilentWatchdog.thy ===== *)
theory SilentWatchdog
  imports DeviceService AlertEvaluator TelemetryCache
begin

text \<open>
  \<open>internal/services/silent_watchdog.go\<close>: one round of the watchdog over the keys \<open>last_seen:*\<close>.
  Its client of the device service is modelled by the service's handlers, each call preceded by
  an external call that may fail. The tasks the handlers start are collected. A round has a
  timeout of a minute: its Redis calls fail once the context of the round is done.
\<close>

definition silentWatchInterval :: int where "silentWatchInterval = minutes 2"
definition silentMaxAge :: int where "silentMaxAge = minutes 15"

definition rpc_GetDevice ::
    "'r env \<Rightarrow> 'r redis_ops \<Rightarrow> string \<Rightarrow> device_task list \<times> 'r world \<Rightarrow>
     get_device_response option \<times> device_task list \<times> 'r world" where
  "rpc_GetDevice E R deviceID s =
     (case s of (ts, w) \<Rightarrow>
        (case ext_fault E w of
           (Some e, w1) \<Rightarrow> (None, ts, w1)
         | (None, w1) \<Rightarrow>
             (case GetDevice E R deviceID w1 of
                (Returns resp, ts', w2) \<Rightarrow> (Some resp, ts @ ts', w2)
              | (_, ts', w2) \<Rightarrow> (None, ts @ ts', w2))))"

definition rpc_UpdateDeviceStatus ::
    "'r env \<Rightarrow> 'r redis_ops \<Rightarrow> update_device_status_request \<Rightarrow> 'r world \<Rightarrow>
     (go_error + update_device_status_response) \<times> 'r world" where
  "rpc_UpdateDeviceStatus E R req w =
     (case ext_fault E w of
        (Some e, w1) \<Rightarrow> (Inl e, w1)
      | (None, w1) \<Rightarrow> UpdateDeviceStatus E R req w1)"

text \<open>The body of the loop over the keys; every \<open>continue\<close> is an end of it.\<close>

definition check_key ::
    "'r env \<Rightarrow> 'r redis_ops \<Rightarrow> bool \<Rightarrow> string \<Rightarrow> device_task list \<times> ctx \<times> 'r world \<Rightarrow>
     device_task list \<times> ctx \<times> 'r world" where
  "check_key E R pub key s =
     (case s of (ts, c, w) \<Rightarrow>
        (let deviceID = trim_prefix key ''last_seen:'' in
         if deviceID = '''' then (ts, c, w)
         else case ctx_do c (r_get R key) w of
           (Inl e, c1, w1) \<Rightarrow> (ts, c1, w1)
         | (Inr val, c1, w1) \<Rightarrow>
        (case parse_int val of
           Inl e \<Rightarrow> (ts, c1, w1)
         | Inr unixSec \<Rightarrow>
             (let lastT = time_unix (word_of_int unixSec);
                  (now, w2) = time_now E w1 in
              if time_sub now lastT \<le> silentMaxAge then (ts, c1, w2)
              else case rpc_GetDevice E R deviceID (ts, w2) of
                (None, ts1, w3) \<Rightarrow> (ts1, c1, w3)
              | (Some gd, ts1, w3) \<Rightarrow>
        (case gdp_Device gd of
           None \<Rightarrow> (ts1, c1, w3)
         | Some dev \<Rightarrow>
             if pd_Status dev = DEVICE_STATUS_SILENT then (ts1, c1, w3)
             else case rpc_UpdateDeviceStatus E R
                         \<lparr>udr_DeviceId = deviceID, udr_NewStatus = DEVICE_STATUS_SILENT\<rparr> w3 of
                (Inl e, w4) \<Rightarrow> (ts1, c1, w4)
              | (Inr _, w4) \<Rightarrow> (ts1, c1, snd (PublishSilentDeviceEvent E pub deviceID w4)))))))"

text \<open>The loop over the pages; here the cursor of the next page is assigned.\<close>

partial_function (option) silent_scan_loop ::
    "'r env \<Rightarrow> 'r redis_ops \<Rightarrow> bool \<Rightarrow> i64 \<Rightarrow> device_task list \<times> ctx \<times> 'r world \<Rightarrow>
     (device_task list \<times> ctx \<times> 'r world) option" where
  "silent_scan_loop E R pub cursor s =
     (case s of (ts, c, w) \<Rightarrow>
        (case ctx_do c (r_scan R cursor ''last_seen:*'' 128) w of
           (Inl e, c1, w1) \<Rightarrow> Some (ts, c1, w1)
         | (Inr (keys, next), c1, w1) \<Rightarrow>
             (let s2 = fold (check_key E R pub) keys (ts, c1, w1) in
              if next = 0 then Some s2 else silent_scan_loop E R pub next s2)))"

definition runSilentScan ::
    "'r env \<Rightarrow> 'r redis_ops \<Rightarrow> bool \<Rightarrow> 'r world \<Rightarrow> (device_task list \<times> 'r world) option" where
  "runSilentScan E R pub w =
     map_option (\<lambda>(ts, _, w1). (ts, w1)) (silent_scan_loop E R pub 0 ([], with_timeout E (seconds 60) w, w))"

text \<open>
  \<open>StartSilentWatchdog\<close> starts the goroutine only with a Redis client, an address and a client of
  the device service; its loop runs one round per tick until the context is done, here after \<open>n\<close>
  ticks.
\<close>

definition StartSilentWatchdog :: "bool \<Rightarrow> string \<Rightarrow> (string \<Rightarrow> go_error option) \<Rightarrow> bool" where
  "StartSilentWatchdog has_redis deviceServiceAddr dial =
     (if \<not> has_redis \<or> deviceServiceAddr = '''' then False
      else (case dial deviceServiceAddr of Some e \<Rightarrow> False | None \<Rightarrow> True))"

fun watchdog_loop ::
    "'r env \<Rightarrow> 'r redis_ops \<Rightarrow> bool \<Rightarrow> nat \<Rightarrow> device_task list \<times> 'r world \<Rightarrow>
     (device_task list \<times> 'r world) option" where
  "watchdog_loop E R pub 0 s = Some s"
| "watchdog_loop E R pub (Suc n) (ts, w) =
     (case runSilentScan E R pub w of
        None \<Rightarrow> None
      | Some (ts', w') \<Rightarrow> watchdog_loop E R pub n (ts @ ts', w'))"

section \<open>A round changes no table and publishes nothing\<close>

lemma GetDevice_same [frame]: "GetDevice E R i w = (r, ts, w') \<Longrightarrow> tables_same w' w"
proof (cases "DeviceCache_Get E R i w")
  case (Pair c w1)
  assume g: "GetDevice E R i w = (r, ts, w')"
  have w1: "tables_same w1 w" by (rule tables_same_db_part [OF DeviceCache_db_part(2) [OF Pair]])
  from g consider "w' = w" | "w' = w1" | "same_data w' w1"
    using Pair
    by (auto simp: GetDevice_def split: if_splits sum.splits option.splits prod.splits
        dest!: GetDevice_db_same_data GetDeviceCertificate_same_data intro: same_data_trans)
  then show ?thesis
    by cases (use w1 in \<open>auto intro: tables_same_trans tables_same_same_data\<close>)
qed

lemma ext_fault_same: "ext_fault E w = (r, w') \<Longrightarrow> tables_same w' w"
  by (auto simp: ext_fault_def tables_same_def)

lemma rpc_GetDevice_same: "rpc_GetDevice E R i (ts, w) = (r, ts', w') \<Longrightarrow> tables_same w' w"
  by (auto simp: rpc_GetDevice_def split: option.splits prod.splits outcome.splits
      dest!: ext_fault_same GetDevice_same intro: tables_same_trans)

lemma rpc_UpdateDeviceStatus_never:
  "rpc_UpdateDeviceStatus E R req w = (r, w') \<Longrightarrow> (\<exists>e. r = Inl e) \<and> tables_same w' w"
proof (cases "ext_fault E w")
  case (Pair f w1)
  assume u: "rpc_UpdateDeviceStatus E R req w = (r, w')"
  have w1: "tables_same w1 w" by (rule ext_fault_same [OF Pair])
  show ?thesis
  proof (cases f)
    case (Some e)
    with u Pair w1 show ?thesis by (auto simp: rpc_UpdateDeviceStatus_def)
  next
    case None
    with u Pair have "UpdateDeviceStatus E R req w1 = (r, w')" by (simp add: rpc_UpdateDeviceStatus_def)
    with UpdateDeviceStatus_never [of E R req w1] w1 show ?thesis
      by (auto intro: tables_same_trans tables_same_same_data)
  qed
qed

lemma ctx_do_same: "ctx_do c f w = (x, c', w') \<Longrightarrow> tables_same w' w"
  by (erule ctx_do_keeps [where I = "\<lambda>v. tables_same v w"]) (auto dest: redis_do_db_part [THEN tables_same_db_part])

lemma check_key_same:
  assumes "check_key E R pub key (ts, c, w) = (ts', c', w')"
  shows "tables_same w' w"
proof -
  have time: "tables_same (w\<lparr>w_tick := n\<rparr>) w" for n and w :: "'a world" by (simp add: tables_same_def)
  show ?thesis using assms unfolding check_key_def
    by (auto simp: Let_def time_now_def split: if_splits prod.splits sum.splits option.splits
        dest!: ctx_do_same rpc_GetDevice_same rpc_UpdateDeviceStatus_never)
      (auto simp: tables_same_def)
qed

lemma check_keys_same:
  "fold (check_key E R pub) keys (ts, c, w) = (ts', c', w') \<Longrightarrow> tables_same w' w"
proof (induction keys arbitrary: ts c w)
  case (Cons k ks)
  obtain ts1 c1 w1 where "check_key E R pub k (ts, c, w) = (ts1, c1, w1)" by (metis prod_cases3)
  with Cons check_key_same [OF this] show ?case by (auto intro: tables_same_trans)
qed simp

lemma silent_scan_loop_same:
  assumes "silent_scan_loop E R pub cur (ts, c, w) = Some (ts', c', w')"
  shows "tables_same w' w"
proof -
  have "tables_same (snd (snd (ts', c', w'))) (snd (snd (ts, c, w)))"
  proof (rule silent_scan_loop.raw_induct [where
        P = "\<lambda>E R pub cur s y. tables_same (snd (snd y)) (snd (snd s))", OF _ assms])
    fix loop and E :: "'a env" and R pub cur and s y :: "device_task list \<times> ctx \<times> 'a world"
    assume IH: "\<And>(E :: 'a env) R pub cur s y. loop E R pub cur s = Some y \<Longrightarrow>
          tables_same (snd (snd y)) (snd (snd s))"
      and body: "(case s of (ts, c, w) \<Rightarrow>
        (case ctx_do c (r_scan R cur ''last_seen:*'' 128) w of
           (Inl e, c1, w1) \<Rightarrow> Some (ts, c1, w1)
         | (Inr (keys, next), c1, w1) \<Rightarrow>
             (let s2 = fold (check_key E R pub) keys (ts, c1, w1) in
              if next = 0 then Some s2 else loop E R pub next s2))) = Some y"
    obtain ts c w where s: "s = (ts, c, w)" by (metis prod_cases3)
    obtain x c1 w1 where x: "ctx_do c (r_scan R cur ''last_seen:*'' 128) w = (x, c1, w1)" by (metis prod_cases3)
    have w1: "tables_same w1 w" by (rule ctx_do_same [OF x])
    show "tables_same (snd (snd y)) (snd (snd s))"
    proof (cases x)
      case (Inl e)
      with body s x w1 show ?thesis by auto
    next
      case (Inr kn)
      obtain keys nxt where kn: "kn = (keys, nxt)" by fastforce
      obtain ts2 c2 w2 where f: "fold (check_key E R pub) keys (ts, c1, w1) = (ts2, c2, w2)"
        by (metis prod_cases3)
      have w2: "tables_same w2 w" using check_keys_same [OF f] w1 by (rule tables_same_trans)
      from body have b: "(if nxt = 0 then Some (fold (check_key E R pub) keys (ts, c1, w1))
          else loop E R pub nxt (fold (check_key E R pub) keys (ts, c1, w1))) = Some y"
        by (simp add: s x Inr kn Let_def)
      then have "(if nxt = 0 then Some (ts2, c2, w2) else loop E R pub nxt (ts2, c2, w2)) = Some y"
        by (simp only: f)
      with w2 IH [of E R pub nxt "(ts2, c2, w2)" y] s show ?thesis
        by (auto split: if_splits intro: tables_same_trans)
    qed
  qed
  then show ?thesis by simp
qed

lemma runSilentScan_same:
  "runSilentScan E R pub w = Some (ts, w') \<Longrightarrow> tables_same w' w"
  unfolding runSilentScan_def by (auto dest: silent_scan_loop_same)

text \<open>
  A round ends, whatever Redis answers: each page costs at least one call, and the context
  leaves finitely many.
\<close>

lemma ctx_do_left: "ctx_do (Some n) f w = (x, c', w') \<Longrightarrow> \<exists>m \<le> n. c' = Some m \<and> (m < n \<or> (\<exists>e. x = Inl e))"
  by (cases rule: ctx_do_cases [of "Some n" f w x c' w']) auto

lemma check_key_left:
  assumes "check_key E R pub key (ts, Some n, w) = (ts', c', w')"
  shows "\<exists>m \<le> n. c' = Some m"
proof -
  obtain x c1 w1 where x: "ctx_do (Some n) (r_get R key) w = (x, c1, w1)" by (metis prod_cases3)
  from ctx_do_left [OF x] obtain m where m: "m \<le> n" "c1 = Some m" by blast
  from assms have "c' = Some n \<or> c' = c1"
    using x by (auto simp: check_key_def Let_def split: if_splits prod.splits sum.splits option.splits)
  with m show ?thesis by blast
qed

lemma check_keys_left:
  "fold (check_key E R pub) keys (ts, Some n, w) = (ts', c', w') \<Longrightarrow> \<exists>m \<le> n. c' = Some m"
proof (induction keys arbitrary: ts n w)
  case (Cons k ks)
  obtain ts1 c1 w1 where k: "check_key E R pub k (ts, Some n, w) = (ts1, c1, w1)" by (metis prod_cases3)
  from check_key_left [OF k] obtain m where m: "m \<le> n" "c1 = Some m" by blast
  with Cons k have "\<exists>j \<le> m. c' = Some j" by simp
  with m(1) show ?case using order_trans by blast
qed auto

lemma silent_scan_loop_returns: "silent_scan_loop E R pub cur (ts, Some n, w) \<noteq> None"
proof (induction n arbitrary: cur ts w rule: less_induct)
  case (less n)
  obtain x c1 w1 where x: "ctx_do (Some n) (r_scan R cur ''last_seen:*'' 128) w = (x, c1, w1)"
    by (metis prod_cases3)
  show ?case
  proof (cases x)
    case (Inl e)
    with x show ?thesis by (simp add: silent_scan_loop.simps)
  next
    case (Inr kn)
    obtain keys nxt where kn: "kn = (keys, nxt)" by fastforce
    from ctx_do_left [OF x] Inr obtain m where m: "m < n" "c1 = Some m" by auto
    obtain ts2 c2 w2 where f: "fold (check_key E R pub) keys (ts, Some m, w1) = (ts2, c2, w2)"
      by (metis prod_cases3)
    from check_keys_left [OF f] obtain j where "j \<le> m" "c2 = Some j" by blast
    with m(1) less.IH [of j nxt ts2 w2] f x Inr kn m(2) show ?thesis
      by (subst silent_scan_loop.simps) (simp add: Let_def del: not_None_eq)
  qed
qed

lemma runSilentScan_returns: "runSilentScan E R pub w \<noteq> None"
  using silent_scan_loop_returns [of E R pub 0 "[]" "e_calls E (seconds 60) (w_tick w)" w]
  by (simp add: runSilentScan_def with_timeout_def del: not_None_eq)

section \<open>Any number of rounds\<close>

lemma watchdog_loop_same:
  "watchdog_loop E R pub n (ts, w) = Some (ts', w') \<Longrightarrow> tables_same w' w"
proof (induction n arbitrary: ts w)
  case (Suc n)
  then obtain ts1 w1 where "runSilentScan E R pub w = Some (ts1, w1)"
    "watchdog_loop E R pub n (ts @ ts1, w1) = Some (ts', w')" by (auto split: option.splits)
  with Suc.IH runSilentScan_same show ?case by (blast intro: tables_same_trans)
qed simp

lemma watchdog_loop_returns: "watchdog_loop E R pub n s \<noteq> None"
proof (induction n arbitrary: s)
  case (Suc n)
  obtain ts w where s: "s = (ts, w)" by (cases s)
  obtain ts1 w1 where "runSilentScan E R pub w = Some (ts1, w1)"
    using runSilentScan_returns [of E R pub w] by auto
  with Suc.IH s show ?case by simp
qed simp

end
