(* ===== verification/TelemetryIngest.thy ===== *)
theory TelemetryIngest
  imports TelemetryService MqttClient
begin

text \<open>
  \<open>internal/mqtt/telemetry_ingest.go\<close>: the MQTT subscriber of the telemetry service. The JSON
  decoder with \<open>DisallowUnknownFields\<close> is the parameter \<open>dec\<close>; the service it submits to is
  the parameter \<open>submit\<close>, \<open>None\<close> where the call does not return.
\<close>

section \<open>Configuration\<close>

record subscriber_config =
  sc_BrokerURL :: string
  sc_Topic :: string
  sc_ClientID :: string
  sc_QoS :: "8 word"

definition NewTelemetrySubscriber :: "subscriber_config \<Rightarrow> subscriber_config" where
  "NewTelemetrySubscriber cfg0 =
     (let cfg1 = (if sc_Topic cfg0 = '''' then cfg0\<lparr>sc_Topic := ''devices/+/telemetry''\<rparr> else cfg0);
          cfg2 = (if sc_ClientID cfg1 = ''''
                  then cfg1\<lparr>sc_ClientID := ''fieldpulse-telemetry-subscriber''\<rparr> else cfg1);
          cfg3 = (if sc_QoS cfg2 = 0 then cfg2\<lparr>sc_QoS := 1\<rparr> else cfg2)
      in if sc_QoS cfg3 > 2 then cfg3\<lparr>sc_QoS := 1\<rparr> else cfg3)"

section \<open>Connection\<close>

text \<open>
  The subscriber with its client (\<open>None\<close> before \<open>Start\<close>). The client calls the handler of \<open>Start\<close> on
  every connection, the first and those after a loss.
\<close>

record telemetry_subscriber =
  sb_cfg :: subscriber_config
  sb_client :: "mqtt_client option"

definition subscriber_options :: "subscriber_config \<Rightarrow> mqtt_options" where
  "subscriber_options cfg =
     \<lparr>mo_Broker = sc_BrokerURL cfg, mo_ClientID = sc_ClientID cfg, mo_Username = [], mo_Password = [],
      mo_AutoReconnect = True, mo_ConnectRetry = True, mo_MaxReconnectInterval = 0\<rparr>"

definition subscriber_Start ::
    "broker \<Rightarrow> telemetry_subscriber \<Rightarrow> (go_error option \<times> telemetry_subscriber) option" where
  "subscriber_Start B s =
     (case mqtt_connect B (NewClient (subscriber_options (sb_cfg s))) of
        None \<Rightarrow> None
      | Some (Some e, c) \<Rightarrow> Some (Some (ErrWrap ''mqtt connect failed'' e), s\<lparr>sb_client := Some c\<rparr>)
      | Some (None, c) \<Rightarrow> Some (None, s\<lparr>sb_client := Some c\<rparr>))"

definition subscriber_on_connect :: "go_error option \<Rightarrow> telemetry_subscriber \<Rightarrow> telemetry_subscriber" where
  "subscriber_on_connect r s =
     s\<lparr>sb_client := map_option (mqtt_subscribe r (sc_Topic (sb_cfg s)) (sc_QoS (sb_cfg s))) (sb_client s)\<rparr>"

definition subscriber_Stop :: "telemetry_subscriber \<Rightarrow> telemetry_subscriber" where
  "subscriber_Stop s =
     (case sb_client s of
        Some c \<Rightarrow> if mc_connected c then s\<lparr>sb_client := Some (mqtt_disconnect c)\<rparr> else s
      | None \<Rightarrow> s)"

text \<open>After \<open>Stop\<close> there is no connection and, where there was one, no subscription.\<close>

lemma subscriber_Stop_disconnected: "sb_client (subscriber_Stop s) = Some c \<Longrightarrow> \<not> mc_connected c"
  by (auto simp: subscriber_Stop_def mqtt_disconnect_def split: option.splits if_splits)

text \<open>A client only ever subscribes to the topic of the configuration, with its QoS of 1 or 2.\<close>

lemma NewTelemetrySubscriber_QoS: "sc_QoS (NewTelemetrySubscriber cfg) \<in> {1, 2}"
proof -
  have "q \<in> {1, 2}" if "q \<noteq> 0" "\<not> q > 2" for q :: "8 word"
  proof -
    have "unat q \<noteq> 0" "unat q \<le> 2" using that by (auto simp: unat_eq_zero word_le_nat_alt not_less)
    then have "unat q = unat (1 :: 8 word) \<or> unat q = unat (2 :: 8 word)" by auto
    then show ?thesis by (simp only: word_unat_eq_iff [symmetric] insert_iff empty_iff simp_thms)
  qed
  then show ?thesis by (auto simp: NewTelemetrySubscriber_def Let_def)
qed

section \<open>Messages\<close>

text \<open>\<open>tp_Tags\<close> is \<open>None\<close> for the nil map, the value of a missing or null field.\<close>

record telemetry_payload =
  tp_MetricName :: string
  tp_Value :: float64
  tp_TimestampUnixSeconds :: i64
  tp_Status :: string
  tp_Tags :: "tags option"

definition parsePayloadStrict ::
    "(string \<Rightarrow> go_error + telemetry_payload) \<Rightarrow> string \<Rightarrow> go_error + telemetry_payload" where
  "parsePayloadStrict dec raw =
     (case dec raw of
        Inl e \<Rightarrow> Inl e
      | Inr payload \<Rightarrow>
          if tp_MetricName payload = '''' then Inl (ErrText ''metric_name required'')
          else if tp_Tags payload = None then Inr (payload\<lparr>tp_Tags := Some []\<rparr>)
          else Inr payload)"

definition deviceIDFromTopic :: "string \<Rightarrow> string option" where
  "deviceIDFromTopic topic =
     (let parts = split_on CHR ''/'' topic in
      if length parts \<noteq> 3 then None
      else if parts ! 0 \<noteq> ''devices'' \<or> parts ! 2 \<noteq> ''telemetry'' \<or> parts ! 1 = '''' then None
      else Some (parts ! 1))"

definition parseStatus :: "string \<Rightarrow> i32" where
  "parseStatus value =
     (let u = to_upper (trim_space value) in
      if u = ''WARNING'' \<or> u = ''METRIC_STATUS_WARNING'' then METRIC_STATUS_WARNING
      else if u = ''CRITICAL'' \<or> u = ''METRIC_STATUS_CRITICAL'' then METRIC_STATUS_CRITICAL
      else METRIC_STATUS_OK)"

definition request_of_payload :: "string \<Rightarrow> telemetry_payload \<Rightarrow> submit_metric_request" where
  "request_of_payload deviceID payload =
     \<lparr>smr_DeviceId = deviceID, smr_MetricName = tp_MetricName payload, smr_Value = tp_Value payload,
      smr_TimestampUnixSeconds = tp_TimestampUnixSeconds payload,
      smr_Tags = (case tp_Tags payload of None \<Rightarrow> [] | Some ts \<Rightarrow> ts),
      smr_Status = parseStatus (tp_Status payload)\<rparr>"

definition handleMessage ::
    "(string \<Rightarrow> go_error + telemetry_payload) \<Rightarrow> (submit_metric_request \<Rightarrow> 's \<Rightarrow> ('x \<times> 's) option) \<Rightarrow>
     string \<Rightarrow> string \<Rightarrow> 's \<Rightarrow> 's option" where
  "handleMessage dec submit topic raw s =
     (case deviceIDFromTopic topic of
        None \<Rightarrow> Some s
      | Some deviceID \<Rightarrow>
          (case parsePayloadStrict dec raw of
             Inl e \<Rightarrow> Some s
           | Inr payload \<Rightarrow>
               (case submit (request_of_payload deviceID payload) s of
                  None \<Rightarrow> None
                | Some (_, s') \<Rightarrow> Some s')))"

section \<open>Topics\<close>

lemma deviceIDFromTopic_iff:
  "deviceIDFromTopic topic = Some d \<longleftrightarrow>
   topic = ''devices/'' @ d @ ''/telemetry'' \<and> d \<noteq> [] \<and> CHR ''/'' \<notin> set d"
proof
  assume a: "deviceIDFromTopic topic = Some d"
  obtain x y z where parts: "split_on CHR ''/'' topic = [x, y, z]"
    using a by (auto simp: deviceIDFromTopic_def Let_def length_Suc_conv numeral_3_eq_3 split: if_splits)
  with a have "x = ''devices''" "z = ''telemetry''" "y = d" "d \<noteq> []"
    by (auto simp: deviceIDFromTopic_def split: if_splits)
  with parts join_split_on [of "CHR ''/''" topic] split_on_parts_no_sep [of d "CHR ''/''" topic]
  show "topic = ''devices/'' @ d @ ''/telemetry'' \<and> d \<noteq> [] \<and> CHR ''/'' \<notin> set d" by simp
next
  assume a: "topic = ''devices/'' @ d @ ''/telemetry'' \<and> d \<noteq> [] \<and> CHR ''/'' \<notin> set d"
  then have "topic = ''devices'' @ CHR ''/'' # d @ CHR ''/'' # ''telemetry''" by simp
  with a have "split_on CHR ''/'' topic = [''devices'', d, ''telemetry'']"
    by (simp add: split_on_append_sep split_on_no_sep del: append_Cons)
  with a show "deviceIDFromTopic topic = Some d" by (simp add: deviceIDFromTopic_def)
qed

section \<open>Statuses\<close>

lemma parseStatus_range:
  "parseStatus s \<in> {METRIC_STATUS_OK, METRIC_STATUS_WARNING, METRIC_STATUS_CRITICAL}"
  by (simp add: parseStatus_def Let_def)

lemma is_space_lower [simp]: "is_space (lower_char c) = is_space c"
  by (auto simp: is_space_def lower_char_def Let_def)

lemma upper_lower_char [simp]: "upper_char (lower_char c) = upper_char c"
  by (auto simp: upper_char_def lower_char_def Let_def)

lemma trim_space_to_lower: "trim_space (to_lower s) = to_lower (trim_space s)"
  by (simp add: trim_space_def to_lower_def dropWhile_map rev_map comp_def)

lemma to_upper_to_lower [simp]: "to_upper (to_lower s) = to_upper s"
  by (simp add: to_upper_def to_lower_def)

text \<open>The spelling of a status does not matter.\<close>

lemma parseStatus_to_lower: "parseStatus (to_lower s) = parseStatus s"
  by (simp add: parseStatus_def trim_space_to_lower)

text \<open>The names of the statuses are read back, in the case of any of them.\<close>

lemma parseStatus_name:
  "(v, n) \<in> set MetricStatus_name \<Longrightarrow> v \<noteq> 0 \<Longrightarrow> parseStatus n = v"
  by (auto simp: MetricStatus_name_def parseStatus_def to_upper_def trim_space_def upper_char_def
      is_space_def Let_def)

section \<open>Messages\<close>

lemma handleMessage_cases:
  assumes "handleMessage dec submit topic raw s = Some s'"
  obtains (rejected) "s' = s"
  | (submitted) d payload x where "topic = ''devices/'' @ d @ ''/telemetry''" "d \<noteq> []"
      "CHR ''/'' \<notin> set d" "dec raw = Inr payload" "tp_MetricName payload \<noteq> []"
      "submit (request_of_payload d payload) s = Some (x, s')"
proof (cases "deviceIDFromTopic topic")
  case None
  with assms rejected show ?thesis by (simp add: handleMessage_def)
next
  case (Some d)
  note topic = Some [unfolded deviceIDFromTopic_iff]
  have eq: "request_of_payload d (p\<lparr>tp_Tags := Some []\<rparr>) = request_of_payload d p"
    if "tp_Tags p = None" for p
    using that by (simp add: request_of_payload_def)
  show ?thesis
  proof (cases "parsePayloadStrict dec raw")
    case (Inl e)
    with assms Some rejected show ?thesis by (simp add: handleMessage_def)
  next
    case (Inr q)
    then obtain p where p: "dec raw = Inr p" "tp_MetricName p \<noteq> []"
      "request_of_payload d q = request_of_payload d p"
      using eq by (auto simp: parsePayloadStrict_def split: sum.splits if_splits)
    obtain x where "submit (request_of_payload d q) s = Some (x, s')"
      using assms Some Inr by (auto simp: handleMessage_def split: option.splits prod.splits)
    with p topic show ?thesis by (intro submitted) auto
  qed
qed

text \<open>
  With the telemetry service behind it: a message adds at most one row, and that row belongs to
  the device the topic names and holds the payload's metric.
\<close>

lemma handleMessage_rows:
  assumes "handleMessage dec (SubmitMetric E ev) topic raw w = Some w'"
  shows "w_metrics w' = w_metrics w \<or>
    (\<exists>row payload. w_metrics w' = w_metrics w @ [row] \<and> dec raw = Inr payload \<and>
       topic = ''devices/'' @ mr_DeviceID row @ ''/telemetry'' \<and>
       mr_MetricName row = tp_MetricName payload \<and> mr_Value row = tp_Value payload)"
  using assms
proof (cases rule: handleMessage_cases)
  case (submitted d payload x)
  show ?thesis
  proof (cases "\<exists>resp. x = Inr resp \<and> smp_Message resp = ''metric stored successfully''")
    case False
    from SubmitMetric_not_stored [OF submitted(6) this] show ?thesis by simp
  next
    case True
    then obtain resp where resp: "x = Inr resp" "smp_Message resp = ''metric stored successfully''" by blast
    from SubmitMetric_stored [OF submitted(6) [unfolded resp(1)] resp(2)] obtain ts where
      "w_metrics w' = (let row = row_of_point (metricPointFromRequest (request_of_payload d payload) ts) in
         if metric_key row \<in> metric_keys w then w_metrics w else w_metrics w @ [row])" by blast
    then show ?thesis using submitted
      by (auto simp: Let_def row_of_point_def metricPointFromRequest_def request_of_payload_def
          split: if_splits)
  qed
qed simp

end
