(* ===== verification/Connector.thy ===== *)
theory Connector
  imports TelemetryIngest Interfaces "HOL-Library.AList"
begin

text \<open>
  \<open>cmd/connector/main.go\<close>: the process that reads foreign MQTT brokers and forwards their
  messages to the telemetry service. First the configuration and the translation of one
  message, then the bounded queue between the MQTT handlers and the forwarding goroutine, with
  every \<open>select\<close> of \<open>enqueue\<close> as a step of its own. The decoders of YAML and JSON are
  parameters, and so is the call of the telemetry service.
\<close>

text \<open>The payload has the fields the subscriber's has.\<close>

type_synonym payload_model = telemetry_payload

section \<open>Configuration\<close>

record subscription_config =
  sub_Topic :: string
  sub_QoS :: "8 word"
  sub_DeviceIDPath :: string
  sub_DeviceIDSegment :: int
  sub_MetricName :: string

record broker_config =
  bc_Name :: string
  bc_BrokerURI :: string
  bc_Username :: string
  bc_Password :: string
  bc_ClientID :: string
  bc_BufferSize :: int
  bc_ReconnectDelayMS :: int
  bc_Subscriptions :: "subscription_config list"

record telemetry_service_conf =
  tsc_Address :: string
  tsc_TimeoutMS :: int
  tsc_RetryAttempts :: int

record connector_config =
  cc_Brokers :: "broker_config list"
  cc_TelemetryService :: telemetry_service_conf

definition broker_defaults :: "broker_config \<Rightarrow> broker_config" where
  "broker_defaults b0 =
     (let b = (if bc_BufferSize b0 \<le> 0 then b0\<lparr>bc_BufferSize := 1000\<rparr> else b0)
      in if bc_ReconnectDelayMS b \<le> 0 then b\<lparr>bc_ReconnectDelayMS := 5000\<rparr> else b)"

definition service_defaults :: "telemetry_service_conf \<Rightarrow> telemetry_service_conf" where
  "service_defaults t0 =
     (let t = (if tsc_Address t0 = '''' then t0\<lparr>tsc_Address := ''telemetry-service:50052''\<rparr> else t0)
      in if tsc_TimeoutMS t \<le> 0 then t\<lparr>tsc_TimeoutMS := 5000\<rparr> else t)"

definition loadConfig ::
    "(string \<Rightarrow> go_error + string) \<Rightarrow> (string \<Rightarrow> go_error + connector_config) \<Rightarrow> string \<Rightarrow>
     go_error + connector_config" where
  "loadConfig read_file unmarshal path =
     (case read_file path of
        Inl e \<Rightarrow> Inl e
      | Inr b \<Rightarrow>
          (case unmarshal b of
             Inl e \<Rightarrow> Inl e
           | Inr cfg \<Rightarrow>
               Inr \<lparr>cc_Brokers = map broker_defaults (cc_Brokers cfg),
                    cc_TelemetryService = service_defaults (cc_TelemetryService cfg)\<rparr>))"

definition resolveConfigPath :: "string \<Rightarrow> string list \<Rightarrow> (string \<Rightarrow> bool) \<Rightarrow> string" where
  "resolveConfigPath from_env args exists =
     (if from_env \<noteq> '''' then from_env
      else if length args > 1 then args ! 1
      else if exists ''connector-config.yml'' then ''connector-config.yml''
      else ''connector-config.yaml'')"

section \<open>One message\<close>

record inbound_message =
  im_brokerName :: string
  im_subscription :: subscription_config
  im_topic :: string
  im_payload :: string
  im_receivedAt :: gotime

definition extractTopicSegment :: "string \<Rightarrow> int \<Rightarrow> go_error + string" where
  "extractTopicSegment topic idx =
     (let parts = split_on CHR ''/'' topic in
      if idx < 0 \<or> int (length parts) \<le> idx \<or> parts ! nat idx = ''''
      then Inl (ErrText (''invalid segment index '' @ format_int idx @ '' for topic '' @ topic))
      else Inr (parts ! nat idx))"

definition extractDeviceID :: "subscription_config \<Rightarrow> string \<Rightarrow> go_error + string" where
  "extractDeviceID sub topic =
     (let path = to_lower (sub_DeviceIDPath sub) in
      if has_prefix path ''segment:''
      then case parse_int (trim_prefix path ''segment:'') of
             Inl e \<Rightarrow> Inl (ErrText ''strconv.Atoi'')
           | Inr i \<Rightarrow> extractTopicSegment topic i
      else if sub_DeviceIDSegment sub > 0 then extractTopicSegment topic (sub_DeviceIDSegment sub)
      else extractTopicSegment topic 1)"

definition connector_parsePayloadStrict ::
    "(string \<Rightarrow> go_error + payload_model) \<Rightarrow> string \<Rightarrow> go_error + payload_model" where
  "connector_parsePayloadStrict dec raw =
     (case dec raw of
        Inl e \<Rightarrow> Inl e
      | Inr payload \<Rightarrow>
          if \<not> f_eq (tp_Value payload) (tp_Value payload)
          then Inl (ErrText ''value must be finite'')
          else Inr payload)"

definition toMetricStatus :: "string \<Rightarrow> i32" where
  "toMetricStatus statusText =
     (let u = to_upper (trim_space statusText) in
      if u = ''CRITICAL'' \<or> u = ''METRIC_STATUS_CRITICAL'' then METRIC_STATUS_CRITICAL
      else if u = ''WARNING'' \<or> u = ''METRIC_STATUS_WARNING'' then METRIC_STATUS_WARNING
      else METRIC_STATUS_OK)"

definition forward_request :: "inbound_message \<Rightarrow> string \<Rightarrow> payload_model \<Rightarrow> submit_metric_request" where
  "forward_request msg deviceID payload =
     (let metricName0 = (if tp_MetricName payload = '''' then sub_MetricName (im_subscription msg)
                         else tp_MetricName payload);
          metricName = (if metricName0 = '''' then ''external_metric'' else metricName0);
          timestamp = (if tp_TimestampUnixSeconds payload = 0 then unix_secs (im_receivedAt msg)
                       else tp_TimestampUnixSeconds payload);
          tags0 = (case tp_Tags payload of None \<Rightarrow> [] | Some ts \<Rightarrow> ts);
          tags1 = AList.update ''connector_broker'' (im_brokerName msg) tags0;
          tags = AList.update ''connector_topic'' (im_topic msg) tags1
      in \<lparr>smr_DeviceId = deviceID, smr_MetricName = metricName, smr_Value = tp_Value payload,
          smr_TimestampUnixSeconds = timestamp, smr_Tags = tags,
          smr_Status = toMetricStatus (tp_Status payload)\<rparr>)"

text \<open>\<open>forward\<close>; the counter of forwarded messages goes up where it returns no error.\<close>

definition forward ::
    "(string \<Rightarrow> go_error + payload_model) \<Rightarrow> (submit_metric_request \<Rightarrow> 's \<Rightarrow> go_error option \<times> 's) \<Rightarrow>
     inbound_message \<Rightarrow> 's \<Rightarrow> go_error option \<times> 's" where
  "forward dec submit msg s =
     (case extractDeviceID (im_subscription msg) (im_topic msg) of
        Inl e \<Rightarrow>
          (Some (ErrWrap (''device id extraction failed for topic '' @ im_topic msg) e), s)
      | Inr deviceID \<Rightarrow>
          (case connector_parsePayloadStrict dec (im_payload msg) of
             Inl e \<Rightarrow> (Some (ErrWrap ''invalid payload'' e), s)
           | Inr payload \<Rightarrow> submit (forward_request msg deviceID payload) s))"

section \<open>The bounded queue\<close>

text \<open>
  \<open>enqueue\<close> with nothing happening between its three selects: the messages it drops and the
  queue it leaves.
\<close>

definition enqueue :: "nat \<Rightarrow> 'm \<Rightarrow> 'm list \<Rightarrow> 'm list \<times> 'm list" where
  "enqueue cap msg queue =
     (if length queue < cap then ([], queue @ [msg])
      else case queue of
        [] \<Rightarrow> ([msg], [])
      | old # rest \<Rightarrow> if length rest < cap then ([old], rest @ [msg]) else ([old, msg], rest))"

text \<open>
  The worker with its goroutines. \<open>cs_sending\<close> holds the running calls of \<open>enqueue\<close> with the
  select each has reached, \<open>cs_busy\<close> the message \<open>processLoop\<close> is forwarding, \<open>cs_ext\<close> the state
  of the telemetry service. The last four fields are history: the messages received, sent into
  the channel, dropped, and taken out and forwarded.
\<close>

datatype select_point = TrySend | Evict | Retry

record ('m, 's) broker_worker =
  cs_queue :: "'m list"
  cs_sending :: "(select_point \<times> 'm) list"
  cs_busy :: "'m option"
  cs_canceled :: bool
  cs_running :: bool
  cs_recv :: i64
  cs_fwd :: i64
  cs_dropped :: i64
  cs_ext :: 's
  cs_received :: "'m list"
  cs_sent :: "'m list"
  cs_lost :: "'m list"
  cs_done :: "('m \<times> go_error option) list"

definition newBrokerWorker :: "'s \<Rightarrow> ('m, 's) broker_worker" where
  "newBrokerWorker s =
     \<lparr>cs_queue = [], cs_sending = [], cs_busy = None, cs_canceled = False, cs_running = True,
      cs_recv = 0, cs_fwd = 0, cs_dropped = 0, cs_ext = s,
      cs_received = [], cs_sent = [], cs_lost = [], cs_done = []\<rparr>"

definition handler_receive :: "'m \<Rightarrow> ('m, 's) broker_worker \<Rightarrow> ('m, 's) broker_worker" where
  "handler_receive m st =
     st\<lparr>cs_recv := cs_recv st + 1, cs_received := cs_received st @ [m],
        cs_sending := cs_sending st @ [(TrySend, m)]\<rparr>"

definition drop_message :: "'m \<Rightarrow> ('m, 's) broker_worker \<Rightarrow> ('m, 's) broker_worker" where
  "drop_message x st = st\<lparr>cs_dropped := cs_dropped st + 1, cs_lost := cs_lost st @ [x]\<rparr>"

definition channel_send :: "'m \<Rightarrow> ('m, 's) broker_worker \<Rightarrow> ('m, 's) broker_worker" where
  "channel_send x st = st\<lparr>cs_queue := cs_queue st @ [x], cs_sent := cs_sent st @ [x]\<rparr>"

text \<open>One select of \<open>enqueue\<close>: the select that follows, or \<open>None\<close> where the call returns.\<close>

fun enqueue_select ::
    "nat \<Rightarrow> select_point \<Rightarrow> 'm \<Rightarrow> ('m, 's) broker_worker \<Rightarrow>
     select_point option \<times> ('m, 's) broker_worker" where
  "enqueue_select cap TrySend m st =
     (if length (cs_queue st) < cap then (None, channel_send m st) else (Some Evict, st))"
| "enqueue_select cap Evict m st =
     (case cs_queue st of
        [] \<Rightarrow> (Some Retry, st)
      | x # q \<Rightarrow> (Some Retry, drop_message x (st\<lparr>cs_queue := q\<rparr>)))"
| "enqueue_select cap Retry m st =
     (if length (cs_queue st) < cap then (None, channel_send m st) else (None, drop_message m st))"

definition sending_update ::
    "nat \<Rightarrow> select_point option \<Rightarrow> (select_point \<times> 'm) list \<Rightarrow> (select_point \<times> 'm) list" where
  "sending_update i g xs =
     (case g of
        None \<Rightarrow> take i xs @ drop (Suc i) xs
      | Some g' \<Rightarrow> xs[i := (g', snd (xs ! i))])"

definition finish_forward ::
    "('m \<Rightarrow> 's \<Rightarrow> go_error option \<times> 's) \<Rightarrow> 'm \<Rightarrow> ('m, 's) broker_worker \<Rightarrow> ('m, 's) broker_worker" where
  "finish_forward fw m st =
     (case fw m (cs_ext st) of
        (r, s') \<Rightarrow>
          st\<lparr>cs_busy := None, cs_ext := s', cs_done := cs_done st @ [(m, r)],
             cs_fwd := (if r = None then cs_fwd st + 1 else cs_fwd st)\<rparr>)"

inductive cstep ::
    "nat \<Rightarrow> ('m \<Rightarrow> 's \<Rightarrow> go_error option \<times> 's) \<Rightarrow> ('m, 's) broker_worker \<Rightarrow>
     ('m, 's) broker_worker \<Rightarrow> bool"
  for cap :: nat and fw :: "'m \<Rightarrow> 's \<Rightarrow> go_error option \<times> 's" where
  receive: "cstep cap fw st (handler_receive m st)"
| select: "i < length (cs_sending st) \<Longrightarrow> cs_sending st ! i = (g, m) \<Longrightarrow>
     enqueue_select cap g m st = (g', st') \<Longrightarrow>
     cstep cap fw st (st'\<lparr>cs_sending := sending_update i g' (cs_sending st)\<rparr>)"
| take_one: "cs_running st \<Longrightarrow> cs_busy st = None \<Longrightarrow> cs_queue st = x # q \<Longrightarrow>
     cstep cap fw st (st\<lparr>cs_queue := q, cs_busy := Some x\<rparr>)"
| finish: "cs_busy st = Some x \<Longrightarrow> cstep cap fw st (finish_forward fw x st)"
| cancel: "cstep cap fw st (st\<lparr>cs_canceled := True\<rparr>)"
| exit: "cs_canceled st \<Longrightarrow> cs_running st \<Longrightarrow> cs_busy st = None \<Longrightarrow>
     cstep cap fw st (st\<lparr>cs_running := False\<rparr>)"

inductive creach ::
    "nat \<Rightarrow> ('m \<Rightarrow> 's \<Rightarrow> go_error option \<times> 's) \<Rightarrow> 's \<Rightarrow> ('m, 's) broker_worker \<Rightarrow> bool"
  for cap :: nat and fw :: "'m \<Rightarrow> 's \<Rightarrow> go_error option \<times> 's" and s0 :: 's where
  start: "creach cap fw s0 (newBrokerWorker s0)"
| step: "creach cap fw s0 st \<Longrightarrow> cstep cap fw st st' \<Longrightarrow> creach cap fw s0 st'"

section \<open>Configuration and identities\<close>

lemma broker_defaults_ok:
  "0 < bc_BufferSize (broker_defaults b)" "0 < bc_ReconnectDelayMS (broker_defaults b)"
  by (simp_all add: broker_defaults_def Let_def)

lemma service_defaults_ok:
  "tsc_Address (service_defaults t) \<noteq> []" "0 < tsc_TimeoutMS (service_defaults t)"
  by (simp_all add: service_defaults_def Let_def)

lemma loadConfig_ok:
  assumes "loadConfig rf un path = Inr cfg"
  shows "\<forall>b \<in> set (cc_Brokers cfg). 0 < bc_BufferSize b \<and> 0 < bc_ReconnectDelayMS b"
    "tsc_Address (cc_TelemetryService cfg) \<noteq> []" "0 < tsc_TimeoutMS (cc_TelemetryService cfg)"
  using assms
  by (auto simp: loadConfig_def broker_defaults_ok service_defaults_ok split: sum.splits)

lemma extractTopicSegment_Inr:
  "extractTopicSegment topic i = Inr d \<Longrightarrow>
   d \<noteq> [] \<and> CHR ''/'' \<notin> set d \<and> 0 \<le> i \<and> nat i < length (split_on CHR ''/'' topic) \<and>
   d = split_on CHR ''/'' topic ! nat i"
  using split_on_parts_no_sep [OF nth_mem, of "nat i" "CHR ''/''" topic]
  by (auto simp: extractTopicSegment_def Let_def not_le nat_less_iff split: if_splits)

lemma extractDeviceID_Inr:
  "extractDeviceID sub topic = Inr d \<Longrightarrow> d \<noteq> [] \<and> CHR ''/'' \<notin> set d \<and> d \<in> set (split_on CHR ''/'' topic)"
  by (auto simp: extractDeviceID_def Let_def split: if_splits sum.splits dest!: extractTopicSegment_Inr)

text \<open>
  On the topics the telemetry service subscribes to, the default path of the connector and the
  subscriber agree on the device.
\<close>

lemma extractDeviceID_default:
  assumes "deviceIDFromTopic topic = Some d" "\<not> has_prefix (to_lower (sub_DeviceIDPath sub)) ''segment:''"
    "sub_DeviceIDSegment sub \<le> 0"
  shows "extractDeviceID sub topic = Inr d"
  using assms by (auto simp: extractDeviceID_def extractTopicSegment_def deviceIDFromTopic_def Let_def
      split: if_splits)

lemma toMetricStatus_parseStatus: "toMetricStatus s = parseStatus s"
  by (simp add: toMetricStatus_def parseStatus_def Let_def)

lemma forward_cases:
  assumes "forward dec submit msg s = (r, s')"
  obtains (rejected) e where "r = Some e" "s' = s"
  | (submitted) d payload where "extractDeviceID (im_subscription msg) (im_topic msg) = Inr d"
      "dec (im_payload msg) = Inr payload" "tp_Value payload \<noteq> NaN"
      "submit (forward_request msg d payload) s = (r, s')"
  using assms
  by (auto simp: forward_def connector_parsePayloadStrict_def split: sum.splits if_splits) force

lemma forward_request_fields:
  "map_of (smr_Tags (forward_request msg d p)) ''connector_broker'' = Some (im_brokerName msg)"
  "map_of (smr_Tags (forward_request msg d p)) ''connector_topic'' = Some (im_topic msg)"
  "smr_MetricName (forward_request msg d p) \<noteq> []"
  "tp_Tags p = Some ts \<Longrightarrow> k \<notin> {''connector_broker'', ''connector_topic''} \<Longrightarrow>
     map_of (smr_Tags (forward_request msg d p)) k = map_of ts k"
  by (auto simp: forward_request_def Let_def update_conv')

section \<open>Drop-oldest\<close>

lemma enqueue_bound:
  "length q \<le> cap \<Longrightarrow> enqueue cap x q = (lost, q') \<Longrightarrow> length q' \<le> cap"
  by (auto simp: enqueue_def split: if_splits list.splits)

lemma enqueue_conserves: "enqueue cap x q = (lost, q') \<Longrightarrow> mset q' + mset lost = add_mset x (mset q)"
  by (auto simp: enqueue_def split: if_splits list.splits)

interpretation cq: bounded_buffer cap "enqueue cap"
proof
  fix q x and lost q' :: "'a list"
  show "length q \<le> cap \<Longrightarrow> enqueue cap x q = (lost, q') \<Longrightarrow> length q' \<le> cap"
    by (rule enqueue_bound)
  show "enqueue cap x q = (lost, q') \<Longrightarrow> mset q' + mset lost = add_mset x (mset q)"
    by (rule enqueue_conserves)
  show "length q < cap \<Longrightarrow> enqueue cap x q = (lost, q') \<Longrightarrow> q' = q @ [x] \<and> lost = []"
    by (simp add: enqueue_def)
qed

text \<open>The queue holds the newest messages: the last \<open>cap\<close> of all that were sent to it.\<close>

lemma enqueue_lastn:
  "0 < cap \<Longrightarrow> length q \<le> cap \<Longrightarrow> enqueue cap x q = (lost, q') \<Longrightarrow> q' = lastn cap (q @ [x])"
  by (cases q) (auto simp: enqueue_def lastn_def split: if_splits list.splits)

lemma enqueue_all_lastn:
  assumes "0 < cap" "run_all (enqueue cap) xs q = (ls, q')" "length q \<le> cap"
  shows "q' = lastn cap (q @ xs)"
  using assms(2,3)
proof (induction xs arbitrary: q ls)
  case Nil
  then show ?case by (simp add: lastn_all)
next
  case (Cons x xs)
  from Cons.prems obtain l q1 ls1 where
    step: "enqueue cap x q = (l, q1)" "run_all (enqueue cap) xs q1 = (ls1, q')"
    by (auto simp: Let_def split: prod.splits)
  have q1: "q1 = lastn cap (q @ [x])" by (rule enqueue_lastn [OF assms(1) Cons.prems(2) step(1)])
  have "q' = lastn cap (q1 @ xs)" using Cons.IH [OF step(2)] q1 by simp
  also have "\<dots> = lastn cap (q @ x # xs)"
    by (simp add: q1 lastn_append)
  finally show ?case .
qed

text \<open>The three selects of one call, one right after the other, are \<open>enqueue\<close>.\<close>

fun enqueue_run ::
    "nat \<Rightarrow> select_point \<Rightarrow> nat \<Rightarrow> 'm \<Rightarrow> ('m, 's) broker_worker \<Rightarrow>
     select_point option \<times> ('m, 's) broker_worker" where
  "enqueue_run cap g 0 m st = (Some g, st)"
| "enqueue_run cap g (Suc n) m st =
     (case enqueue_select cap g m st of
        (None, st') \<Rightarrow> (None, st')
      | (Some g', st') \<Rightarrow> enqueue_run cap g' n m st')"

lemma enqueue_run_eq:
  assumes "enqueue cap m (cs_queue st) = (lost, q')"
  shows "\<exists>st'. enqueue_run cap TrySend 3 m st = (None, st') \<and> cs_queue st' = q' \<and>
    cs_lost st' = cs_lost st @ lost \<and> cs_dropped st' = cs_dropped st + of_nat (length lost)"
  using assms
  by (auto simp: enqueue_def numeral_3_eq_3 channel_send_def drop_message_def split: if_splits list.splits)

section \<open>The worker's invariant\<close>

definition conn_inv :: "nat \<Rightarrow> ('m, 's) broker_worker \<Rightarrow> bool" where
  "conn_inv cap st \<longleftrightarrow>
     length (cs_queue st) \<le> cap \<and>
     mset (cs_received st) =
       mset (cs_queue st) + mset (cs_lost st) + mset (map fst (cs_done st)) +
       mset (case cs_busy st of None \<Rightarrow> [] | Some x \<Rightarrow> [x]) + mset (map snd (cs_sending st)) \<and>
     cs_recv st = of_nat (length (cs_received st)) \<and>
     cs_dropped st = of_nat (length (cs_lost st)) \<and>
     cs_fwd st = of_nat (length (filter (\<lambda>(m, r). r = None) (cs_done st))) \<and>
     subseq (map fst (cs_done st) @ (case cs_busy st of None \<Rightarrow> [] | Some x \<Rightarrow> [x]) @ cs_queue st)
       (cs_sent st)"

lemma mset_remove_nth: "i < length xs \<Longrightarrow> add_mset (xs ! i) (mset (take i xs @ drop (Suc i) xs)) = mset xs"
  by (metis id_take_nth_drop mset.simps(2) mset_append union_mset_add_mset_right)

lemma sending_update_mset:
  assumes "i < length xs" "xs ! i = (g, m)"
  shows "mset (map snd (sending_update i None xs)) + {#m#} = mset (map snd xs)"
    "mset (map snd (sending_update i (Some g') xs)) = mset (map snd xs)"
proof -
  have "mset (map snd xs) = image_mset snd (add_mset (xs ! i) (mset (take i xs @ drop (Suc i) xs)))"
    by (simp only: mset_remove_nth [OF assms(1)] mset_map)
  then show "mset (map snd (sending_update i None xs)) + {#m#} = mset (map snd xs)"
    by (simp add: sending_update_def assms(2))
  have "map snd (xs[i := (g', snd (xs ! i))]) = map snd xs"
    using assms(1) by (simp add: map_update list_update_same_conv)
  then show "mset (map snd (sending_update i (Some g') xs)) = mset (map snd xs)"
    by (simp add: sending_update_def)
qed

lemma subseq_drop_middle: "subseq (ds @ x # q) ys \<Longrightarrow> subseq (ds @ q) ys"
  by (meson list_emb_Cons subseq_append' subseq_order.dual_order.trans subseq_order.order_refl)

lemma conn_inv_new: "conn_inv cap (newBrokerWorker s)"
  by (simp add: conn_inv_def newBrokerWorker_def)

lemma channel_send_inv:
  assumes "conn_inv cap st" "length (cs_queue st) < cap"
    "mset (map snd xs) + {#m#} = mset (map snd (cs_sending st))"
  shows "conn_inv cap (channel_send m st\<lparr>cs_sending := xs\<rparr>)"
  using assms subseq_append' [of _ _ "[m]"]
  by (auto simp: conn_inv_def channel_send_def simp flip: append_assoc)
    (auto simp: subseq_append_iff)?

lemma drop_oldest_inv:
  assumes "conn_inv cap st" "cs_queue st = x # q" "mset (map snd xs) = mset (map snd (cs_sending st))"
  shows "conn_inv cap (drop_message x (st\<lparr>cs_queue := q\<rparr>)\<lparr>cs_sending := xs\<rparr>)"
  using assms subseq_drop_middle [of "map fst (cs_done st) @ (case cs_busy st of None \<Rightarrow> [] | Some x \<Rightarrow> [x])"]
  by (auto simp: conn_inv_def drop_message_def)

lemma drop_newest_inv:
  assumes "conn_inv cap st" "mset (map snd xs) + {#m#} = mset (map snd (cs_sending st))"
  shows "conn_inv cap (drop_message m st\<lparr>cs_sending := xs\<rparr>)"
  using assms by (auto simp: conn_inv_def drop_message_def)

lemma waiting_inv:
  "conn_inv cap st \<Longrightarrow> mset (map snd xs) = mset (map snd (cs_sending st)) \<Longrightarrow>
   conn_inv cap (st\<lparr>cs_sending := xs\<rparr>)"
  by (simp add: conn_inv_def)

lemma cstep_inv [inv_intros]:
  assumes "cstep cap fw st st'" "conn_inv cap st"
  shows "conn_inv cap st'"
  using assms
proof (cases rule: cstep.cases)
  case (select i g m g' st1)
  note upd = sending_update_mset [OF select(2,3)]
  show ?thesis
  proof (cases g)
    case TrySend
    with select upd assms(2) show ?thesis
      by (auto split: if_splits intro: channel_send_inv waiting_inv)
  next
    case Evict
    with select upd assms(2) show ?thesis
      by (auto split: list.splits intro: drop_oldest_inv waiting_inv)
  next
    case Retry
    with select upd assms(2) show ?thesis
      by (auto split: if_splits intro: channel_send_inv drop_newest_inv)
  qed
qed (auto simp: conn_inv_def handler_receive_def finish_forward_def split: prod.splits)

lemma creach_inv: "creach cap fw s st \<Longrightarrow> conn_inv cap st"
  by (induction rule: creach.induct) (auto intro: conn_inv_new cstep_inv)

lemma enqueue_all_mset:
  "run_all (enqueue cap) xs q = (ls, q') \<Longrightarrow> mset q' + mset (concat ls) = mset q + mset xs"
proof (induction xs arbitrary: q ls)
  case (Cons x xs)
  obtain l q1 where l: "enqueue cap x q = (l, q1)" by fastforce
  obtain ls1 where "run_all (enqueue cap) xs q1 = (ls1, q')" "ls = l # ls1"
    using Cons.prems l by (auto simp: Let_def split: prod.splits)
  with Cons.IH enqueue_conserves [OF l] show ?case by (simp add: ac_simps)
qed simp

end
