(* ===== verification/AlertService.thy ===== *)
theory AlertService
  imports AlertEvaluator TelemetryCache Grpc
begin

text \<open>
  \<open>internal/services/alert_service.go\<close>: the gRPC handlers on thresholds, alerts and silences,
  the synchronous evaluation \<open>EvaluateMetric\<close> and the test whether a device is silent. A
  handler returns a gRPC status or its response.
\<close>

section \<open>Thresholds\<close>

definition validateThresholdRequest :: "create_threshold_request \<Rightarrow> go_error option" where
  "validateThresholdRequest req =
     (let bad = (\<lambda>x. f_is_nan x \<or> f_is_inf x) in
      if ctr_DeviceId req = '''' then Some (ErrText ''device_id required'')
      else if ctr_MetricName req = '''' then Some (ErrText ''metric_name required'')
      else if ctr_Type req = 0 then Some (ErrText ''type required'')
      else if ctr_Type req = THRESHOLD_HIGH then
        (if bad (ctr_UpperBound req) then Some (ErrText ''upper_bound must be valid number'') else None)
      else if ctr_Type req = THRESHOLD_LOW then
        (if bad (ctr_LowerBound req) then Some (ErrText ''lower_bound must be valid number'') else None)
      else if ctr_Type req = THRESHOLD_RANGE then
        (if bad (ctr_LowerBound req) \<or> bad (ctr_UpperBound req)
         then Some (ErrText ''bounds must be valid numbers'')
         else if f_ge (ctr_LowerBound req) (ctr_UpperBound req)
         then Some (ErrText ''lower_bound must be < upper_bound'') else None)
      else if ctr_Type req = THRESHOLD_CHANGE then
        (if f_le (ctr_ChangePercent req) f_zero \<or> f_ge (ctr_ChangePercent req) (Fin 100)
         then Some (ErrText ''change_percent must be between 0 and 100'') else None)
      else None)"

text \<open>The id is set by the database layer, the times by the server.\<close>

definition threshold_of_request :: "create_threshold_request \<Rightarrow> threshold" where
  "threshold_of_request req =
     \<lparr>th_ThresholdID = '''', th_DeviceID = ctr_DeviceId req, th_MetricName = ctr_MetricName req,
      th_Type = enum_string ThresholdType_name (ctr_Type req), th_LowerBound = ctr_LowerBound req,
      th_UpperBound = ctr_UpperBound req, th_ChangePercent = ctr_ChangePercent req,
      th_Severity = enum_string AlertSeverity_name (ctr_Severity req), th_Enabled = ctr_Enabled req,
      th_CreatedAt = zero_time, th_UpdatedAt = zero_time\<rparr>"

definition CreateThreshold ::
    "'r env \<Rightarrow> create_threshold_request \<Rightarrow> 'r world \<Rightarrow> (grpc_error + string \<times> pb_time) \<times> 'r world" where
  "CreateThreshold E req w =
     (case validateThresholdRequest req of
        Some e \<Rightarrow> (Inl (invalid_argument (err_msg e)), w)
      | None \<Rightarrow>
          (case CreateThreshold_db E (threshold_of_request req) w of
             ((thresholdID, Some e), w1) \<Rightarrow> (Inl (internal_error ''failed to create threshold'' e), w1)
           | ((thresholdID, None), w1) \<Rightarrow>
               (case time_now E w1 of (now, w2) \<Rightarrow> (Inr (thresholdID, pb_new now), w2))))"

definition pb_of_threshold :: "threshold \<Rightarrow> pb_threshold" where
  "pb_of_threshold t =
     \<lparr>pt_ThresholdId = th_ThresholdID t, pt_DeviceId = th_DeviceID t, pt_MetricName = th_MetricName t,
      pt_Type = enum_value_or_zero ThresholdType_name (th_Type t), pt_LowerBound = th_LowerBound t,
      pt_UpperBound = th_UpperBound t, pt_ChangePercent = th_ChangePercent t,
      pt_Severity = enum_value_or_zero AlertSeverity_name (th_Severity t), pt_Enabled = th_Enabled t,
      pt_CreatedAt = pb_new (th_CreatedAt t), pt_UpdatedAt = pb_new (th_UpdatedAt t)\<rparr>"

definition GetThresholds ::
    "'r env \<Rightarrow> get_thresholds_request \<Rightarrow> 'r world \<Rightarrow> (grpc_error + pb_threshold list \<times> i32) \<times> 'r world" where
  "GetThresholds E req w =
     (if gtr_DeviceId req = '''' then (Inl (invalid_argument ''device_id required''), w)
      else case GetThresholds_db E (gtr_DeviceId req) (gtr_MetricName req) (gtr_OnlyEnabled req) w of
        (Inl e, w1) \<Rightarrow> (Inl (internal_error ''query failed'' e), w1)
      | (Inr ts, w1) \<Rightarrow> (Inr (map pb_of_threshold ts, of_nat (length ts)), w1))"

text \<open>The map of updates, in one of the orders in which its entries may be visited.\<close>

definition threshold_updates :: "update_threshold_request \<Rightarrow> (string \<times> update_value) list" where
  "threshold_updates req =
     (if f_gt (utr_LowerBound req) f_zero then [(''lower_bound'', UFloat (utr_LowerBound req))] else []) @
     (if f_gt (utr_UpperBound req) f_zero then [(''upper_bound'', UFloat (utr_UpperBound req))] else []) @
     (if f_gt (utr_ChangePercent req) f_zero
      then [(''change_percent'', UFloat (utr_ChangePercent req))] else []) @
     (if sint (utr_Severity req) > 0
      then [(''severity'', UText (enum_string AlertSeverity_name (utr_Severity req)))] else []) @
     (if utr_Enabled req then [(''enabled'', UBool (utr_Enabled req))] else [])"

definition UpdateThreshold ::
    "'r env \<Rightarrow> update_threshold_request \<Rightarrow> 'r world \<Rightarrow> (grpc_error + string \<times> pb_time) \<times> 'r world" where
  "UpdateThreshold E req w =
     (if utr_ThresholdId req = '''' then (Inl (invalid_argument ''threshold_id required''), w)
      else case UpdateThreshold_db E (utr_ThresholdId req) (threshold_updates req) w of
        (Some e, w1) \<Rightarrow> (Inl (internal_error ''update failed'' e), w1)
      | (None, w1) \<Rightarrow>
          (case time_now E w1 of (now, w2) \<Rightarrow> (Inr (utr_ThresholdId req, pb_new now), w2)))"

definition DeleteThreshold ::
    "'r env \<Rightarrow> string \<Rightarrow> 'r world \<Rightarrow> grpc_error option \<times> 'r world" where
  "DeleteThreshold E thresholdId w =
     (if thresholdId = '''' then (Some (invalid_argument ''threshold_id required''), w)
      else case DeleteThreshold_db E thresholdId w of
        (Some e, w1) \<Rightarrow> (Some (internal_error ''delete failed'' e), w1)
      | (None, w1) \<Rightarrow> (None, w1))"

section \<open>Alerts\<close>

definition alertToProto :: "alert \<Rightarrow> pb_alert" where
  "alertToProto a =
     \<lparr>pa_AlertId = al_AlertID a, pa_DeviceId = al_DeviceID a, pa_MetricName = al_MetricName a,
      pa_MetricValue = al_MetricValue a,
      pa_ThresholdType = enum_value_or_zero ThresholdType_name (al_ThresholdType a),
      pa_ThresholdValue = al_ThresholdValue a,
      pa_Severity = enum_value_or_zero AlertSeverity_name (al_Severity a), pa_Message = al_Message a,
      pa_IsSilenced = al_IsSilenced a, pa_TriggeredAt = pb_new (al_TriggeredAt a),
      pa_ResolvedAt = (case al_ResolvedAt a of None \<Rightarrow> None | Some t \<Rightarrow> pb_new t)\<rparr>"

definition clamp_limit :: "i32 \<Rightarrow> int" where
  "clamp_limit l = (let limit = sint l in if limit = 0 \<or> limit > 1000 then 100 else limit)"

definition GetActiveAlerts ::
    "'r env \<Rightarrow> get_active_alerts_request \<Rightarrow> 'r world \<Rightarrow>
     (grpc_error + get_active_alerts_response) \<times> 'r world" where
  "GetActiveAlerts E req w =
     (let limit = clamp_limit (aar_Limit req);
          ms = aar_MinSeverity req;
          severityFilter = (if ms \<noteq> 0 then enum_string AlertSeverity_name ms else '''') in
      case GetActiveAlerts_db E (aar_DeviceId req) severityFilter limit (sint (aar_Offset req)) w of
        (Inl e, w1) \<Rightarrow> (Inl (internal_error ''query failed'' e), w1)
      | (Inr (alerts, cnt), w1) \<Rightarrow>
          (Inr \<lparr>aap_Alerts = map alertToProto alerts, aap_TotalCount = int32_of_int64 cnt,
                aap_TriggeredCount = of_nat (length alerts)\<rparr>, w1))"

definition QueryAlertHistory ::
    "'r env \<Rightarrow> query_alert_history_request \<Rightarrow> 'r world \<Rightarrow>
     ((pb_alert list \<times> bool) list \<times> grpc_error option) \<times> 'r world" where
  "QueryAlertHistory E req w =
     (if ahr_DeviceId req = '''' then (([], Some (invalid_argument ''device_id required'')), w)
      else
        (let limit = clamp_limit (ahr_Limit req) in
         case QueryAlertHistory_db E (ahr_DeviceId req) (ahr_MetricName req)
                (as_time (ahr_StartTime req)) (as_time (ahr_EndTime req)) limit w of
           (Inl e, w1) \<Rightarrow> (([], Some (internal_error ''query failed'' e)), w1)
         | (Inr alerts, w1) \<Rightarrow>
             (case send_all E [] (map (\<lambda>a. ([alertToProto a], False)) alerts) w1 of
                ((sent, None), w2) \<Rightarrow> ((sent, None), w2)
              | ((sent, Some e), w2) \<Rightarrow> ((sent, Some (grpc_of_error e)), w2))))"

section \<open>Silences\<close>

definition defaultSilenceTTL :: int where "defaultSilenceTTL = minutes 5"
definition defaultLastSeenMaxAge :: int where "defaultLastSeenMaxAge = minutes 15"

definition cacheSilence :: "'r env \<Rightarrow> string \<Rightarrow> 'r world \<Rightarrow> go_error option \<times> 'r world" where
  "cacheSilence E deviceID w =
     (case e_redis E of
        None \<Rightarrow> (None, w)
      | Some R \<Rightarrow> redis_do (r_set R (alert_key deviceID) ''1'' defaultSilenceTTL) w)"

definition isSilencedInRedis :: "'r env \<Rightarrow> string \<Rightarrow> 'r world \<Rightarrow> bool \<times> 'r world" where
  "isSilencedInRedis E deviceID w =
     (case e_redis E of
        None \<Rightarrow> (False, w)
      | Some R \<Rightarrow>
          (case redis_do (r_get R (alert_key deviceID)) w of
             (Inl e, w1) \<Rightarrow> (False, w1)
           | (Inr _, w1) \<Rightarrow> (True, w1)))"

definition SilenceAlert ::
    "'r env \<Rightarrow> silence_alert_request \<Rightarrow> 'r world \<Rightarrow> (grpc_error + string \<times> pb_time) \<times> 'r world" where
  "SilenceAlert E req w =
     (if sar_DeviceId req = '''' then (Inl (invalid_argument ''device_id required''), w)
      else if sint (sar_DurationSeconds req) \<le> 0
      then (Inl (invalid_argument ''duration_seconds must be positive''), w)
      else case SilenceDevice E (sar_DeviceId req) (sar_MetricName req)
                  (sint (sar_DurationSeconds req)) (sar_Reason req) w of
        ((silenceID, Some e), w1) \<Rightarrow> (Inl (internal_error ''silence failed'' e), w1)
      | ((silenceID, None), w1) \<Rightarrow>
          (case cacheSilence E (sar_DeviceId req) w1 of
             (_, w2) \<Rightarrow>
               (case time_now E w2 of
                  (now, w3) \<Rightarrow>
                    (Inr (silenceID,
                          pb_new (time_add now (duration_of_seconds (sint (sar_DurationSeconds req))))),
                     w3))))"

definition pb_of_silence :: "silence_rule \<Rightarrow> pb_silence_rule" where
  "pb_of_silence r =
     \<lparr>psr_SilenceId = sl_SilenceID r,
      psr_MetricName = (case sl_MetricName r of None \<Rightarrow> '''' | Some m \<Rightarrow> m),
      psr_SilencedUntil = pb_new (sl_SilencedUntil r), psr_Reason = sl_Reason r\<rparr>"

text \<open>The response: the rules and the flag \<open>DeviceFullySilenced\<close>.\<close>

definition GetSilenceState ::
    "'r env \<Rightarrow> string \<Rightarrow> 'r world \<Rightarrow> (grpc_error + pb_silence_rule list \<times> bool) \<times> 'r world" where
  "GetSilenceState E deviceId w =
     (if deviceId = '''' then (Inl (invalid_argument ''device_id required''), w)
      else case GetActiveSilences E deviceId w of
        (Inl e, w1) \<Rightarrow> (Inl (internal_error ''query failed'' e), w1)
      | (Inr rules, w1) \<Rightarrow>
          (Inr (map pb_of_silence rules, list_ex (\<lambda>r. sl_MetricName r = None) rules), w1))"

definition ClearSilence :: "'r env \<Rightarrow> string \<Rightarrow> 'r world \<Rightarrow> grpc_error option \<times> 'r world" where
  "ClearSilence E deviceId w =
     (if deviceId = '''' then (Some (invalid_argument ''device_id required''), w)
      else case ClearSilences E deviceId w of
        (Some e, w1) \<Rightarrow> (Some (internal_error ''clear failed'' e), w1)
      | (None, w1) \<Rightarrow> (None, w1))"

section \<open>Statistics and silent devices\<close>

definition GetAlertStats ::
    "'r env \<Rightarrow> get_alert_stats_request \<Rightarrow> 'r world \<Rightarrow> (grpc_error + get_alert_stats_response) \<times> 'r world" where
  "GetAlertStats E req w =
     (if asr_DeviceId req = '''' then (Inl (invalid_argument ''device_id required''), w)
      else case GetAlertStats_db E (asr_DeviceId req) (as_time (asr_StartTime req))
                  (as_time (asr_EndTime req)) w of
        (Inl e, w1) \<Rightarrow> (Inl (internal_error ''stats query failed'' e), w1)
      | (Inr stats, w1) \<Rightarrow>
          (Inr \<lparr>asp_TotalAlerts = int32_of_int64 (as_total_alerts stats),
                asp_ActiveAlerts = int32_of_int64 (as_active_alerts stats),
                asp_BySeverity = map (\<lambda>(s, n). (enum_value_or_zero AlertSeverity_name s, int32_of_int64 n))
                  (as_by_severity stats)\<rparr>, w1))"

definition IsDeviceSilent :: "'r env \<Rightarrow> string \<Rightarrow> 'r world \<Rightarrow> (go_error + bool) \<times> 'r world" where
  "IsDeviceSilent E deviceID w =
     (case e_redis E of
        None \<Rightarrow> (Inr False, w)
      | Some R \<Rightarrow>
          (case redis_do (r_get R (last_seen_key deviceID)) w of
             (Inl e, w1) \<Rightarrow> (if e = ErrRedisNil then (Inr True, w1) else (Inl e, w1))
           | (Inr value, w1) \<Rightarrow>
               (case parse_int value of
                  Inl e \<Rightarrow> (Inl (parse_int_error e), w1)
                | Inr lastSeenUnix \<Rightarrow>
                    (let lastSeen = time_unix (word_of_int lastSeenUnix);
                         (now, w2) = time_now E w1 in
                     (Inr (time_sub now lastSeen > defaultLastSeenMaxAge), w2)))))"

section \<open>Synchronous evaluation\<close>

definition service_check :: "string \<Rightarrow> float64 \<Rightarrow> threshold \<Rightarrow> string option" where
  "service_check metricName value t =
     (if th_Type t = ''HIGH'' then
        (if f_gt value (th_UpperBound t)
         then Some (metricName @ '' > '' @ fmt_f 2 (th_UpperBound t) @ '' (HIGH threshold)'') else None)
      else if th_Type t = ''LOW'' then
        (if f_lt value (th_LowerBound t)
         then Some (metricName @ '' < '' @ fmt_f 2 (th_LowerBound t) @ '' (LOW threshold)'') else None)
      else if th_Type t = ''RANGE'' then
        (if f_lt value (th_LowerBound t) \<or> f_gt value (th_UpperBound t)
         then Some (metricName @ '' out of range ['' @ fmt_f 2 (th_LowerBound t) @ '', '' @
                    fmt_f 2 (th_UpperBound t) @ '']'') else None)
      else None)"

fun evaluate_all ::
    "'r env \<Rightarrow> string \<Rightarrow> string \<Rightarrow> float64 \<Rightarrow> threshold list \<Rightarrow> 'r world \<Rightarrow> go_error option \<times> 'r world" where
  "evaluate_all E deviceID metricName value [] w = (None, w)"
| "evaluate_all E deviceID metricName value (t # ts) w =
     (case service_check metricName value t of
        None \<Rightarrow> evaluate_all E deviceID metricName value ts w
      | Some message \<Rightarrow>
          (let (r, w1) = GetActiveSilences E deviceID w;
               silences = (case r of Inl e \<Rightarrow> [] | Inr ss \<Rightarrow> ss);
               (inRedis, w2) = isSilencedInRedis E deviceID w1;
               isSilenced = (inRedis \<or> checkSilenced metricName silences);
               (now, w3) = time_now E w2;
               (now2, w4) = time_now E w3;
               a = \<lparr>al_AlertID = ''alr_'' @ format_int (sint (unix_nano now)), al_DeviceID = deviceID,
                    al_MetricName = metricName, al_MetricValue = value, al_ThresholdType = th_Type t,
                    al_ThresholdValue = f_max (th_UpperBound t) (th_LowerBound t),
                    al_Severity = th_Severity t, al_Message = message, al_IsSilenced = isSilenced,
                    al_TriggeredAt = now2, al_ResolvedAt = None\<rparr> in
           case InsertAlert E a w4 of
             (Some e, w5) \<Rightarrow> (Some (ErrWrap ''failed to insert alert'' e), w5)
           | (None, w5) \<Rightarrow> evaluate_all E deviceID metricName value ts w5))"

definition EvaluateMetric ::
    "'r env \<Rightarrow> string \<Rightarrow> string \<Rightarrow> float64 \<Rightarrow> 'r world \<Rightarrow> go_error option \<times> 'r world" where
  "EvaluateMetric E deviceID metricName value w =
     (case GetThresholds_db E deviceID metricName True w of
        (Inl e, w1) \<Rightarrow> (Some e, w1)
      | (Inr thresholds, w1) \<Rightarrow> evaluate_all E deviceID metricName value thresholds w1)"

section \<open>Thresholds that pass the validation\<close>

definition usable_threshold :: "threshold \<Rightarrow> bool" where
  "usable_threshold t \<longleftrightarrow>
     th_DeviceID t \<noteq> [] \<and> th_MetricName t \<noteq> [] \<and> th_Type t \<in> set threshold_types \<and>
     th_Severity t \<in> set severities \<and>
     (th_Type t = ''HIGH'' \<longrightarrow> json_float_ok (th_UpperBound t)) \<and>
     (th_Type t = ''LOW'' \<longrightarrow> json_float_ok (th_LowerBound t)) \<and>
     (th_Type t = ''RANGE'' \<longrightarrow> json_float_ok (th_LowerBound t) \<and> json_float_ok (th_UpperBound t) \<and>
        f_lt (th_LowerBound t) (th_UpperBound t)) \<and>
     (th_Type t = ''CHANGE'' \<longrightarrow> th_ChangePercent t = NaN \<or>
        f_lt f_zero (th_ChangePercent t) \<and> f_lt (th_ChangePercent t) (Fin 100))"

lemma format_int_not_type: "format_int i \<notin> set threshold_types"
proof
  assume "format_int i \<in> set threshold_types"
  then have "CHR ''H'' \<in> set (format_int i) \<or> CHR ''L'' \<in> set (format_int i) \<or>
      CHR ''R'' \<in> set (format_int i)"
    by (auto simp: threshold_types_def)
  then show False by (auto dest: format_int_char simp: is_digit_def)
qed

lemma enum_type_cases:
  assumes "enum_string ThresholdType_name x \<in> set threshold_types"
  shows "x = THRESHOLD_HIGH \<and> enum_string ThresholdType_name x = ''HIGH'' \<or>
    x = THRESHOLD_LOW \<and> enum_string ThresholdType_name x = ''LOW'' \<or>
    x = THRESHOLD_RANGE \<and> enum_string ThresholdType_name x = ''RANGE'' \<or>
    x = THRESHOLD_CHANGE \<and> enum_string ThresholdType_name x = ''CHANGE''"
  using assms format_int_not_type [of "sint x"]
  by (auto simp: enum_string_def ThresholdType_name_def threshold_types_def split: if_splits)

lemma f_lt_cases: "\<not> f_ge x y \<Longrightarrow> x \<noteq> NaN \<Longrightarrow> y \<noteq> NaN \<Longrightarrow> f_lt x y"
  by (cases x; cases y) (auto simp: f_ge_def f_gt_def)

lemma f_lt_cases': "\<not> f_le y x \<Longrightarrow> x \<noteq> NaN \<Longrightarrow> y \<noteq> NaN \<Longrightarrow> f_lt x y"
  by (cases x; cases y) (auto simp: f_le_def)

lemma CreateThreshold_stores_usable:
  assumes "CreateThreshold E req w = (Inr (tid, ts), w')"
  obtains t where "set (w_thresholds w') = insert t (set (w_thresholds w))" "th_ThresholdID t = tid"
    "usable_threshold t" "th_DeviceID t = ctr_DeviceId req" "th_MetricName t = ctr_MetricName req"
    "th_Type t = enum_string ThresholdType_name (ctr_Type req)"
    "th_Severity t = enum_string AlertSeverity_name (ctr_Severity req)"
    "th_LowerBound t = ctr_LowerBound req" "th_UpperBound t = ctr_UpperBound req"
    "th_ChangePercent t = ctr_ChangePercent req" "th_Enabled t = ctr_Enabled req"
proof -
  from assms have valid: "validateThresholdRequest req = None"
    by (auto simp: CreateThreshold_def split: option.splits)
  with assms obtain w1 where db: "CreateThreshold_db E (threshold_of_request req) w = ((tid, None), w1)"
    "w_thresholds w' = w_thresholds w1"
    by (auto simp: CreateThreshold_def time_now_def split: option.splits prod.splits)
  from db(1) show thesis
  proof (cases rule: CreateThreshold_db_ok)
    case (1 now n)
    let ?t = "(threshold_of_request req)\<lparr>th_ThresholdID := tid, th_CreatedAt := now, th_UpdatedAt := now\<rparr>"
    from 1(3) have types: "enum_string ThresholdType_name (ctr_Type req) \<in> set threshold_types"
      "enum_string AlertSeverity_name (ctr_Severity req) \<in> set severities"
      by (auto simp: threshold_checks_def threshold_of_request_def split: if_splits)
    have "usable_threshold ?t"
      using valid types enum_type_cases [OF types(1)] f_lt_cases [of "ctr_LowerBound req" "ctr_UpperBound req"]
        f_lt_cases [of "ctr_ChangePercent req" "Fin 100"] f_lt_cases' [of "ctr_ChangePercent req" f_zero]
      unfolding usable_threshold_def validateThresholdRequest_def threshold_of_request_def
      by (auto simp: json_float_ok_def Let_def f_is_nan_def f_is_inf_def f_ge_def f_le_def f_gt_def
          split: if_splits)
    with 1 db(2) show thesis by (intro that [of ?t]) (simp_all add: threshold_of_request_def)
  qed
qed

section \<open>Updates\<close>

lemma set_columns_enabled:
  "set_columns us t = Inr t' \<Longrightarrow> (''enabled'', UBool False) \<notin> set us \<Longrightarrow>
   th_Enabled t \<Longrightarrow> th_Enabled t'"
  by (induction us t rule: set_columns.induct)
    (auto simp: set_column_def split: sum.splits update_value.splits if_splits)

lemma threshold_updates_never_disable: "(''enabled'', UBool False) \<notin> set (threshold_updates req)"
  by (auto simp: threshold_updates_def)

text \<open>No request disables a threshold: an enabled row is enabled after every update.\<close>

lemma UpdateThreshold_keeps_enabled:
  assumes "UpdateThreshold E req w = (r, w')" "t \<in> set (w_thresholds w)" "th_Enabled t"
    "distinct_by th_ThresholdID (w_thresholds w)"
  shows "\<exists>t' \<in> set (w_thresholds w'). th_ThresholdID t' = th_ThresholdID t \<and> th_Enabled t'"
proof -
  let ?us = "threshold_updates req" and ?id = "utr_ThresholdId req"
  consider "w_thresholds w' = w_thresholds w"
    | w1 where "UpdateThreshold_db E ?id ?us w = (None, w1)" "w_thresholds w' = w_thresholds w1"
    using assms(1)
    by (auto simp: UpdateThreshold_def time_now_def split: if_splits option.splits prod.splits
        dest!: UpdateThreshold_db_err dest: same_dataD(4))
  then show ?thesis
  proof cases
    case 1
    with assms(2,3) show ?thesis by auto
  next
    case (2 w1)
    show ?thesis
    proof (cases "?us = []")
      case True
      with 2 assms(2,3) show ?thesis by (auto simp: UpdateThreshold_db_def)
    next
      case False
      with 2(1) have "sql_update_threshold E ?id ?us (w\<lparr>w_tick := Suc (w_tick w)\<rparr>) = (None, w1)"
        by (auto simp: UpdateThreshold_db_def ext_fault_def split: option.splits)
      then show ?thesis
      proof (cases rule: sql_update_threshold_ok)
        case no_row
        with 2(2) assms(2,3) show ?thesis using same_dataD(4) [OF no_row(2)] by auto
      next
        case (row u rw now)
        show ?thesis
        proof (cases "th_ThresholdID t = ?id")
          case True
          then have "t = u" using assms(2,4) row(1,2) by (auto simp: distinct_map inj_on_def)
          with row(3) assms(3) have "th_Enabled rw"
            using set_columns_enabled threshold_updates_never_disable by fastforce
          with True row(7,8) 2(2) assms(2) show ?thesis by auto
        next
          case False
          with row(8) 2(2) assms(2,3) show ?thesis by (auto intro!: bexI [of _ t])
        qed
      qed
    qed
  qed
qed

text \<open>A request without a positive field changes nothing and succeeds, whatever its id.\<close>

lemma UpdateThreshold_empty:
  assumes "utr_ThresholdId req \<noteq> []" "threshold_updates req = []"
  shows "\<exists>ts w'. UpdateThreshold E req w = (Inr (utr_ThresholdId req, ts), w') \<and>
     w_thresholds w' = w_thresholds w"
  using assms by (simp add: UpdateThreshold_def UpdateThreshold_db_def time_now_def)

section \<open>The mark of a silence covers the device\<close>

lemma cacheSilence_marks:
  assumes "e_redis E = Some R" "mark_law R" "cacheSilence E d w = (r, w')"
  shows "marked R d w'" "db_part w' = db_part w"
proof -
  from assms obtain r' where "r_set R (alert_key d) ''1'' defaultSilenceTTL (w_redis w) = (r, r')"
    "w' = w\<lparr>w_redis := r'\<rparr>"
    by (auto simp: cacheSilence_def redis_do_def Let_def split: prod.splits)
  with assms(2) show "marked R d w'" unfolding mark_law_def marked_def by auto
  show "db_part w' = db_part w"
    using assms(1,3) redis_do_db_part by (auto simp: cacheSilence_def)
qed

lemma SilenceAlert_marks:
  assumes "e_redis E = Some R" "mark_law R" "SilenceAlert E req w = (Inr x, w')"
  shows "marked R (sar_DeviceId req) w'"
  using assms
  by (auto simp: SilenceAlert_def time_now_def marked_def split: if_splits option.splits prod.splits
      dest!: cacheSilence_marks(1) [OF assms(1,2)])

text \<open>Clearing the rules does not touch Redis: the mark stands until it expires.\<close>

lemma ClearSilence_keeps_redis: "ClearSilence E d w = (r, w') \<Longrightarrow> w_redis w' = w_redis w"
  by (auto simp: ClearSilence_def ClearSilences_def ext_fault_def split: if_splits option.splits)

text \<open>
  With the mark set, an evaluation of any metric of the device that no rule silences stores no
  alert and publishes none.
\<close>

lemma evaluate_marked_quiet:
  assumes "e_redis E = Some R" "mark_law R" "marked R d w" "e_fault E (Suc (w_tick w)) = None"
    "no_nul d" "\<not> silenced_at d m (e_clock E (w_tick w + 2)) w"
    "evaluate E d m v (ev, w) = (ev', w')"
  shows "w_alerts w' = w_alerts w \<and> w_published w' = w_published w"
  using assms(4-7)
proof (cases rule: evaluate_unsilenced)
  case idle
  with same_dataD(5,7) [OF idle] show ?thesis by simp
next
  case (loop ts w2)
  note sd = same_dataD [OF loop(1)]
  have "marked R d w2" using assms(3) sd(9) by (simp add: marked_def)
  with evaluate_thresholds_marked [OF assms(1,2) _ loop(2)] sd show ?thesis by simp
qed

lemma evaluate_once:
  assumes "e_redis E = Some R" "mark_law R" "e_fault E (Suc (w_tick w)) = None"
    "no_nul d" "\<not> silenced_at d m (e_clock E (w_tick w + 2)) w"
    "evaluate E d m v (ev, w) = (ev', w')"
  shows "length (w_alerts w') \<le> Suc (length (w_alerts w)) \<and>
    length (w_published w') \<le> Suc (length (w_published w))"
  using assms(3-6)
proof (cases rule: evaluate_unsilenced)
  case idle
  with same_dataD(5,7) [OF idle] show ?thesis by simp
next
  case (loop ts w2)
  with evaluate_thresholds_once [OF assms(1,2) loop(2)] same_dataD(5,7) [OF loop(1)] show ?thesis by simp
qed

section \<open>Invariants\<close>

lemma CreateThreshold_inv [inv_intros]:
  assumes "CreateThreshold E req w = (r, w')" "thresholds_inv w"
  shows "thresholds_inv w'"
proof (cases "validateThresholdRequest req")
  case (Some e)
  with assms show ?thesis by (simp add: CreateThreshold_def)
next
  case None
  obtain q w1 where q: "CreateThreshold_db E (threshold_of_request req) w = (q, w1)" by fastforce
  have "thresholds_inv w1" by (rule CreateThreshold_db_inv [OF q assms(2)])
  moreover have "same_data w' w1"
    using assms(1) None q
    by (auto simp: CreateThreshold_def time_now_def split: option.splits prod.splits)
  ultimately show ?thesis using thresholds_inv_same by blast
qed

lemma evaluate_all_inv [inv_intros]:
  "evaluate_all E d m v ts w = (r, w') \<Longrightarrow> alerts_inv w \<Longrightarrow> alerts_inv w'"
proof (induction ts arbitrary: w)
  case Nil
  then show ?case by simp
next
  case (Cons t ts)
  show ?case
  proof (cases "service_check m v t")
    case None
    with Cons show ?thesis by simp
  next
    case (Some msg)
    obtain q w1 where q: "GetActiveSilences E d w = (q, w1)" by fastforce
    obtain b w2 where b: "isSilencedInRedis E d w1 = (b, w2)" by fastforce
    have "db_part w2 = db_part w1" using b
      by (auto simp: isSilencedInRedis_def split: option.splits sum.splits prod.splits
          dest: redis_do_db_part)
    with same_dataD [OF GetActiveSilences_same_data [OF q]]
    have keep: "w_devices w2 = w_devices w" "w_alerts w2 = w_alerts w" using db_partD by metis+
    from Some q b Cons.prems(1) obtain a x w5 where ins:
      "InsertAlert E a (w2\<lparr>w_tick := Suc (Suc (w_tick w2))\<rparr>) = (x, w5)"
      "x = None \<and> evaluate_all E d m v ts w5 = (r, w') \<or> w' = w5"
      by (fastforce simp: time_now_def Let_def split: option.splits prod.splits)
    have "alerts_inv (w2\<lparr>w_tick := Suc (Suc (w_tick w2))\<rparr>)"
      using alerts_inv_cong [of "w2\<lparr>w_tick := Suc (Suc (w_tick w2))\<rparr>" w] keep Cons.prems(2) by simp
    from InsertAlert_inv [OF ins(1) this] Cons.IH ins(2) show ?thesis by blast
  qed
qed

lemma EvaluateMetric_inv [inv_intros]:
  assumes "EvaluateMetric E d m v w = (r, w')" "alerts_inv w"
  shows "alerts_inv w'"
proof -
  obtain q w1 where q: "GetThresholds_db E d m True w = (q, w1)" by fastforce
  have "alerts_inv w1" using alerts_inv_same [OF GetThresholds_db_same_data [OF q]] assms(2) by simp
  with assms(1) q show ?thesis
    by (cases q) (auto simp: EvaluateMetric_def intro: evaluate_all_inv)
qed

section \<open>The severity of an update\<close>

lemma set_columns_severity:
  "set_columns (threshold_updates req) t = Inr t1 \<Longrightarrow> 0 < sint (utr_Severity req) \<Longrightarrow>
   th_Severity t1 = enum_string AlertSeverity_name (utr_Severity req)"
  by (auto simp: threshold_updates_def set_column_def split: if_splits)

lemma UpdateThreshold_severity:
  assumes "UpdateThreshold E req w = (Inr x, w')" "0 < sint (utr_Severity req)"
    "t \<in> set (w_thresholds w')" "th_ThresholdID t = utr_ThresholdId req"
  shows "th_Severity t = enum_string AlertSeverity_name (utr_Severity req)"
proof -
  let ?us = "threshold_updates req" and ?id = "utr_ThresholdId req"
  have ne: "?us \<noteq> []" using assms(2) by (simp add: threshold_updates_def)
  from assms(1) obtain w1 where w1: "UpdateThreshold_db E ?id ?us w = (None, w1)"
    "w_thresholds w' = w_thresholds w1"
    by (auto simp: UpdateThreshold_def time_now_def split: if_splits option.splits prod.splits)
  with ne have "sql_update_threshold E ?id ?us (w\<lparr>w_tick := Suc (w_tick w)\<rparr>) = (None, w1)"
    by (auto simp: UpdateThreshold_db_def ext_fault_def split: option.splits)
  then show ?thesis
  proof (cases rule: sql_update_threshold_ok)
    case no_row
    with assms(3,4) w1(2) same_dataD(4) [OF no_row(2)] show ?thesis by force
  next
    case (row u rw now)
    then have "t = rw" using assms(3,4) w1(2) by (auto split: if_splits)
    with row(3) assms(2) set_columns_severity show ?thesis by fastforce
  qed
qed

section \<open>The invariant of the threshold table\<close>

lemma UpdateThreshold_inv [inv_intros]:
  assumes "UpdateThreshold E req w = (r, w')" "thresholds_inv w"
  shows "thresholds_inv w'"
proof (cases "utr_ThresholdId req = []")
  case True
  with assms show ?thesis by (simp add: UpdateThreshold_def)
next
  case False
  obtain q w1 where q: "UpdateThreshold_db E (utr_ThresholdId req) (threshold_updates req) w = (q, w1)"
    by fastforce
  have "thresholds_inv w1" by (rule UpdateThreshold_db_inv [OF q assms(2)])
  moreover have "same_data w' w1"
    using assms(1) False q by (auto simp: UpdateThreshold_def time_now_def split: option.splits)
  ultimately show ?thesis using thresholds_inv_same by blast
qed

lemma DeleteThreshold_inv [inv_intros]:
  "DeleteThreshold E tid w = (r, w') \<Longrightarrow> thresholds_inv w \<Longrightarrow> thresholds_inv w'"
  by (auto simp: DeleteThreshold_def split: if_splits option.splits prod.splits intro: DeleteThreshold_db_inv)

end
