(* ===== verification/Gateway.thy ===== *)
theory Gateway
  imports AlertService DeviceService TelemetryService
begin

text \<open>
  \<open>cmd/api-gateway/main.go\<close>: the HTTP handlers. Of fiber a handler uses the parsed body
  (\<open>None\<close> where \<open>BodyParser\<close> fails), the query parameters (\<open>[]\<close> for a missing one) and the
  path parameter; the gRPC client of a service is the parameter \<open>call\<close>, and \<open>err_text\<close> is the
  \<open>Error()\<close> of its errors. A response is the status and the body.
\<close>

section \<open>Responses and parameters\<close>

datatype 'm http_body = ErrorBody string | Message 'm | StreamClient | NoBody

type_synonym 'm http_response = "nat \<times> 'm http_body"

definition parseInt :: "string \<Rightarrow> i64 \<Rightarrow> i64" where
  "parseInt s defaultVal = (case parse_int s of Inl e \<Rightarrow> defaultVal | Inr v \<Rightarrow> word_of_int v)"

definition getEnv :: "(string \<Rightarrow> string) \<Rightarrow> string \<Rightarrow> string \<Rightarrow> string" where
  "getEnv environ key fallback = (if environ key \<noteq> '''' then environ key else fallback)"

definition rpc_reply :: "('e \<Rightarrow> string) \<Rightarrow> nat \<Rightarrow> ('e + 'm) \<times> 's \<Rightarrow> 'm http_response \<times> 's" where
  "rpc_reply err_text code r =
     (case r of
        (Inl e, s) \<Rightarrow> ((500, ErrorBody (err_text e)), s)
      | (Inr m, s) \<Rightarrow> ((code, Message m), s))"

definition enum_or :: "(i32 \<times> string) list \<Rightarrow> string \<Rightarrow> i32 \<Rightarrow> i32" where
  "enum_or names s d = (case enum_value names s of Some v \<Rightarrow> v | None \<Rightarrow> d)"

section \<open>Devices\<close>

record create_device_body =
  cdb_DeviceID :: string
  cdb_Floor :: string
  cdb_DeviceType :: string
  cdb_FirmwareVersion :: string

definition gw_createDevice ::
    "('e \<Rightarrow> string) \<Rightarrow> (create_device_request \<Rightarrow> 's \<Rightarrow> ('e + 'm) \<times> 's) \<Rightarrow> create_device_body option \<Rightarrow>
     's \<Rightarrow> 'm http_response \<times> 's" where
  "gw_createDevice err_text call body s =
     (case body of
        None \<Rightarrow> ((400, ErrorBody ''invalid request''), s)
      | Some req \<Rightarrow> rpc_reply err_text 201
          (call \<lparr>cdr_DeviceId = cdb_DeviceID req, cdr_Floor = cdb_Floor req,
                 cdr_DeviceType = cdb_DeviceType req, cdr_FirmwareVersion = cdb_FirmwareVersion req\<rparr> s))"

definition gw_getDevice ::
    "('e \<Rightarrow> string) \<Rightarrow> (string \<Rightarrow> 's \<Rightarrow> ('e + 'm) \<times> 's) \<Rightarrow> string \<Rightarrow> 's \<Rightarrow> 'm http_response \<times> 's" where
  "gw_getDevice err_text call deviceID s = rpc_reply err_text 200 (call deviceID s)"

definition gw_listDevices ::
    "('e \<Rightarrow> string) \<Rightarrow> (list_devices_request \<Rightarrow> 's \<Rightarrow> ('e + 'm) \<times> 's) \<Rightarrow> (string \<Rightarrow> string) \<Rightarrow> 's \<Rightarrow>
     'm http_response \<times> 's" where
  "gw_listDevices err_text call query s =
     (let limit = parseInt (query ''limit'') 100; offset = parseInt (query ''offset'') 0 in
      rpc_reply err_text 200
        (call \<lparr>ldr_FilterFloor = [], ldr_FilterStatus = 0, ldr_Limit = int32_of_int64 limit,
               ldr_Offset = int32_of_int64 offset\<rparr> s))"

definition gw_updateDeviceStatus ::
    "('e \<Rightarrow> string) \<Rightarrow> (update_device_status_request \<Rightarrow> 's \<Rightarrow> ('e + 'm) \<times> 's) \<Rightarrow> string \<Rightarrow>
     string option \<Rightarrow> 's \<Rightarrow> 'm http_response \<times> 's" where
  "gw_updateDeviceStatus err_text call deviceID body s =
     (case body of
        None \<Rightarrow> ((400, ErrorBody ''invalid request''), s)
      | Some st \<Rightarrow> rpc_reply err_text 200
          (call \<lparr>udr_DeviceId = deviceID,
                 udr_NewStatus = enum_or DeviceStatus_name st DEVICE_STATUS_UNSPECIFIED\<rparr> s))"

section \<open>Telemetry\<close>

record metric_body =
  mb_DeviceID :: string
  mb_MetricName :: string
  mb_Value :: float64
  mb_Timestamp :: i64

definition gw_metric_request :: "metric_body \<Rightarrow> submit_metric_request" where
  "gw_metric_request req =
     \<lparr>smr_DeviceId = mb_DeviceID req, smr_MetricName = mb_MetricName req, smr_Value = mb_Value req,
      smr_TimestampUnixSeconds = mb_Timestamp req, smr_Tags = [], smr_Status = 0\<rparr>"

definition gw_submitMetric ::
    "('e \<Rightarrow> string) \<Rightarrow> (submit_metric_request \<Rightarrow> 's \<Rightarrow> ('e + 'm) \<times> 's) \<Rightarrow> metric_body option \<Rightarrow> 's \<Rightarrow>
     'm http_response \<times> 's" where
  "gw_submitMetric err_text call body s =
     (case body of
        None \<Rightarrow> ((400, ErrorBody ''invalid request''), s)
      | Some req \<Rightarrow> rpc_reply err_text 201 (call (gw_metric_request req) s))"

text \<open>
  \<open>QueryMetrics\<close> is a streaming call: opening the stream gives a client object, and it is this
  object the handler sends as JSON; \<open>call\<close> only opens the stream.
\<close>

definition gw_query_request :: "(string \<Rightarrow> string) \<Rightarrow> query_metrics_request" where
  "gw_query_request query =
     (let startTime = parseInt (query ''start_time'') 0; endTime = parseInt (query ''end_time'') 0;
          limit = parseInt (query ''limit'') 100
      in \<lparr>qmr_DeviceId = query ''device_id'', qmr_MetricName = query ''metric_name'',
          qmr_StartTime = pb_new (time_unix startTime), qmr_EndTime = pb_new (time_unix endTime),
          qmr_Limit = int32_of_int64 limit, qmr_Offset = 0, qmr_OrderAscending = False\<rparr>)"

definition gw_queryMetrics ::
    "('e \<Rightarrow> string) \<Rightarrow> (query_metrics_request \<Rightarrow> 's \<Rightarrow> 'e option \<times> 's) \<Rightarrow> (string \<Rightarrow> string) \<Rightarrow> 's \<Rightarrow>
     'm http_response \<times> 's" where
  "gw_queryMetrics err_text call query s =
     (if query ''device_id'' = '''' then ((400, ErrorBody ''device_id required''), s)
      else case call (gw_query_request query) s of
        (Some e, s') \<Rightarrow> ((500, ErrorBody (err_text e)), s')
      | (None, s') \<Rightarrow> ((200, StreamClient), s'))"

section \<open>Alerts\<close>

definition gw_getActiveAlerts ::
    "('e \<Rightarrow> string) \<Rightarrow> (get_active_alerts_request \<Rightarrow> 's \<Rightarrow> ('e + 'm) \<times> 's) \<Rightarrow> (string \<Rightarrow> string) \<Rightarrow> 's \<Rightarrow>
     'm http_response \<times> 's" where
  "gw_getActiveAlerts err_text call query s =
     (let limit = parseInt (query ''limit'') 100 in
      rpc_reply err_text 200
        (call \<lparr>aar_DeviceId = query ''device_id'', aar_MinSeverity = 0,
               aar_Limit = int32_of_int64 limit, aar_Offset = 0\<rparr> s))"

definition gw_getAlertStats ::
    "('e \<Rightarrow> string) \<Rightarrow> (get_alert_stats_request \<Rightarrow> 's \<Rightarrow> ('e + 'm) \<times> 's) \<Rightarrow> (string \<Rightarrow> string) \<Rightarrow> 's \<Rightarrow>
     'm http_response \<times> 's" where
  "gw_getAlertStats err_text call query s =
     (if query ''device_id'' = '''' then ((400, ErrorBody ''device_id required''), s)
      else rpc_reply err_text 200
        (call \<lparr>asr_DeviceId = query ''device_id'', asr_StartTime = None, asr_EndTime = None\<rparr> s))"

record threshold_body =
  tb_DeviceID :: string
  tb_MetricName :: string
  tb_Type :: string
  tb_LowerBound :: float64
  tb_UpperBound :: float64
  tb_ChangePercent :: float64
  tb_Severity :: string
  tb_Enabled :: bool

definition gw_threshold_request :: "threshold_body \<Rightarrow> create_threshold_request" where
  "gw_threshold_request req =
     \<lparr>ctr_DeviceId = tb_DeviceID req, ctr_MetricName = tb_MetricName req,
      ctr_Type = enum_or ThresholdType_name (tb_Type req) THRESHOLD_HIGH,
      ctr_LowerBound = tb_LowerBound req, ctr_UpperBound = tb_UpperBound req,
      ctr_ChangePercent = tb_ChangePercent req,
      ctr_Severity = enum_or AlertSeverity_name (tb_Severity req) 2, ctr_Enabled = tb_Enabled req\<rparr>"

definition gw_createThreshold ::
    "('e \<Rightarrow> string) \<Rightarrow> (create_threshold_request \<Rightarrow> 's \<Rightarrow> ('e + 'm) \<times> 's) \<Rightarrow> threshold_body option \<Rightarrow>
     's \<Rightarrow> 'm http_response \<times> 's" where
  "gw_createThreshold err_text call body s =
     (case body of
        None \<Rightarrow> ((400, ErrorBody ''invalid request''), s)
      | Some req \<Rightarrow> rpc_reply err_text 201 (call (gw_threshold_request req) s))"

definition gw_getThresholds ::
    "('e \<Rightarrow> string) \<Rightarrow> (get_thresholds_request \<Rightarrow> 's \<Rightarrow> ('e + 'm) \<times> 's) \<Rightarrow> (string \<Rightarrow> string) \<Rightarrow> 's \<Rightarrow>
     'm http_response \<times> 's" where
  "gw_getThresholds err_text call query s =
     rpc_reply err_text 200
       (call \<lparr>gtr_DeviceId = query ''device_id'', gtr_MetricName = query ''metric_name'',
              gtr_OnlyEnabled = False\<rparr> s)"

record update_threshold_body =
  ub_LowerBound :: float64
  ub_UpperBound :: float64
  ub_ChangePercent :: float64
  ub_Severity :: string
  ub_Enabled :: bool

definition gw_update_request :: "string \<Rightarrow> update_threshold_body \<Rightarrow> update_threshold_request" where
  "gw_update_request thresholdID req =
     \<lparr>utr_ThresholdId = thresholdID, utr_LowerBound = ub_LowerBound req,
      utr_UpperBound = ub_UpperBound req, utr_ChangePercent = ub_ChangePercent req,
      utr_Severity = enum_or AlertSeverity_name (ub_Severity req) 2, utr_Enabled = ub_Enabled req\<rparr>"

definition gw_updateThreshold ::
    "('e \<Rightarrow> string) \<Rightarrow> (update_threshold_request \<Rightarrow> 's \<Rightarrow> ('e + 'm) \<times> 's) \<Rightarrow> string \<Rightarrow>
     update_threshold_body option \<Rightarrow> 's \<Rightarrow> 'm http_response \<times> 's" where
  "gw_updateThreshold err_text call thresholdID body s =
     (case body of
        None \<Rightarrow> ((400, ErrorBody ''invalid request''), s)
      | Some req \<Rightarrow> rpc_reply err_text 200 (call (gw_update_request thresholdID req) s))"

definition gw_deleteThreshold ::
    "('e \<Rightarrow> string) \<Rightarrow> (string \<Rightarrow> 's \<Rightarrow> 'e option \<times> 's) \<Rightarrow> string \<Rightarrow> 's \<Rightarrow> 'm http_response \<times> 's" where
  "gw_deleteThreshold err_text call thresholdID s =
     (case call thresholdID s of
        (Some e, s') \<Rightarrow> ((500, ErrorBody (err_text e)), s')
      | (None, s') \<Rightarrow> ((204, NoBody), s'))"

record silence_body =
  sb_DeviceID :: string
  sb_MetricName :: string
  sb_DurationSec :: i32
  sb_Reason :: string

definition gw_silenceAlert ::
    "('e \<Rightarrow> string) \<Rightarrow> (silence_alert_request \<Rightarrow> 's \<Rightarrow> ('e + 'm) \<times> 's) \<Rightarrow> silence_body option \<Rightarrow> 's \<Rightarrow>
     'm http_response \<times> 's" where
  "gw_silenceAlert err_text call body s =
     (case body of
        None \<Rightarrow> ((400, ErrorBody ''invalid request''), s)
      | Some req \<Rightarrow> rpc_reply err_text 200
          (call \<lparr>sar_DeviceId = sb_DeviceID req, sar_MetricName = sb_MetricName req,
                 sar_DurationSeconds = sb_DurationSec req, sar_Reason = sb_Reason req\<rparr> s))"

section \<open>Facts\<close>

lemma rpc_reply_status:
  "rpc_reply err_text code r = ((st, body), s) \<Longrightarrow> (\<exists>m. body = Message m \<and> fst r = Inr m \<and> st = code) \<or>
     (\<exists>e. body = ErrorBody (err_text e) \<and> fst r = Inl e \<and> st = 500)"
  by (auto simp: rpc_reply_def split: prod.splits sum.splits)

lemma rpc_reply_state: "snd (rpc_reply err_text code r) = snd r"
  by (auto simp: rpc_reply_def split: prod.splits sum.splits)

lemma enum_or_declared:
  "distinct (map fst ns) \<Longrightarrow> distinct (map snd ns) \<Longrightarrow> x \<in> fst ` set ns \<Longrightarrow>
   enum_or ns (enum_string ns x) d = x"
  by (simp add: enum_or_def enum_value_string)

lemma parseInt_format: "parseInt (format_int (sint x)) d = x"
  by (simp add: parseInt_def parse_int_format_int [OF sint_i64_range])

text \<open>The two device routes that cannot succeed.\<close>

lemma gw_updateDeviceStatus_never:
  "\<exists>code msg w'. gw_updateDeviceStatus err_text (UpdateDeviceStatus E R) deviceID body w =
     ((code, ErrorBody msg), w') \<and> code \<in> {400, 500} \<and> same_data w' w"
proof (cases body)
  case None
  then show ?thesis by (simp add: gw_updateDeviceStatus_def)
next
  case (Some st)
  from UpdateDeviceStatus_never [of E R "\<lparr>udr_DeviceId = deviceID,
      udr_NewStatus = enum_or DeviceStatus_name st DEVICE_STATUS_UNSPECIFIED\<rparr>" w]
  show ?thesis by (auto simp: gw_updateDeviceStatus_def Some rpc_reply_def)
qed

lemma gw_listDevices_never:
  "\<exists>msg w'. gw_listDevices err_text (ListDevices E) query w = ((500, ErrorBody msg), w')"
proof -
  let ?req = "\<lparr>ldr_FilterFloor = [], ldr_FilterStatus = 0,
    ldr_Limit = int32_of_int64 (parseInt (query ''limit'') 100),
    ldr_Offset = int32_of_int64 (parseInt (query ''offset'') 0)\<rparr>"
  from ListDevices_unfiltered [of ?req E w] show ?thesis
    by (auto simp: gw_listDevices_def Let_def rpc_reply_def)
qed

text \<open>An update through the gateway that names no severity makes it a warning.\<close>

lemma gw_updateThreshold_severity:
  assumes "gw_updateThreshold err_text (UpdateThreshold E) tid (Some body) w = ((200, m), w')"
    "enum_value AlertSeverity_name (ub_Severity body) = None"
    "t \<in> set (w_thresholds w')" "th_ThresholdID t = tid"
  shows "th_Severity t = ''WARNING''"
proof -
  let ?req = "gw_update_request tid body"
  from assms(1) obtain x where "UpdateThreshold E ?req w = (Inr x, w')"
    by (auto simp: gw_updateThreshold_def rpc_reply_def split: prod.splits sum.splits)
  moreover have sev: "utr_Severity ?req = 2" "utr_ThresholdId ?req = tid"
    using assms(2) by (simp_all add: gw_update_request_def enum_or_def)
  ultimately have "th_Severity t = enum_string AlertSeverity_name 2"
    using UpdateThreshold_severity [of E ?req w x w' t] assms(3,4) by simp
  then show ?thesis by (simp add: enum_string_def AlertSeverity_name_def)
qed

text \<open>
  The time range of a query through the gateway is never open: a missing end is the Unix epoch,
  so a later start is rejected by the service.
\<close>

lemma gw_query_request_no_end:
  assumes "query ''end_time'' = ''''" "query ''device_id'' \<noteq> ''''" "query ''metric_name'' \<noteq> ''''"
    "parse_int (query ''start_time'') = Inr s" "0 < s" "s < 2 ^ 62"
  shows "QueryMetrics_handler E (gw_query_request query) w =
    (([], Some (invalid_argument ''end_time must be after start_time'')), w)"
proof -
  have r: "sint (word_of_int s + unix_to_internal) = s + 62135596800"
  proof -
    have "word_of_int s + unix_to_internal = (word_of_int (s + 62135596800) :: i64)"
      by (simp add: unix_to_internal_def)
    then show ?thesis using assms(5,6) by (simp add: sint_word_of_int_i64 del: of_int_add)
  qed
  have e: "parseInt [] 0 = 0" by (simp add: parseInt_def parse_int_def)
  have "parseInt (query ''start_time'') 0 = word_of_int s" by (simp add: parseInt_def assms(4))
  moreover have nz: "\<not> is_zero_time (time_unix (word_of_int s))"
  proof
    assume "is_zero_time (time_unix (word_of_int s))"
    then have "sint (word_of_int s + unix_to_internal) = 0" by (simp add: is_zero_time_def time_unix_def)
    with r assms(5) show False by simp
  qed
  moreover have "\<not> is_zero_time (time_unix 0)"
    by (simp add: is_zero_time_def time_unix_def unix_to_internal_def)
  moreover have "time_before (time_unix 0) (time_unix (word_of_int s))"
    using r assms(5) by (simp add: time_before_def time_unix_def) (simp add: unix_to_internal_def)
  ultimately have range: "time_range_error (pb_new (time_unix (word_of_int s))) (pb_new (time_unix 0))"
    by (simp add: time_range_error_def opt_time_def pb_new_def as_time_def)
  with e assms show ?thesis
    by (simp add: QueryMetrics_handler_def gw_query_request_def Let_def validateQueryRequest_def
        parseInt_def)
qed

end
