(* ===== verification/Example.thy ===== *)
theory Example
  imports WriteQueue SilentWatchdog TelemetryIngest Connector Gateway
begin

text \<open>
  A concrete deployment in which the hypotheses of the properties hold: the in-memory Redis, a
  clock that stands still, no failing call, one provisioned device and
  one HIGH threshold on its temperature; and the runs of the operations on it that the
  properties' instances use.
\<close>

section \<open>Environment and state\<close>

definition ex_clock :: "nat \<Rightarrow> gotime" where
  "ex_clock n = GoTime 63835596800 0"

definition ex_env :: "mem env" where
  "ex_env =
     \<lparr>e_clock = ex_clock, e_fault = (\<lambda>_. None), e_redis = Some mem_redis,
      e_pgmsg = (\<lambda>_. ''constraint violated''),
      e_json_device = (\<lambda>d. Inl (ErrText ''json'')), e_unjson_device = (\<lambda>s. Inl (ErrText ''json'')),
      e_json_aggs = (\<lambda>as. Inl (ErrText ''json'')), e_unjson_aggs = (\<lambda>s. Inl (ErrText ''json'')),
      e_agg = (\<lambda>q d m a b. Inr []), e_avg = hd, e_stddev = (\<lambda>xs. None), e_collate = id,
      e_calls = (\<lambda>d n. 100)\<rparr>"

definition ex_device :: device where
  "ex_device =
     \<lparr>dv_DeviceID = ''d1'', dv_Floor = ''f1'', dv_DeviceType = ''sensor'', dv_FirmwareVersion = ''1'',
      dv_Status = ''active'', dv_CertificateCN = ''d1'', dv_ProvisionnedAt = ex_clock 0,
      dv_LastSeen = ex_clock 0, dv_CreatedAt = ex_clock 0, dv_UpdatedAt = ex_clock 0\<rparr>"

definition ex_threshold :: threshold where
  "ex_threshold =
     \<lparr>th_ThresholdID = ''t1'', th_DeviceID = ''d1'', th_MetricName = ''temperature'', th_Type = ''HIGH'',
      th_LowerBound = Fin 0, th_UpperBound = Fin 30, th_ChangePercent = Fin 0,
      th_Severity = ''CRITICAL'', th_Enabled = True, th_CreatedAt = ex_clock 0,
      th_UpdatedAt = ex_clock 0\<rparr>"

definition ex_world :: "mem world" where
  "ex_world =
     \<lparr>w_tick = 0, w_redis = [], w_devices = [ex_device], w_certs = [], w_metrics = [],
      w_thresholds = [ex_threshold], w_alerts = [], w_silences = [], w_published = [], w_tasks = []\<rparr>"

definition ex_request :: submit_metric_request where
  "ex_request =
     \<lparr>smr_DeviceId = ''d1'', smr_MetricName = ''temperature'', smr_Value = Fin 35,
      smr_TimestampUnixSeconds = 1699999990, smr_Tags = [], smr_Status = 1\<rparr>"

definition ex_time :: gotime where
  "ex_time = GoTime 63835596790 0"

definition ex_point :: metric_point where
  "ex_point = metricPointFromRequest ex_request ex_time"

section \<open>A submission\<close>

lemma ex_env_simps [simp]:
  "e_clock ex_env = ex_clock" "e_fault ex_env n = None" "e_redis ex_env = Some mem_redis"
  "e_pgmsg ex_env c = ''constraint violated''"
  by (simp_all add: ex_env_def)

lemma ex_world_simps [simp]:
  "w_tick ex_world = 0" "w_redis ex_world = []" "w_devices ex_world = [ex_device]" "w_metrics ex_world = []"
  "w_thresholds ex_world = [ex_threshold]" "w_alerts ex_world = []" "w_silences ex_world = []"
  "w_published ex_world = []" "w_tasks ex_world = []" "w_certs ex_world = []"
  by (simp_all add: ex_world_def)

lemma ex_validate:
  "validateAndResolveMetricTimestamp ex_env ex_request w = (Inr ex_time, w\<lparr>w_tick := Suc (w_tick w)\<rparr>)"
  by (simp add: validateAndResolveMetricTimestamp_def validateSubmitRequest_def ex_request_def isFinite_def
      f_1e308_def f_gt_def time_now_def ex_clock_def time_unix_def unix_to_internal_def time_after_def
      time_before_def time_add_def add_secs_def futureTimestampSkew_def seconds_def ex_time_def Let_def)

definition ex_mark :: mem where
  "ex_mark = [(dedup_key ''d1'' ex_time, ''1'')]"

lemma ex_prefix:
  "submit_prefix ex_env ex_request ex_world =
     (Inr ex_point, ex_world\<lparr>w_tick := 1, w_redis := ex_mark\<rparr>)"
  by (simp add: submit_prefix_def ex_validate isDuplicate_def TryMarkDedup_def redis_do_def
      mem_redis_def ex_point_def ex_mark_def) (simp add: ex_world_def ex_request_def)

lemma ex_checks: "first_violation (metric_checks (row_of_point ex_point)) = None"
  by (simp add: metric_checks_def row_of_point_def ex_point_def metricPointFromRequest_def ex_request_def
      no_nul_def utf8_len_def enum_string_def MetricStatus_name_def)

lemma ex_point_simps [simp]:
  "mp_DeviceID ex_point = ''d1''" "mp_MetricName ex_point = ''temperature''"
  "mp_Timestamp ex_point = ex_time" "mp_Value ex_point = Fin 35"
  by (simp_all add: ex_point_def metricPointFromRequest_def ex_request_def)

lemma ex_insert:
  assumes "w_metrics w = []" "w_devices w = [ex_device]"
  shows "InsertMetric ex_env ex_point w =
    (None, w\<lparr>w_tick := Suc (w_tick w), w_metrics := [row_of_point ex_point]\<rparr>)"
proof -
  have "mr_DeviceID (row_of_point ex_point) = ''d1''" by (simp add: row_of_point_def)
  then show ?thesis
    using assms by (simp add: InsertMetric_def ext_fault_def sql_insert_metric_def ex_checks device_ids_def
        ex_device_def)
qed

lemma ex_scan:
  assumes "\<forall>k \<in> fst ` set (w_redis w). \<not> has_prefix k p" "CHR ''*'' \<notin> set p"
  shows "scan_del_loop mem_redis a b 0 (p @ ''*'') (Some (Suc n)) w = Some (None, Some n, w)"
    "scan_del_loop mem_redis a b 0 (p @ ''*'') None w = Some (None, None, w)"
proof -
  have "takeWhile (\<lambda>x. x \<noteq> CHR ''*'') (p @ ''*'') = p" by (simp add: assms(2) takeWhile_append_notin)
  then have "redis_do (r_scan mem_redis 0 (p @ ''*'') 0) w = (Inr ([], 0), w)"
    using assms(1) by (simp add: redis_do_def mem_redis_def filter_empty_conv)
  then show "scan_del_loop mem_redis a b 0 (p @ ''*'') (Some (Suc n)) w = Some (None, Some n, w)"
    "scan_del_loop mem_redis a b 0 (p @ ''*'') None w = Some (None, None, w)"
    by (subst scan_del_loop.simps, simp add: ctx_do_def)+
qed

lemma ex_invalidate:
  assumes "\<forall>k \<in> fst ` set (w_redis w). \<not> has_prefix k ''point:'' \<and> \<not> has_prefix k ''stats:''"
  shows "InvalidateMetricCache ex_env (Some (Suc (Suc n))) ''d1'' ''temperature'' w = Some (None, Some n, w)"
    "InvalidateMetricCache ex_env None ''d1'' ''temperature'' w = Some (None, None, w)"
proof -
  have "\<forall>k \<in> fst ` set (w_redis w). \<not> has_prefix k ''point:d1:temperature:''"
    "\<forall>k \<in> fst ` set (w_redis w). \<not> has_prefix k ''stats:d1:temperature:''"
    using assms has_prefix_append_left [of _ "''point:''" "''d1:temperature:''"]
      has_prefix_append_left [of _ "''stats:''" "''d1:temperature:''"] by auto
  from ex_scan [OF this(1)] ex_scan [OF this(2)]
  show "InvalidateMetricCache ex_env (Some (Suc (Suc n))) ''d1'' ''temperature'' w = Some (None, Some n, w)"
    "InvalidateMetricCache ex_env None ''d1'' ''temperature'' w = Some (None, None, w)"
    by (simp_all add: InvalidateMetricCache_def)
qed

definition ex_world1 :: "mem world" where
  "ex_world1 = ex_world\<lparr>w_tick := 2, w_metrics := [row_of_point ex_point],
     w_redis := (last_seen_key ''d1'', unix_dec ex_time) # ex_mark,
     w_tasks := [(''d1'', ''temperature'', Fin 35)]\<rparr>"

lemma ex_post:
  "postMetricWrite ex_env True ex_point
     (ex_world\<lparr>w_tick := 2, w_redis := ex_mark, w_metrics := [row_of_point ex_point]\<rparr>) = Some ex_world1"
proof -
  let ?w = "ex_world\<lparr>w_tick := 2, w_redis := ex_mark, w_metrics := [row_of_point ex_point]\<rparr>"
  have keys: "\<forall>k \<in> fst ` set (w_redis ?w). \<not> has_prefix k ''point:'' \<and> \<not> has_prefix k ''stats:''"
    by (simp add: ex_mark_def dedup_key_not_cached)
  have "with_timeout ex_env d ?w = Some (Suc (Suc 98))" for d by (simp add: with_timeout_def ex_env_def)
  with ex_invalidate(1) [OF keys, of 98] show ?thesis
    by (simp add: postMetricWrite_def markLastSeen_def SetDeviceLastSeen_def redis_do_def mem_redis_def
        evaluateAsync_def EvaluateAsync_def ex_world1_def ex_world_def)
qed

lemma ex_submit:
  "SubmitMetric ex_env True ex_request ex_world = Some (Inr (stored_response ex_time), ex_world1)"
proof -
  have "InsertMetric ex_env ex_point (ex_world\<lparr>w_tick := 1, w_redis := ex_mark\<rparr>) =
    (None, ex_world\<lparr>w_tick := 2, w_redis := ex_mark, w_metrics := [row_of_point ex_point]\<rparr>)"
    by (simp add: ex_insert)
  then show ?thesis by (simp add: SubmitMetric_def ex_prefix ex_post)
qed

section \<open>A run through the write queue\<close>

definition ex_q1 :: "mem queue_state" where
  "ex_q1 = submit_call ex_env 2 (MetricReq ex_request) (initial_queue_state ex_world)"

lemma ex_q1_simps:
  "qs_world ex_q1 = ex_world\<lparr>w_tick := 1, w_redis := ex_mark\<rparr>" "qs_worker ex_q1 = Idle"
  "qs_queue ex_q1 = [\<lparr>wj_call = 0, wj_points = [ex_point]\<rparr>]" "qs_post ex_q1 = []"
  "qs_calls ex_q1 = [\<lparr>cl_batch = False, cl_points = [ex_point],
     cl_reply = MetricReply (stored_response ex_time), cl_done = None, cl_result = None\<rparr>]"
  by (simp_all add: ex_q1_def submit_call_def handler_prefix_def initial_queue_state_def ex_prefix try_send_def)

definition ex_q2 :: "mem queue_state" where
  "ex_q2 = ex_q1\<lparr>
     qs_world := ex_world\<lparr>w_tick := 2, w_redis := ex_mark, w_metrics := [row_of_point ex_point]\<rparr>,
     qs_queue := [], qs_calls := [(qs_calls ex_q1 ! 0)\<lparr>cl_done := Some None\<rparr>], qs_post := [ex_point]\<rparr>"

lemma ex_q2: "worker_write ex_env ex_q1 = Some ex_q2"
  by (simp add: worker_write_def ex_q1_simps write_points_def ex_insert ex_q2_def)

definition ex_q3 :: "mem queue_state" where
  "ex_q3 = ex_q2\<lparr>qs_calls := [finish_call (qs_calls ex_q2 ! 0) None]\<rparr>"

lemma ex_q3_call:
  "qs_calls ex_q3 = [\<lparr>cl_batch = False, cl_points = [ex_point],
     cl_reply = MetricReply (stored_response ex_time), cl_done = Some None,
     cl_result = Some (Inr (MetricReply (stored_response ex_time)))\<rparr>]"
  by (simp add: ex_q3_def ex_q2_def ex_q1_simps finish_call_def)

lemma ex_q_run: "(qstep ex_env True 2)\<^sup>*\<^sup>* (initial_queue_state ex_world) ex_q3"
proof -
  have "qstep ex_env True 2 (initial_queue_state ex_world) ex_q1"
    unfolding ex_q1_def by (rule qstep.submit)
  moreover have "qstep ex_env True 2 ex_q1 ex_q2" by (rule qstep.work [OF ex_q2])
  moreover have "qstep ex_env True 2 ex_q2 ex_q3"
  proof -
    have "qs_calls ex_q2 = [(qs_calls ex_q1 ! 0)\<lparr>cl_done := Some None\<rparr>]" by (simp add: ex_q2_def)
    then show ?thesis
      using qstep.answer [of 0 ex_q2 None ex_env True 2] by (simp add: ex_q1_simps ex_q3_def)
  qed
  ultimately show ?thesis by simp
qed

section \<open>A batch\<close>

text \<open>The second request of the batch names no device.\<close>

definition ex_batch_requests :: "submit_metric_request list" where
  "ex_batch_requests = [ex_request, ex_request\<lparr>smr_DeviceId := []\<rparr>]"

definition ex_batch_response :: submit_batch_response where
  "ex_batch_response =
     \<lparr>sbp_AcceptedCount = 1, sbp_RejectedCount = 1, sbp_ServerTimestamp = pb_new (ex_clock 0),
      sbp_Message = ''accepted '' @ format_int 1 @ '' metrics, rejected '' @ format_int 1\<rparr>"

definition ex_batch_world :: "mem world" where
  "ex_batch_world = ex_world\<lparr>w_tick := 3, w_metrics := [row_of_point ex_point],
     w_redis := (last_seen_key ''d1'', unix_dec ex_time) # ex_mark,
     w_tasks := [(''d1'', ''temperature'', Fin 35)]\<rparr>"

lemma ex_batch_prefix:
  "batch_prefix ex_env ex_batch_requests ex_world =
     (Inr ([ex_point], ex_batch_response), ex_world\<lparr>w_tick := 2, w_redis := ex_mark\<rparr>)"
proof -
  have bad: "validateAndResolveMetricTimestamp ex_env (ex_request\<lparr>smr_DeviceId := []\<rparr>) w =
      (Inl (ErrText ''device_id required''), w)" for w
    by (simp add: validateAndResolveMetricTimestamp_def validateSubmitRequest_def)
  have dup: "isDuplicate ex_env (smr_DeviceId ex_request) ex_time (ex_world\<lparr>w_tick := 2\<rparr>) =
      (Inr False, ex_world\<lparr>w_tick := 2, w_redis := ex_mark\<rparr>)"
    by (simp add: isDuplicate_def TryMarkDedup_def redis_do_def mem_redis_def ex_mark_def)
      (simp add: ex_world_def ex_request_def)
  have "batch_loop ex_env ex_batch_requests [] 0 (ex_world\<lparr>w_tick := 1\<rparr>) =
      (([ex_point], 1), ex_world\<lparr>w_tick := 2, w_redis := ex_mark\<rparr>)"
    by (simp add: ex_batch_requests_def ex_validate bad dup [unfolded numeral_2_eq_2] numeral_2_eq_2
        flip: ex_point_def)
  moreover have "length ex_batch_requests = 2" by (simp add: ex_batch_requests_def)
  ultimately show ?thesis
    by (simp add: batch_prefix_def maxBatchSize_def time_now_def ex_batch_response_def)
qed

lemma ex_batch:
  "SubmitBatch ex_env True None ex_batch_requests ex_world = Some (Inr ex_batch_response, ex_batch_world)"
proof -
  let ?w = "ex_world\<lparr>w_tick := 2, w_redis := ex_mark\<rparr>"
  let ?w2 = "ex_world\<lparr>w_tick := 3, w_redis := ex_mark, w_metrics := [row_of_point ex_point]\<rparr>"
  have id: "mr_DeviceID (row_of_point ex_point) = ''d1''" by (simp add: row_of_point_def)
  have ins: "InsertMetricBatch ex_env [ex_point] ?w = (None, ?w2)"
    by (simp add: InsertMetricBatch_def ext_fault_def sql_copy_metrics_def ex_checks id device_ids_def
        ex_device_def)
  have inval: "InvalidateMetricCache ex_env None ''d1'' ''temperature'' ?w2 = Some (None, None, ?w2)"
    by (rule ex_invalidate(2)) (simp add: ex_mark_def dedup_key_not_cached)
  have "batch_effects ex_env True [ex_point] [] None ?w2 = Some ex_batch_world"
    by (simp add: inval markLastSeen_def SetDeviceLastSeen_def redis_do_def mem_redis_def
        evaluateAsync_def EvaluateAsync_def ex_batch_world_def)
  with ins show ?thesis by (simp add: SubmitBatch_def ex_batch_prefix)
qed

lemma ex_send: "send_all ex_env sent ms w = ((sent @ ms, None), w\<lparr>w_tick := w_tick w + length ms\<rparr>)"
  by (induction ms arbitrary: sent w) (simp_all add: ext_fault_def)

end
