(* ===== verification/AlertRaising.thy ===== *)
theory AlertRaising
  imports AlertEvaluator
begin

text \<open>
  When \<open>alert_evaluator.go\<close> does raise an alert: the other direction of the evaluation's contract.
  A violated threshold that nothing suppresses gives a stored and published alert, provided no
  external call fails and the row of the alert fits its columns, which depends on the length of
  the device identifier alone.
\<close>

section \<open>Texts of an alert\<close>

lemma no_nul_Nil [simp]: "no_nul []"
  by (simp add: no_nul_def)

lemma no_nul_append [simp]: "no_nul (s @ t) \<longleftrightarrow> no_nul s \<and> no_nul t"
  by (auto simp: no_nul_def)

lemma no_nul_Cons [simp]: "no_nul (c # s) \<longleftrightarrow> (of_char c :: nat) \<noteq> 0 \<and> no_nul s"
  by (auto simp: no_nul_def)

lemma no_nul_replicate: "(of_char c :: nat) \<noteq> 0 \<Longrightarrow> no_nul (replicate n c)"
  by (simp add: no_nul_def)

lemma no_nul_nat_dec [simp]: "no_nul (nat_dec n)"
  using nat_dec_digits [of n] by (auto simp: no_nul_def is_digit_def)

lemma no_nul_format_int [simp]: "no_nul (format_int i)"
  by (simp add: format_int_def)

lemma no_nul_fmt_f [simp]: "no_nul (fmt_f p x)"
  by (cases x) (simp_all add: fmt_mag_def Let_def no_nul_replicate)

lemma utf8_len_append [simp]: "utf8_len (s @ t) = utf8_len s + utf8_len t"
  by (simp add: utf8_len_def)

lemma utf8_len_le: "utf8_len s \<le> length s"
  by (simp add: utf8_len_def)

lemma length_nat_dec: "n < 10 ^ Suc k \<Longrightarrow> length (nat_dec n) \<le> Suc k"
proof (induction k arbitrary: n)
  case 0
  then show ?case by (simp add: nat_dec.simps [of n])
next
  case (Suc k)
  then have "n div 10 < 10 ^ Suc k" by (simp add: less_mult_imp_div_less)
  from Suc.IH [OF this] show ?case by (simp add: nat_dec.simps [of n])
qed

lemma length_format_i64: "length (format_int (sint (i :: i64))) \<le> 20"
proof -
  have b: "- (2 ^ 63) \<le> sint i" "sint i < 2 ^ 63" using sint_i64_range [of i] by simp_all
  have "length (nat_dec (nat (- sint i))) \<le> 19" "length (nat_dec (nat (sint i))) \<le> 19"
    using b length_nat_dec [of "nat (- sint i)" 18] length_nat_dec [of "nat (sint i)" 18] by simp_all
  then show ?thesis by (simp add: format_int_def)
qed

lemma check_threshold_message:
  "check_threshold ev key m v t = (Some msg, ev') \<Longrightarrow> no_nul m \<Longrightarrow> no_nul msg"
  by (auto simp: check_threshold_def Let_def split: if_splits option.splits)

lemma check_threshold_pub: "ev_mqttPub (snd (check_threshold ev key m v t)) = ev_mqttPub ev"
  by (simp add: check_threshold_def setLastValue_def)

text \<open>The row of an alert for a stored threshold passes the checks of its columns.\<close>

lemma new_alert_fits:
  assumes "first_violation (threshold_checks t) = None" "th_DeviceID t = d" "th_MetricName t = m"
    "no_nul msg" "utf8_len d \<le> 230"
  shows "first_violation (alert_checks (new_alert E d m v sil t msg n)) = None"
proof -
  have "utf8_len (format_int (sint (unix_nano (e_clock E n)))) \<le> 20"
    using utf8_len_le length_format_i64 order_trans by blast
  moreover have "utf8_len ''alr_'' = 4" "utf8_len ''_'' = 1" by (simp_all add: utf8_len_def)
  ultimately have "utf8_len (''alr_'' @ format_int (sint (unix_nano (e_clock E n))) @ ''_'' @ d) \<le> 255"
    using assms(5) unfolding utf8_len_append by linarith
  with assms show ?thesis
    by (simp add: alert_checks_def threshold_checks_def new_alert_def del: utf8_len_append split: if_splits)
qed

section \<open>Conditions\<close>

text \<open>No external call fails, and no alert carries a time the clock is going to show.\<close>

definition quiet_from :: "'r env \<Rightarrow> nat \<Rightarrow> bool" where
  "quiet_from E n \<longleftrightarrow> (\<forall>k \<ge> n. e_fault E k = None)"

definition fresh_clock :: "'r env \<Rightarrow> 'r world \<Rightarrow> bool" where
  "fresh_clock E w \<longleftrightarrow> (\<forall>k \<ge> w_tick w. e_clock E k \<notin> snd ` set (w_alerts w))"

text \<open>The mark of a device is not set, or there is no Redis.\<close>

definition unmarked :: "'r env \<Rightarrow> string \<Rightarrow> 'r world \<Rightarrow> bool" where
  "unmarked E d w \<longleftrightarrow>
     (\<forall>R. e_redis E = Some R \<longrightarrow> (\<exists>e. fst (r_get R (alert_key d) (w_redis w)) = Inl e))"

lemma unmarked_not_suppressed:
  assumes "unmarked E d w"
  obtains w1 where "redisAlertSuppressed E d w = (False, w1)" "db_part w1 = db_part w"
proof -
  obtain b w1 where b: "redisAlertSuppressed E d w = (b, w1)" by fastforce
  then have "\<not> b" using assms
    by (auto simp: redisAlertSuppressed_def unmarked_def redis_do_def Let_def
        split: option.splits sum.splits prod.splits)
  with b have "redisAlertSuppressed E d w = (False, w1)" by simp
  with redisAlertSuppressed_db_part that show thesis by blast
qed

lemma InsertAlert_accepts:
  assumes "quiet_from E (w_tick w)" "fresh_clock E w" "first_violation (alert_checks a) = None"
    "al_DeviceID a \<in> alert_device_ids w"
  shows "fst (InsertAlert E a w) = None"
proof -
  have "e_fault E (w_tick w) = None" "e_clock E (Suc (w_tick w)) \<notin> snd ` set (w_alerts w)"
    using assms(1,2) by (auto simp: quiet_from_def fresh_clock_def)
  then show ?thesis
    using assms(3,4) by (force simp: InsertAlert_def ext_fault_def time_now_def Let_def alert_device_ids_def)
qed

lemma publishAlertMQTT_sends:
  assumes "ev_mqttPub ev" "quiet_from E (w_tick w)" "json_alert (alert_message a) = None"
  shows "(''alerts/'' @ d, AlertPayload (alert_message a)) \<in> set (w_published (publishAlertMQTT E ev d a w))"
  using assms by (simp add: publishAlertMQTT_def PublishAlert_def mqtt_publish_def ext_fault_def quiet_from_def)

section \<open>The first triggered threshold raises an alert\<close>

definition raised :: "string \<Rightarrow> string \<Rightarrow> float64 \<Rightarrow> bool \<Rightarrow> threshold set \<Rightarrow> 'r world \<Rightarrow> 'r world \<Rightarrow> bool" where
  "raised d m v pub T w w' \<longleftrightarrow>
     (\<exists>a t. t \<in> T \<and> alert_for d m v False t a \<and> a \<in> fst ` set (w_alerts w') \<and>
        length (w_alerts w) < length (w_alerts w') \<and>
        (pub \<longrightarrow> (''alerts/'' @ d, AlertPayload (alert_message a)) \<in> set (w_published w')))"

text \<open>What was raised stays through the rest of the loop.\<close>

lemma raised_later:
  assumes "raised d m v pub T w w1" "evaluation_effect d m v sil T' w1 w2"
  shows "raised d m v pub T w w2"
proof -
  obtain news pubs where e: "map fst (w_alerts w2) = map fst (w_alerts w1) @ news"
    "w_published w2 = w_published w1 @ pubs" using assms(2) unfolding evaluation_effect_def by blast
  from assms(1) obtain a t where r: "t \<in> T" "alert_for d m v False t a" "a \<in> fst ` set (w_alerts w1)"
    "length (w_alerts w) < length (w_alerts w1)"
    "pub \<longrightarrow> (''alerts/'' @ d, AlertPayload (alert_message a)) \<in> set (w_published w1)"
    unfolding raised_def by blast
  have "a \<in> set (map fst (w_alerts w2))" using r(3) by (simp add: e(1))
  moreover have "length (w_alerts w) < length (w_alerts w2)"
    using arg_cong [OF e(1), of length] r(4) by simp
  ultimately show ?thesis using r(1,2,5) e(2) unfolding raised_def
    by (intro exI [of _ a] exI [of _ t]) simp
qed

lemma evaluate_threshold_raises:
  assumes "fst (check_threshold ev (d @ '':'' @ m) m v t) = Some msg" "t \<in> T"
    "first_violation (threshold_checks t) = None" "th_DeviceID t = d" "th_MetricName t = m"
    "utf8_len d \<le> 230" "d \<in> alert_device_ids w" "unmarked E d w" "quiet_from E (w_tick w)" "fresh_clock E w"
    "f_is_nan v = False" "f_is_inf v = False" "\<forall>k \<ge> w_tick w. json_time_ok (e_clock E k)"
    "evaluate_threshold E d m v False t (ev, w) = (ev', w')"
  shows "raised d m v (ev_mqttPub ev) T w w'"
proof -
  let ?a = "new_alert E d m v False t msg (w_tick w)" and ?w2 = "w\<lparr>w_tick := w_tick w + 2\<rparr>"
  obtain ev1 where c: "check_threshold ev (d @ '':'' @ m) m v t = (Some msg, ev1)"
    using assms(1) by (metis prod.collapse)
  have pub: "ev_mqttPub ev1 = ev_mqttPub ev" using check_threshold_pub [of ev "d @ '':'' @ m" m v t] c by simp
  have "no_nul m" using assms(3,5) by (simp add: threshold_checks_def split: if_splits)
  then have fits: "first_violation (alert_checks ?a) = None"
    using new_alert_fits [OF assms(3-5) check_threshold_message [OF c] assms(6)] by blast
  have "unmarked E d ?w2" using assms(8) by (simp add: unmarked_def)
  then obtain w3 where w3: "redisAlertSuppressed E d ?w2 = (False, w3)" "db_part w3 = db_part ?w2"
    by (rule unmarked_not_suppressed)
  note same3 = db_partD [OF w3(2)]
  have ready: "quiet_from E (w_tick w3)" "fresh_clock E w3" "al_DeviceID ?a \<in> alert_device_ids w3"
    using assms(7,9,10) same3 by (auto simp: quiet_from_def fresh_clock_def alert_device_ids_def new_alert_def)
  obtain w4 where w4: "InsertAlert E ?a w3 = (None, w4)"
    using InsertAlert_accepts [OF ready(1,2) fits ready(3)] by (metis prod.collapse)
  note ins = InsertAlert_effect [OF w4]
  have tick4: "w_tick w3 \<le> w_tick w4"
    using w4 by (auto simp: InsertAlert_def ext_fault_def time_now_def Let_def split: option.splits if_splits)
  let ?w5 = "publishAlertMQTT E ev1 d ?a w4"
  have "json_time_ok (e_clock E (Suc (w_tick w)))" using assms(13) by simp
  then have "json_alert (alert_message ?a) = None"
    using assms(11,12) by (simp add: json_alert_def json_float_ok_def alert_message_def new_alert_def)
  moreover have "quiet_from E (w_tick w4)" using ready(1) tick4 by (simp add: quiet_from_def)
  ultimately have sent: "ev_mqttPub ev \<Longrightarrow> (''alerts/'' @ d, AlertPayload (alert_message ?a)) \<in> set (w_published ?w5)"
    using publishAlertMQTT_sends [of ev1 E w4 ?a d] pub by simp
  have "w' = (case e_redis E of None \<Rightarrow> ?w5
      | Some R \<Rightarrow> snd (redis_do (r_set R (alert_key d) ''1'' alertSilenceRedisTTL) ?w5))"
    using assms(14) c w3(1) w4 by (auto simp: evaluate_threshold_def Let_def split: option.splits)
  then have "db_part w' = db_part ?w5"
    by (auto split: option.splits) (metis redis_do_db_part prod.collapse)
  note same = db_partD [OF this]
  have "length (w_alerts w) < length (w_alerts w')"
    using arg_cong [OF ins(3), of length] same3(5) same(5) publishAlertMQTT_effect(2) [of E ev1 d ?a w4] by simp
  moreover have "?a \<in> fst ` set (w_alerts w')"
  proof -
    have "?a \<in> set (map fst (w_alerts w4))" by (simp only: ins(3)) simp
    then show ?thesis using same(5) publishAlertMQTT_effect(2) [of E ev1 d ?a w4] by simp
  qed
  moreover have "alert_for d m v False t ?a" by (rule alert_for_new_alert [OF assms(1)])
  ultimately show ?thesis using assms(2) sent same(7) unfolding raised_def by fastforce
qed

lemma violates_triggers: "violates t v \<Longrightarrow> fst (check_threshold ev key m v t) \<noteq> None"
  using check_threshold_static(1) [of t ev key m v] by (auto simp: violates_def)

text \<open>The state in which nothing stands in the way of an alert.\<close>

definition may_raise :: "'r env \<Rightarrow> string \<Rightarrow> float64 \<Rightarrow> 'r world \<Rightarrow> bool" where
  "may_raise E d v w \<longleftrightarrow>
     utf8_len d \<le> 230 \<and> d \<in> alert_device_ids w \<and> unmarked E d w \<and> quiet_from E (w_tick w) \<and>
     fresh_clock E w \<and> \<not> f_is_nan v \<and> \<not> f_is_inf v \<and> (\<forall>k \<ge> w_tick w. json_time_ok (e_clock E k))"

lemma may_raise_later:
  "may_raise E d v w \<Longrightarrow> same_data w' w \<Longrightarrow> w_tick w \<le> w_tick w' \<Longrightarrow> may_raise E d v w'"
  using same_dataD [of w' w]
  by (auto simp: may_raise_def unmarked_def quiet_from_def fresh_clock_def alert_device_ids_def)

lemma loop_raises:
  assumes "may_raise E d v w" "violates t v"
    "\<forall>t \<in> T. first_violation (threshold_checks t) = None \<and> th_DeviceID t = d \<and> th_MetricName t = m"
  shows "fold (evaluate_threshold E d m v False) ts (ev, w) = (ev', w') \<Longrightarrow> set ts \<subseteq> T \<Longrightarrow> t \<in> set ts \<Longrightarrow>
    raised d m v (ev_mqttPub ev) T w w'"
proof (induction ts arbitrary: ev)
  case (Cons t0 ts)
  obtain c ev1 where c: "check_threshold ev (d @ '':'' @ m) m v t0 = (c, ev1)" by fastforce
  have pub: "ev_mqttPub ev1 = ev_mqttPub ev" using check_threshold_pub [of ev "d @ '':'' @ m" m v t0] c by simp
  show ?case
  proof (cases c)
    case None
    then have "evaluate_threshold E d m v False t0 (ev, w) = (ev1, w)"
      using c by (simp add: evaluate_threshold_def)
    with Cons.prems(1) have rest: "fold (evaluate_threshold E d m v False) ts (ev1, w) = (ev', w')" by simp
    have "t \<noteq> t0" using violates_triggers [OF assms(2), of ev "d @ '':'' @ m" m] c None by auto
    with Cons.prems have "set ts \<subseteq> T" "t \<in> set ts" by auto
    from Cons.IH [OF rest this] pub show ?thesis by simp
  next
    case (Some msg)
    obtain ev2 w2 where step: "evaluate_threshold E d m v False t0 (ev, w) = (ev2, w2)" by fastforce
    with Cons.prems have rest: "fold (evaluate_threshold E d m v False) ts (ev2, w2) = (ev', w')"
      and sub: "t0 \<in> T" "set ts \<subseteq> T" by auto
    have trig: "fst (check_threshold ev (d @ '':'' @ m) m v t0) = Some msg" using c Some by simp
    have "raised d m v (ev_mqttPub ev) T w w2"
      using assms(1,3) sub(1)
      by (intro evaluate_threshold_raises [OF trig sub(1) _ _ _ _ _ _ _ _ _ _ _ step])
        (auto simp: may_raise_def)
    then show ?thesis by (rule raised_later [OF _ evaluate_thresholds_effect [OF rest sub(2)]])
  qed
qed simp

lemma evaluate_raises:
  assumes "thresholds_inv w" "t \<in> thresholds_for d m w" "m \<noteq> []" "violates t v" "may_raise E d v w"
    "\<not> silenced_at d m (e_clock E (w_tick w + 2)) w" "evaluate E d m v (ev, w) = (ev', w')"
  shows "raised d m v (ev_mqttPub ev) (thresholds_for d m w) w w'"
proof -
  have ok: "\<forall>t \<in> thresholds_for d m w. first_violation (threshold_checks t) = None \<and>
      th_DeviceID t = d \<and> th_MetricName t = m"
    using assms(1,3) by (auto simp: thresholds_for_def thresholds_inv_def)
  with assms(2) have nn: "no_nul d" "no_nul m" by (auto simp: threshold_checks_def split: if_splits)
  have quiet: "e_fault E k = None" if "w_tick w \<le> k" for k
    using assms(5) that by (simp add: may_raise_def quiet_from_def)
  define ts where "ts = filter (\<lambda>t. th_DeviceID t = d \<and> (m \<noteq> '''' \<longrightarrow> th_MetricName t = m) \<and> th_Enabled t)
    (w_thresholds w)"
  have set_ts: "set ts = thresholds_for d m w" by (auto simp: ts_def thresholds_for_def)
  with assms(2) have "ts \<noteq> []" "t \<in> set ts" by auto
  let ?w1 = "w\<lparr>w_tick := Suc (w_tick w)\<rparr>" and ?w2 = "w\<lparr>w_tick := w_tick w + 3\<rparr>"
  have th: "GetThresholds_db E d m True w = (Inr ts, ?w1)"
    using nn quiet [of "w_tick w"] by (simp add: GetThresholds_db_def ext_fault_def ts_def)
  obtain ss where ss: "GetActiveSilences E d ?w1 = (Inr ss, ?w2)"
    "ss = filter (\<lambda>s. sl_DeviceID s = d \<and> e_clock E (w_tick w + 2) < sl_SilencedUntil s) (w_silences w)"
    using nn quiet [of "Suc (w_tick w)"]
    by (simp add: GetActiveSilences_def ext_fault_def time_now_def numeral_eq_Suc)
  then have "\<not> checkSilenced m ss"
    using assms(6) by (auto simp: checkSilenced_def list_ex_iff silenced_at_def)
  then have run: "fold (evaluate_threshold E d m v False) ts (ev, ?w2) = (ev', w')"
    using assms(7) th ss(1) \<open>ts \<noteq> []\<close> by (simp add: evaluate_def)
  have "may_raise E d v ?w2" by (rule may_raise_later [OF assms(5)]) simp_all
  from loop_raises [OF this assms(4) ok run] set_ts \<open>t \<in> set ts\<close> show ?thesis
    by (simp add: raised_def)
qed

section \<open>Identifiers that are too long\<close>

text \<open>
  An alert's identifier holds the one of its device. From 250 characters on (the column of the
  device admits 255) it no longer fits its own column, and no alert can be stored.
\<close>

lemma format_int_digits: "1 \<le> utf8_len (format_int i)"
proof -
  have "utf8_len (nat_dec n) = length (nat_dec n)" for n
    using nat_dec_digits [of n] by (fastforce simp: utf8_len_def is_digit_def intro!: arg_cong [of _ _ length] filter_True)
  moreover have "1 \<le> length (nat_dec n)" for n using nat_dec_nonempty [of n] by (cases "nat_dec n") simp_all
  ultimately show ?thesis using utf8_len_append [of "''-''"] by (auto simp: format_int_def utf8_len_def)
qed

lemma InsertAlert_long:
  assumes "250 \<le> utf8_len d" "InsertAlert E (new_alert E d m v sil t msg n) w = (r, w')"
  shows "r \<noteq> None"
proof
  let ?nano = "format_int (sint (unix_nano (e_clock E n)))"
  assume "r = None"
  with assms(2) have "first_violation (alert_checks (new_alert E d m v sil t msg n)) = None"
    by (auto simp: InsertAlert_def ext_fault_def time_now_def Let_def split: option.splits if_splits)
  then have "utf8_len (''alr_'' @ ?nano @ ''_'' @ d) \<le> 255"
    by (simp add: alert_checks_def new_alert_def del: utf8_len_append split: if_splits)
  moreover have "utf8_len ''alr_'' = 4" "utf8_len ''_'' = 1" by (simp_all add: utf8_len_def)
  ultimately show False
    using assms(1) format_int_digits [of "sint (unix_nano (e_clock E n))"] unfolding utf8_len_append by linarith
qed

lemma evaluate_threshold_long:
  assumes "250 \<le> utf8_len d" "evaluate_threshold E d m v sil t (ev, w) = (ev', w')"
  shows "w_alerts w' = w_alerts w \<and> w_published w' = w_published w"
proof (cases rule: evaluate_threshold_cases [where ev = ev and E = E and d = d and m = m and v = v
      and sil = sil and t = t and w = w])
  case quiet
  with assms(2) show ?thesis by simp
next
  case (silenced msg)
  let ?a = "new_alert E d m v sil t msg (w_tick w)" and ?w2 = "w\<lparr>w_tick := w_tick w + 2\<rparr>"
  obtain r where r: "InsertAlert E ?a ?w2 = (r, w')" using silenced(3) assms(2) by (cases "InsertAlert E ?a ?w2") auto
  with InsertAlert_long [OF assms(1) r] obtain e where "InsertAlert E ?a ?w2 = (Some e, w')" by auto
  from same_dataD [OF InsertAlert_err [OF this]] show ?thesis by simp
next
  case (suppressed msg w3)
  with assms(2) db_partD [OF redisAlertSuppressed_db_part [OF suppressed(3)]] show ?thesis by simp
next
  case (failed msg w3 e w4)
  with assms(2) db_partD [OF redisAlertSuppressed_db_part [OF failed(3)]]
    same_dataD [OF InsertAlert_err [OF failed(4)]] show ?thesis by simp
next
  case (fired msg w3 w4 w5)
  with InsertAlert_long [OF assms(1)] show ?thesis by blast
qed

lemma long_device_id_never_alerts:
  assumes "250 \<le> utf8_len d" "evaluate E d m v (ev, w) = (ev', w')"
  shows "w_alerts w' = w_alerts w \<and> w_published w' = w_published w"
proof -
  have loop: "fold (evaluate_threshold E d m v sil) ts (ev, w1) = (ev', w') \<Longrightarrow>
      w_alerts w' = w_alerts w1 \<and> w_published w' = w_published w1" for sil ts ev w1
  proof (induction ts arbitrary: ev w1)
    case (Cons t ts)
    obtain ev2 w2 where step: "evaluate_threshold E d m v sil t (ev, w1) = (ev2, w2)" by fastforce
    with Cons.prems have "fold (evaluate_threshold E d m v sil) ts (ev2, w2) = (ev', w')" by simp
    from Cons.IH [OF this] evaluate_threshold_long [OF assms(1) step] show ?case by simp
  qed simp
  obtain r w1 where th: "GetThresholds_db E d m True w = (r, w1)" by fastforce
  obtain q w2 where q: "GetActiveSilences E d w1 = (q, w2)" by fastforce
  note same = same_dataD [OF GetThresholds_db_same_data [OF th]] same_dataD [OF GetActiveSilences_same_data [OF q]]
  show ?thesis
  proof (cases "\<exists>ts. r = Inr ts \<and> ts \<noteq> []")
    case False
    with assms(2) th have "w' = w1" by (auto simp: evaluate_def split: sum.splits)
    with same show ?thesis by simp
  next
    case True
    with assms(2) th q obtain ts sil where "fold (evaluate_threshold E d m v sil) ts (ev, w2) = (ev', w')"
      by (auto simp: evaluate_def)
    from loop [OF this] same show ?thesis by simp
  qed
qed

end
