(* ===== verification/EvaluationSteps.thy ===== *)
theory EvaluationSteps
  imports AlertEvaluator
begin

text \<open>
  The evaluation goroutines of \<open>alert_evaluator.go\<close> side by side: \<open>evaluate\<close> cut at its external calls and
  at its accesses to the map of last values, each a step of its own, in any interleaving. Run without
  the others a goroutine computes \<open>evaluate\<close>; together they still publish only what is stored, but the
  test for the mark of a device and the setting of it are two steps, so that two evaluations of
  one device can both raise an alert.
\<close>

section \<open>The stages of an evaluation\<close>

text \<open>What is still to be done; the thresholds not yet looked at, and whether a rule silences the metric.\<close>

datatype stage =
    Begin
  | Silences "threshold list"
  | Next bool "threshold list"
  | Remember bool threshold "string option" "threshold list"
  | Build bool threshold string "threshold list"
  | Check alert "threshold list"
  | Insert bool alert "threshold list"
  | Publish alert "threshold list"
  | Mark "threshold list"
  | Over

definition after_check :: "bool \<Rightarrow> threshold \<Rightarrow> string option \<Rightarrow> threshold list \<Rightarrow> stage" where
  "after_check sil t r ts = (case r of None \<Rightarrow> Next sil ts | Some message \<Rightarrow> Build sil t message ts)"

fun gstep ::
    "'r env \<Rightarrow> string \<Rightarrow> string \<Rightarrow> float64 \<Rightarrow> stage \<Rightarrow> evaluator \<times> 'r world \<Rightarrow> stage \<times> evaluator \<times> 'r world" where
  "gstep E d m v Begin (ev, w) =
     (case GetThresholds_db E d m True w of
        (Inl e, w1) \<Rightarrow> (Over, ev, w1)
      | (Inr thresholds, w1) \<Rightarrow> (if length thresholds = 0 then Over else Silences thresholds, ev, w1))"
| "gstep E d m v (Silences ts) (ev, w) =
     (case GetActiveSilences E d w of
        (r, w1) \<Rightarrow> (Next (checkSilenced m (case r of Inl e \<Rightarrow> [] | Inr ss \<Rightarrow> ss)) ts, ev, w1))"
| "gstep E d m v (Next sil []) s = (Over, s)"
| "gstep E d m v (Next sil (t # ts)) (ev, w) =
     (let r = fst (check_threshold ev (d @ '':'' @ m) m v t) in
      (if th_Type t = ''CHANGE'' then Remember sil t r ts else after_check sil t r ts, ev, w))"
| "gstep E d m v (Remember sil t r ts) (ev, w) =
     (after_check sil t r ts, setLastValue ev (d @ '':'' @ m) v, w)"
| "gstep E d m v (Build sil t message ts) (ev, w) =
     (let a = new_alert E d m v sil t message (w_tick w) in
      (if sil then Insert True a ts else Check a ts, ev, w\<lparr>w_tick := w_tick w + 2\<rparr>))"
| "gstep E d m v (Check a ts) (ev, w) =
     (case redisAlertSuppressed E d w of
        (True, w1) \<Rightarrow> (Next False ts, ev, w1)
      | (False, w1) \<Rightarrow> (Insert False a ts, ev, w1))"
| "gstep E d m v (Insert sil a ts) (ev, w) =
     (case InsertAlert E a w of
        (Some e, w1) \<Rightarrow> (Next sil ts, ev, w1)
      | (None, w1) \<Rightarrow> (if sil then Next True ts else Publish a ts, ev, w1))"
| "gstep E d m v (Publish a ts) (ev, w) = (Mark ts, ev, publishAlertMQTT E ev d a w)"
| "gstep E d m v (Mark ts) (ev, w) =
     (case e_redis E of
        None \<Rightarrow> (Next False ts, ev, w)
      | Some R \<Rightarrow>
          (Next False ts, ev, snd (redis_do (r_set R (alert_key d) ''1'' alertSilenceRedisTTL) w)))"
| "gstep E d m v Over s = (Over, s)"

section \<open>One goroutine by itself\<close>

definition grun :: "'r env \<Rightarrow> string \<Rightarrow> string \<Rightarrow> float64 \<Rightarrow> nat \<Rightarrow> stage \<times> evaluator \<times> 'r world \<Rightarrow>
    stage \<times> evaluator \<times> 'r world" where
  "grun E d m v n = (\<lambda>(st, s). gstep E d m v st s) ^^ n"

lemma grun_simps [simp]:
  "grun E d m v 0 x = x" "grun E d m v (Suc n) (st, s) = grun E d m v n (gstep E d m v st s)"
  by (simp_all add: grun_def funpow_swap1)

lemma grun_trans: "grun E d m v k x = y \<Longrightarrow> grun E d m v n y = z \<Longrightarrow> grun E d m v (k + n) x = z"
  by (auto simp: grun_def funpow_add add.commute [of k])

lemma grun_over [simp]: "grun E d m v n (Over, s) = (Over, s)"
  by (induction n) simp_all

text \<open>The body of the loop over the thresholds, with or without the case CHANGE.\<close>

lemma grun_after_check:
  assumes "r = fst (check_threshold ev (d @ '':'' @ m) m v t)"
    "ev' = snd (check_threshold ev (d @ '':'' @ m) m v t)"
  shows "\<exists>n. grun E d m v n (after_check sil t r ts, ev', w) =
    (Next sil ts, evaluate_threshold E d m v sil t (ev, w))"
proof (cases r)
  case None
  with assms show ?thesis
    by (intro exI [of _ 0]) (auto simp: after_check_def evaluate_threshold_def split: prod.splits)
next
  case (Some msg)
  obtain ck: "check_threshold ev (d @ '':'' @ m) m v t = (Some msg, ev')"
    using assms Some by (metis prod.collapse)
  let ?a = "new_alert E d m v sil t msg (w_tick w)" and ?w2 = "w\<lparr>w_tick := w_tick w + 2\<rparr>"
  show ?thesis
  proof (cases sil)
    case True
    obtain x w4 where "InsertAlert E ?a ?w2 = (x, w4)" by fastforce
    with ck Some True show ?thesis
      by (intro exI [of _ 2]) (cases x; simp add: numeral_2_eq_2 after_check_def evaluate_threshold_def Let_def)
  next
    case False
    obtain b w3 where b: "redisAlertSuppressed E d ?w2 = (b, w3)" by fastforce
    obtain x w4 where x: "InsertAlert E ?a w3 = (x, w4)" by fastforce
    consider (marked) b | (failed) e where "\<not> b" "x = Some e" | (raised) "\<not> b" "x = None" by (cases x) auto
    then show ?thesis
    proof cases
      case marked
      with ck Some False b show ?thesis
        by (intro exI [of _ 2]) (simp add: numeral_2_eq_2 after_check_def evaluate_threshold_def Let_def)
    next
      case (failed e)
      with ck Some False b x show ?thesis
        by (intro exI [of _ 3]) (simp add: numeral_3_eq_3 after_check_def evaluate_threshold_def Let_def)
    next
      case raised
      with ck Some False b x show ?thesis
        by (intro exI [of _ "Suc (Suc 3)"])
          (simp add: numeral_3_eq_3 after_check_def evaluate_threshold_def Let_def split: option.splits)
    qed
  qed
qed

lemma grun_threshold:
  "\<exists>n. grun E d m v n (Next sil (t # ts), s) = (Next sil ts, evaluate_threshold E d m v sil t s)"
proof -
  obtain ev w where s: "s = (ev, w)" by (cases s)
  let ?k = "d @ '':'' @ m" and ?c = "check_threshold ev (d @ '':'' @ m) m v t"
  obtain n where n: "grun E d m v n (after_check sil t (fst ?c) ts, snd ?c, w) =
      (Next sil ts, evaluate_threshold E d m v sil t (ev, w))"
    using grun_after_check by blast
  show ?thesis
  proof (cases "th_Type t = ''CHANGE''")
    case True
    then have "snd ?c = setLastValue ev ?k v" by (rule check_threshold_change(2))
    with n True s show ?thesis by (intro exI [of _ "Suc (Suc n)"]) (simp add: Let_def)
  next
    case False
    then have "snd ?c = ev" by (rule check_threshold_static(2))
    with n False s show ?thesis by (intro exI [of _ "Suc n"]) (simp add: Let_def)
  qed
qed

lemma grun_loop: "\<exists>n. grun E d m v n (Next sil ts, s) = (Over, fold (evaluate_threshold E d m v sil) ts s)"
proof (induction ts arbitrary: s)
  case Nil
  show ?case by (intro exI [of _ 1]) simp
next
  case (Cons t ts)
  obtain k where k: "grun E d m v k (Next sil (t # ts), s) = (Next sil ts, evaluate_threshold E d m v sil t s)"
    using grun_threshold by blast
  obtain n where "grun E d m v n (Next sil ts, evaluate_threshold E d m v sil t s) =
      (Over, fold (evaluate_threshold E d m v sil) ts (evaluate_threshold E d m v sil t s))"
    using Cons.IH by blast
  from grun_trans [OF k this] show ?case by auto
qed

lemma grun_evaluate: "\<exists>n. grun E d m v n (Begin, s) = (Over, evaluate E d m v s)"
proof -
  obtain ev w where s: "s = (ev, w)" by (cases s)
  obtain r w1 where th: "GetThresholds_db E d m True w = (r, w1)" by fastforce
  show ?thesis
  proof (cases "\<exists>ts. r = Inr ts \<and> ts \<noteq> []")
    case False
    with th s show ?thesis by (intro exI [of _ 1]) (auto simp: evaluate_def split: sum.splits)
  next
    case True
    then obtain ts where ts: "r = Inr ts" "ts \<noteq> []" by blast
    obtain q w2 where q: "GetActiveSilences E d w1 = (q, w2)" by fastforce
    let ?sil = "checkSilenced m (case q of Inl e \<Rightarrow> [] | Inr ss \<Rightarrow> ss)"
    obtain n where "grun E d m v n (Next ?sil ts, ev, w2) = (Over, fold (evaluate_threshold E d m v ?sil) ts (ev, w2))"
      using grun_loop by blast
    with th q ts s show ?thesis by (intro exI [of _ "Suc (Suc n)"]) (simp add: evaluate_def Let_def)
  qed
qed

section \<open>All goroutines together\<close>

text \<open>
  The goroutines started so far, the map of last values they share, and the world. A goroutine may start, any
  may make its next step, and the other services may change the world, without removing an alert
  or publishing one; Redis may change in any way.
\<close>

type_synonym goroutine = "(string \<times> string \<times> float64) \<times> stage"

inductive estep ::
    "'r env \<Rightarrow> goroutine list \<times> evaluator \<times> 'r world \<Rightarrow> goroutine list \<times> evaluator \<times> 'r world \<Rightarrow> bool"
  for E :: "'r env" where
  spawn: "estep E (gs, s) (gs @ [((d, m, v), Begin)], s)"
| step: "i < length gs \<Longrightarrow> gs ! i = ((d, m, v), st) \<Longrightarrow> gstep E d m v st s = (st', s') \<Longrightarrow>
    estep E (gs, s) (gs[i := ((d, m, v), st')], s')"
| other: "fst ` set (w_alerts w) \<subseteq> fst ` set (w_alerts w') \<Longrightarrow> w_published w' = w_published w \<Longrightarrow>
    estep E (gs, ev, w) (gs, ev, w')"

inductive_cases estepE: "estep E x y"

text \<open>A schedule: the numbers of the goroutines in the order in which they move.\<close>

fun erun :: "'r env \<Rightarrow> nat list \<Rightarrow> goroutine list \<times> evaluator \<times> 'r world \<Rightarrow> goroutine list \<times> evaluator \<times> 'r world" where
  "erun E [] x = x"
| "erun E (i # is) (gs, s) =
     (case gs ! i of ((d, m, v), st) \<Rightarrow>
        (case gstep E d m v st s of (st', s') \<Rightarrow> erun E is (gs[i := ((d, m, v), st')], s')))"

lemma erun_steps:
  "erun E is (gs, s) = y \<Longrightarrow> \<forall>i \<in> set is. i < length gs \<Longrightarrow> (estep E)\<^sup>*\<^sup>* (gs, s) y"
proof (induction "is" arbitrary: gs s)
  case (Cons i "is")
  obtain d m v st where g: "gs ! i = ((d, m, v), st)" by (metis prod_cases3 surj_pair)
  obtain st' s' where st: "gstep E d m v st s = (st', s')" by (cases "gstep E d m v st s")
  have "estep E (gs, s) (gs[i := ((d, m, v), st')], s')"
    using Cons.prems(2) g st by (intro estep.step) auto
  moreover have "(estep E)\<^sup>*\<^sup>* (gs[i := ((d, m, v), st')], s') y"
    using Cons.prems g st by (intro Cons.IH) auto
  ultimately show ?case by (rule converse_rtranclp_into_rtranclp)
qed auto

text \<open>A goroutine may run alone from its start to its end: then it does what \<open>evaluate\<close> says.\<close>

lemma grun_steps:
  "i < length gs \<Longrightarrow> gs ! i = ((d, m, v), st) \<Longrightarrow> grun E d m v n (st, s) = (st', s') \<Longrightarrow>
   (estep E)\<^sup>*\<^sup>* (gs, s) (gs[i := ((d, m, v), st')], s')"
proof (induction n arbitrary: gs st s)
  case 0
  then show ?case using list_update_id [of gs i] by simp
next
  case (Suc n)
  obtain st1 s1 where st: "gstep E d m v st s = (st1, s1)" by (cases "gstep E d m v st s")
  have "estep E (gs, s) (gs[i := ((d, m, v), st1)], s1)" using Suc.prems(1,2) st by (rule estep.step)
  moreover have "(estep E)\<^sup>*\<^sup>* (gs[i := ((d, m, v), st1)], s1) (gs[i := ((d, m, v), st')], s')"
    using Suc.IH [of "gs[i := ((d, m, v), st1)]" st1 s1] Suc.prems st by simp
  ultimately show ?case by (rule converse_rtranclp_into_rtranclp)
qed

lemma goroutine_evaluates:
  "(estep E)\<^sup>*\<^sup>* (gs, s) (gs @ [((d, m, v), Over)], evaluate E d m v s)"
proof -
  obtain n where "grun E d m v n (Begin, s) = (Over, evaluate E d m v s)" using grun_evaluate by blast
  from grun_steps [of "length gs" "gs @ [((d, m, v), Begin)]", OF _ _ this]
  show ?thesis using estep.spawn [of E gs s d m v] by (simp add: converse_rtranclp_into_rtranclp)
qed

text \<open>What a stage knows of its alert; one that is published was stored before.\<close>

fun stage_ok :: "string \<Rightarrow> stage \<Rightarrow> 'r world \<Rightarrow> bool" where
  "stage_ok d (Check a ts) w \<longleftrightarrow> al_DeviceID a = d \<and> \<not> al_IsSilenced a"
| "stage_ok d (Insert sil a ts) w \<longleftrightarrow> al_DeviceID a = d \<and> al_IsSilenced a = sil"
| "stage_ok d (Publish a ts) w \<longleftrightarrow> al_DeviceID a = d \<and> \<not> al_IsSilenced a \<and> a \<in> fst ` set (w_alerts w)"
| "stage_ok d _ w \<longleftrightarrow> True"

definition evaluations_inv :: "goroutine list \<times> evaluator \<times> 'r world \<Rightarrow> bool" where
  "evaluations_inv x \<longleftrightarrow>
     (case x of (gs, ev, w) \<Rightarrow> published_inv w \<and> (\<forall>((d, m, v), st) \<in> set gs. stage_ok d st w))"

lemma stage_ok_mono: "stage_ok d st w \<Longrightarrow> fst ` set (w_alerts w) \<subseteq> fst ` set (w_alerts w') \<Longrightarrow> stage_ok d st w'"
  by (cases st) auto

lemma stage_ok_after_check: "stage_ok d (after_check sil t r ts) w"
  by (simp add: after_check_def split: option.split)

lemma published_inv_grows:
  assumes "published_inv w" "w_published w' = w_published w" "fst ` set (w_alerts w) \<subseteq> fst ` set (w_alerts w')"
  shows "published_inv w'"
  unfolding published_inv_def
proof (intro allI impI)
  fix topic msg assume "(topic, AlertPayload msg) \<in> set (w_published w')"
  then have "(topic, AlertPayload msg) \<in> set (w_published w)" using assms(2) by simp
  from assms(1) [unfolded published_inv_def, rule_format, OF this] assms(3)
  show "\<exists>a \<in> fst ` set (w_alerts w'). topic = ''alerts/'' @ al_DeviceID a \<and> msg = alert_message a \<and>
      \<not> al_IsSilenced a" by (elim bexE) (rule bexI, auto)
qed

lemma published_inv_db_part: "db_part w' = db_part w \<Longrightarrow> published_inv w' = published_inv w"
  using db_partD [of w' w] by (simp add: published_inv_def)

text \<open>One step: the alerts grow, and the two parts of the invariant are kept.\<close>

definition keeps_published :: "string \<Rightarrow> 'r world \<Rightarrow> stage \<Rightarrow> 'r world \<Rightarrow> bool" where
  "keeps_published d w st' w' \<longleftrightarrow>
     fst ` set (w_alerts w) \<subseteq> fst ` set (w_alerts w') \<and> (published_inv w \<longrightarrow> published_inv w') \<and> stage_ok d st' w'"

lemma keeps_published_same:
  assumes "w_alerts w' = w_alerts w" "w_published w' = w_published w" "stage_ok d st' w'"
  shows "keeps_published d w st' w'"
  using assms published_inv_grows [of w w'] by (auto simp: keeps_published_def)

lemma keeps_published_db_part: "db_part w' = db_part w \<Longrightarrow> stage_ok d st' w' \<Longrightarrow> keeps_published d w st' w'"
  using db_partD [of w' w] by (intro keeps_published_same) auto

lemma gstep_published:
  assumes "gstep E d m v st (ev, w) = (st', ev', w')" "stage_ok d st w"
  shows "keeps_published d w st' w'"
  using assms
proof (cases st)
  case Begin
  obtain r w1 where th: "GetThresholds_db E d m True w = (r, w1)" by fastforce
  from same_dataD [OF GetThresholds_db_same_data [OF th]] assms(1) Begin th show ?thesis
    by (intro keeps_published_same) (auto split: sum.splits)
next
  case (Silences ts)
  obtain r w1 where q: "GetActiveSilences E d w = (r, w1)" by fastforce
  from same_dataD [OF GetActiveSilences_same_data [OF q]] assms(1) Silences q show ?thesis
    by (intro keeps_published_same) auto
next
  case (Next sil ts)
  with assms(1) show ?thesis
    by (intro keeps_published_same) (cases ts; auto simp: Let_def stage_ok_after_check split: if_splits)+
next
  case (Remember sil t r ts)
  with assms(1) show ?thesis by (intro keeps_published_same) (auto simp: stage_ok_after_check)
next
  case (Build sil t msg ts)
  with assms(1) show ?thesis
    by (intro keeps_published_same) (auto simp: Let_def new_alert_def split: if_splits)
next
  case (Check a ts)
  obtain b w1 where b: "redisAlertSuppressed E d w = (b, w1)" by fastforce
  from Check assms b redisAlertSuppressed_db_part [OF b] show ?thesis
    by (intro keeps_published_db_part) (auto split: bool.splits)
next
  case (Insert sil a ts)
  obtain r w1 where i: "InsertAlert E a w = (r, w1)" by fastforce
  from Insert assms i have w': "w' = w1" "stage_ok d st' w1 \<or> st' = Publish a ts \<and> r = None"
    by (auto split: option.splits if_splits)
  note eff = InsertAlert_effect [OF i]
  have log: "fst ` set (w_alerts w1) = fst ` set (w_alerts w) \<union> (if r = None then {a} else {})"
    using arg_cong [OF eff(3), of set] by auto
  then have "published_inv w \<longrightarrow> published_inv w1" using published_inv_grows [OF _ eff(2)] by auto
  moreover have "stage_ok d st' w1"
    using w'(2) Insert assms i log by (auto split: if_splits)
  ultimately show ?thesis using log w'(1) by (auto simp: keeps_published_def)
next
  case (Publish a ts)
  note eff = publishAlertMQTT_effect [of E ev d a w]
  from eff(3) Publish assms(2) have "published_inv w \<longrightarrow> published_inv (publishAlertMQTT E ev d a w)"
    unfolding published_inv_def eff(2) by (elim exE) auto
  with Publish assms(1) eff(2) show ?thesis by (auto simp: keeps_published_def)
next
  case (Mark ts)
  with assms(1) have "st' = Next False ts" "db_part w' = db_part w"
    by (auto split: option.splits) (metis redis_do_db_part prod.collapse)
  then show ?thesis by (intro keeps_published_db_part) auto
next
  case Over
  with assms(1) show ?thesis by (intro keeps_published_same) auto
qed

lemma estep_inv:
  assumes "estep E x y" "evaluations_inv x"
  shows "evaluations_inv y"
  using assms
proof (induction rule: estep.induct)
  case (spawn gs s d m v)
  then show ?case by (auto simp: evaluations_inv_def)
next
  case (step i gs d m v st s st' s')
  obtain ev w where s: "s = (ev, w)" by (cases s)
  obtain ev' w' where s': "s' = (ev', w')" by (cases s')
  have inv: "published_inv w" "\<forall>((d, m, v), st) \<in> set gs. stage_ok d st w"
    using step.prems s by (simp_all add: evaluations_inv_def)
  have "stage_ok d st w" using inv(2) nth_mem [OF step.hyps(1)] step.hyps(2) by fastforce
  from gstep_published [OF step.hyps(3) [unfolded s s'] this]
  have k: "fst ` set (w_alerts w) \<subseteq> fst ` set (w_alerts w')" "published_inv w'" "stage_ok d st' w'"
    using inv(1) by (simp_all add: keeps_published_def)
  have "\<forall>((d, m, v), st) \<in> set gs. stage_ok d st w'" using inv(2) stage_ok_mono [OF _ k(1)] by fastforce
  with k show ?case using set_update_subset_insert [of gs i] s'
    by (fastforce simp: evaluations_inv_def)
next
  case (other w w' gs ev)
  then show ?case
    using published_inv_grows [of w w'] stage_ok_mono [of _ _ w w'] by (fastforce simp: evaluations_inv_def)
qed

interpretation goroutines: step_invariant "estep E" evaluations_inv for E :: "'r env"
  by unfold_locales (rule estep_inv)

end
