(* ===== verification/AlertProperties.thy ===== *)
theory AlertProperties
  imports Example AlertRaising EvaluationSteps
begin

text \<open>
  The properties of the alert evaluator and the alert service: the contract of an evaluation,
  publications, silences and their marks, thresholds and statistics. Each is followed by an
  instance on the deployment of \<open>Example\<close>.
\<close>

section \<open>A run of the evaluation\<close>

lemma ex_thresholds:
  "w_thresholds w = [ex_threshold] \<Longrightarrow>
   GetThresholds_db ex_env ''d1'' ''temperature'' True w = (Inr [ex_threshold], w\<lparr>w_tick := Suc (w_tick w)\<rparr>)"
  by (simp add: GetThresholds_db_def ext_fault_def no_nul_def) (simp add: ex_threshold_def)

lemma ex_silences:
  "w_silences w = [] \<Longrightarrow> GetActiveSilences ex_env ''d1'' w = (Inr [], w\<lparr>w_tick := w_tick w + 2\<rparr>)"
  by (simp add: GetActiveSilences_def ext_fault_def time_now_def no_nul_def)

definition ex_evaluator :: evaluator where
  "ex_evaluator = NewAlertEvaluator True"

definition ex_message :: string where
  "ex_message = ''temperature exceeded 30.00 (value: 35.00)''"

lemma ex_check:
  "check_threshold ex_evaluator key ''temperature'' (Fin 35) ex_threshold = (Some ex_message, ex_evaluator)"
proof -
  have "fmt_f 2 (Fin 30) = ''30.00''" "fmt_f 2 (Fin 35) = ''35.00''" by code_simp+
  then show ?thesis by (simp add: check_threshold_def ex_threshold_def f_gt_def ex_message_def)
qed

lemma ex_nano: "format_int (sint (unix_nano (ex_clock n))) = ''1700000000000000000''"
proof -
  have "unix_nano (ex_clock n) = (word_of_int 1700000000000000000 :: i64)"
    by (simp add: unix_nano_def unix_secs_def ex_clock_def unix_to_internal_def)
  then have "sint (unix_nano (ex_clock n)) = 1700000000000000000"
    using sint_word_of_int_i64 [of 1700000000000000000] by simp
  moreover have "digit_char 0 = CHR ''0''" "digit_char 1 = CHR ''1''" "digit_char 7 = CHR ''7''"
    by code_simp+
  ultimately show ?thesis by (simp add: format_int_def nat_dec.simps)
qed

definition ex_alert :: alert where
  "ex_alert = new_alert ex_env ''d1'' ''temperature'' (Fin 35) False ex_threshold ex_message 5"

lemma ex_alert_simps [simp]:
  "al_DeviceID ex_alert = ''d1''" "al_IsSilenced ex_alert = False" "al_Severity ex_alert = ''CRITICAL''"
  "first_violation (alert_checks ex_alert) = None"
  by (simp_all add: ex_alert_def new_alert_def alert_checks_def ex_nano ex_threshold_def ex_message_def
      no_nul_def utf8_len_def)

lemma ex_alert_json:
  "al_MetricValue ex_alert = Fin 35" "json_time_ok (al_TriggeredAt ex_alert)"
  by (simp_all add: ex_alert_def new_alert_def json_time_ok_def ex_clock_def)

text \<open>The worlds in which the pending goroutine of \<open>Example\<close> has started and has ended.\<close>

definition ex_begun :: "mem world" where
  "ex_begun = ex_world1\<lparr>w_tasks := []\<rparr>"

lemma ex_begun_simps [simp]:
  "w_tick ex_begun = 2" "w_thresholds ex_begun = [ex_threshold]" "w_silences ex_begun = []"
  "w_alerts ex_begun = []" "w_published ex_begun = []" "w_devices ex_begun = [ex_device]"
  "w_redis ex_begun = (last_seen_key ''d1'', unix_dec ex_time) # ex_mark"
  by (simp_all add: ex_begun_def ex_world1_def)

definition ex_world2 :: "mem world" where
  "ex_world2 = ex_begun\<lparr>w_tick := 10, w_alerts := [(ex_alert, ex_clock 0)],
     w_published := [(''alerts/d1'', AlertPayload (alert_message ex_alert))],
     w_redis := (alert_key ''d1'', ''1'') # w_redis ex_begun\<rparr>"

lemma ex_world2_simps [simp]:
  "w_alerts ex_world2 = [(ex_alert, ex_clock 0)]" "w_silences ex_world2 = []"
  "w_published ex_world2 = [(''alerts/d1'', AlertPayload (alert_message ex_alert))]"
  "w_thresholds ex_world2 = [ex_threshold]" "w_devices ex_world2 = [ex_device]"
  by (simp_all add: ex_world2_def)

lemma ex_publish:
  "publishAlertMQTT ex_env ex_evaluator ''d1'' ex_alert w =
     w\<lparr>w_tick := Suc (w_tick w),
       w_published := w_published w @ [(''alerts/d1'', AlertPayload (alert_message ex_alert))]\<rparr>"
proof -
  have "json_alert (alert_message ex_alert) = None"
    by (simp add: json_alert_def alert_message_def ex_alert_json json_float_ok_def f_is_nan_def f_is_inf_def)
  then show ?thesis
    by (simp add: publishAlertMQTT_def PublishAlert_def mqtt_publish_def ext_fault_def ex_evaluator_def
        NewAlertEvaluator_def)
qed

lemma ex_eval:
  "evaluate ex_env ''d1'' ''temperature'' (Fin 35) (ex_evaluator, ex_begun) = (ex_evaluator, ex_world2)"
proof -
  let ?w = "ex_begun\<lparr>w_tick := 7\<rparr>" and ?w5 = "ex_begun\<lparr>w_tick := 5\<rparr>"
  have "evaluate ex_env ''d1'' ''temperature'' (Fin 35) (ex_evaluator, ex_begun) =
      evaluate_threshold ex_env ''d1'' ''temperature'' (Fin 35) False ex_threshold (ex_evaluator, ?w5)"
    by (simp add: evaluate_def ex_thresholds ex_silences checkSilenced_def)
  also have "\<dots> = (ex_evaluator, ex_world2)"
  proof -
    have s: "redisAlertSuppressed ex_env ''d1'' ?w = (False, ?w)"
      by (simp add: redisAlertSuppressed_def redis_do_def mem_redis_def ex_mark_def
          alert_key_def last_seen_key_def dedup_key_def)
    have i: "InsertAlert ex_env ex_alert ?w = (None, ?w\<lparr>w_tick := 9, w_alerts := [(ex_alert, ex_clock 0)]\<rparr>)"
      by (simp add: InsertAlert_def ext_fault_def time_now_def alert_device_ids_def ex_device_def ex_clock_def)
    have a: "new_alert ex_env ''d1'' ''temperature'' (Fin 35) False ex_threshold ex_message (w_tick ?w5) = ex_alert"
      by (simp add: ex_alert_def)
    show ?thesis
      unfolding evaluate_threshold_def prod.case ex_check option.case Let_def a if_False
      using s i by (simp add: ex_publish) (simp add: redis_do_def mem_redis_def ex_world2_def)
  qed
  finally show ?thesis .
qed

section \<open>The contract of an evaluation\<close>



text \<open>
  C5. Nothing is published that is not stored: from a world without publications, with goroutines that start
  at any time, interleave at each of their external calls, and fail at any of them, while the other services
  change what they like but remove no alert, each alert message on the broker carries an alert
  of the table that no rule silences, on the topic of its device.
\<close>

theorem published_alerts_are_stored:
  assumes "(estep E)\<^sup>*\<^sup>* ([], ev, w) (gs, ev', w')" "w_published w = []"
    "(topic, AlertPayload msg) \<in> set (w_published w')"
  shows "\<exists>a \<in> fst ` set (w_alerts w'). topic = ''alerts/'' @ al_DeviceID a \<and>
    msg = alert_message a \<and> \<not> al_IsSilenced a"
proof -
  have "evaluations_inv ([], ev, w)" using assms(2) by (simp add: evaluations_inv_def published_inv_def)
  from goroutines.run_kept [OF assms(1) this] have "published_inv w'" by (simp add: evaluations_inv_def)
  with assms(3) show ?thesis unfolding published_inv_def by blast
qed

theorem published_alerts_are_stored_witness:
  "\<exists>a \<in> fst ` set (w_alerts ex_world2). ''alerts/d1'' = ''alerts/'' @ al_DeviceID a \<and>
     alert_message ex_alert = alert_message a \<and> \<not> al_IsSilenced a"
proof (rule published_alerts_are_stored)
  show "(estep ex_env)\<^sup>*\<^sup>* ([], ex_evaluator, ex_begun)
      ([((''d1'', ''temperature'', Fin 35), Over)], ex_evaluator, ex_world2)"
    using goroutine_evaluates [of ex_env "[]" "(ex_evaluator, ex_begun)" "''d1''" "''temperature''" "Fin 35"]
    by (simp add: ex_eval)
qed simp_all



section \<open>Silences\<close>

text \<open>
  C18. A silence asked for one metric mutes every metric of the device, and clearing it does not end
  that: after a successful silence and a successful clear, while the mark stands, an evaluation of
  any metric and value of the device stores no alert and publishes none.
\<close>

theorem cleared_silence_still_mutes:
  assumes "e_redis E = Some R" "mark_law R" "SilenceAlert E req w = (Inr x, w1)"
    "ClearSilence E (sar_DeviceId req) w1 = (None, w2)" "e_fault E (Suc (w_tick w2)) = None"
    "evaluate E (sar_DeviceId req) m v (ev, w2) = (ev', w3)"
  shows "w_alerts w3 = w_alerts w2 \<and> w_published w3 = w_published w2"
proof -
  let ?d = "sar_DeviceId req"
  have "marked R ?d w2"
    using SilenceAlert_marks [OF assms(1-3)] ClearSilence_keeps_redis [OF assms(4)] by (simp add: marked_def)
  moreover have clear: "ClearSilences E ?d w1 = (None, w2)"
    using assms(4) by (auto simp: ClearSilence_def split: if_splits option.splits prod.splits)
  then have "no_nul ?d" by (auto simp: ClearSilences_def ext_fault_def split: option.splits if_splits)
  moreover have "\<not> silenced_at ?d m t w2" for t
    using ClearSilences_ok [OF clear] by (auto simp: silenced_at_def)
  ultimately show ?thesis
    using evaluate_marked_quiet [OF assms(1,2) _ assms(5) _ _ assms(6)] by blast
qed

definition ex_silence :: silence_alert_request where
  "ex_silence = \<lparr>sar_DeviceId = ''d1'', sar_MetricName = ''humidity'', sar_DurationSeconds = 60,
     sar_Reason = ''test''\<rparr>"

lemma ex_silence_run:
  "\<exists>x w1 w2. SilenceAlert ex_env ex_silence ex_begun = (Inr x, w1) \<and>
     ClearSilence ex_env (sar_DeviceId ex_silence) w1 = (None, w2) \<and>
     w_alerts w2 = [] \<and> w_published w2 = []"
  by (simp add: SilenceAlert_def ex_silence_def SilenceDevice_def time_now_def ext_fault_def
      sql_insert_silence_def silence_checks_def silence_texts_def no_nul_def utf8_len_def alert_device_ids_def
      ex_device_def cacheSilence_def redis_do_def mem_redis_def ClearSilence_def ClearSilences_def Let_def)

theorem cleared_silence_still_mutes_witness:
  "\<exists>x w1 w2. SilenceAlert ex_env ex_silence ex_begun = (Inr x, w1) \<and>
     ClearSilence ex_env ''d1'' w1 = (None, w2) \<and>
     w_alerts (snd (evaluate ex_env ''d1'' ''temperature'' (Fin 35) (ex_evaluator, w2))) = []"
proof -
  obtain x w1 w2 where run: "SilenceAlert ex_env ex_silence ex_begun = (Inr x, w1)"
    "ClearSilence ex_env (sar_DeviceId ex_silence) w1 = (None, w2)" "w_alerts w2 = []"
    using ex_silence_run by blast
  obtain ev' w3 where ev: "evaluate ex_env (sar_DeviceId ex_silence) ''temperature'' (Fin 35) (ex_evaluator, w2) = (ev', w3)"
    by fastforce
  have d: "sar_DeviceId ex_silence = ''d1''" by (simp add: ex_silence_def)
  from cleared_silence_still_mutes [OF _ mark_law_mem run(1,2) _ ev] run ev d show ?thesis by auto
qed

text \<open>
  C34. A silence of a metric is refused while the table holds a rule for it, also an expired one:
  the uniqueness constraint does not look at the time, and nothing but a clear removes a rule.
\<close>

theorem expired_silence_blocks_new:
  assumes "s \<in> set (w_silences w)" "sl_DeviceID s = sar_DeviceId req"
    "sl_MetricName s = Some (sar_MetricName req)" "sar_MetricName req \<noteq> []"
  shows "\<exists>e w'. SilenceAlert E req w = (Inl e, w') \<and> w_silences w' = w_silences w"
proof -
  obtain sid e w' where fail: "SilenceDevice E (sar_DeviceId req) (sar_MetricName req)
      (sint (sar_DurationSeconds req)) (sar_Reason req) w = ((sid, Some e), w')"
    using SilenceDevice_unique [OF assms] by blast
  with same_dataD(6) [OF SilenceDevice_err [OF fail]] show ?thesis by (simp add: SilenceAlert_def)
qed

definition ex_old_rule :: silence_rule where
  "ex_old_rule = \<lparr>sl_SilenceID = ''s'', sl_DeviceID = ''d1'', sl_MetricName = Some ''humidity'',
     sl_SilencedUntil = zero_time, sl_Reason = ''''\<rparr>"

theorem expired_silence_blocks_new_witness:
  "\<exists>e w'. SilenceAlert ex_env ex_silence (ex_begun\<lparr>w_silences := [ex_old_rule]\<rparr>) = (Inl e, w')"
  using expired_silence_blocks_new [of ex_old_rule "ex_begun\<lparr>w_silences := [ex_old_rule]\<rparr>" ex_silence ex_env]
  by (auto simp: ex_old_rule_def ex_silence_def)

section \<open>Thresholds\<close>

text \<open>
  C19. A created threshold is usable: the stored row has the answered id and the fields of the request,
  one of the four types and one of the three severities, and the bounds its type compares with
  are numbers, in order for a RANGE; the only gap is a CHANGE percentage that is not a number.
\<close>

theorem created_threshold_is_usable:
  assumes "CreateThreshold E req w = (Inr (tid, ts), w')"
  shows "\<exists>t. set (w_thresholds w') = insert t (set (w_thresholds w)) \<and> th_ThresholdID t = tid \<and>
    usable_threshold t \<and> th_DeviceID t = ctr_DeviceId req \<and> th_MetricName t = ctr_MetricName req \<and>
    th_Type t = enum_string ThresholdType_name (ctr_Type req) \<and>
    th_LowerBound t = ctr_LowerBound req \<and> th_UpperBound t = ctr_UpperBound req \<and>
    th_Enabled t = ctr_Enabled req"
  using CreateThreshold_stores_usable [OF assms] by metis

definition ex_create :: create_threshold_request where
  "ex_create = \<lparr>ctr_DeviceId = ''d1'', ctr_MetricName = ''humidity'', ctr_Type = THRESHOLD_RANGE,
     ctr_LowerBound = Fin 20, ctr_UpperBound = Fin 60, ctr_ChangePercent = Fin 0, ctr_Severity = 2,
     ctr_Enabled = True\<rparr>"

lemma ex_create_checks:
  "validateThresholdRequest ex_create = None"
  "first_violation (threshold_checks (threshold_of_request ex_create)) = None"
  by (simp_all add: validateThresholdRequest_def ex_create_def f_is_nan_def f_is_inf_def f_ge_def f_gt_def
      Let_def threshold_of_request_def
      threshold_checks_def enum_string_def ThresholdType_name_def AlertSeverity_name_def threshold_types_def
      severities_def no_nul_def utf8_len_def)

lemma ex_create_run: "\<exists>tid ts w'. CreateThreshold ex_env ex_create ex_begun = (Inr (tid, ts), w')"
proof -
  let ?t = "threshold_of_request ex_create"
  have upd: "threshold_checks (?t\<lparr>th_ThresholdID := i, th_CreatedAt := a, th_UpdatedAt := b\<rparr>) = threshold_checks ?t"
    for i a b by (simp add: threshold_checks_def)
  have "th_MetricName ?t = ''humidity''" "th_DeviceID ?t = ''d1''"
    by (simp_all add: threshold_of_request_def ex_create_def)
  then have "snd (fst (CreateThreshold_db ex_env ?t ex_begun)) = None"
    by (simp add: CreateThreshold_db_def time_now_def ext_fault_def ex_nano sql_insert_threshold_def upd
        ex_create_checks alert_device_ids_def ex_device_def ex_threshold_def threshold_key_def Let_def)
  then show ?thesis
    by (auto simp: CreateThreshold_def ex_create_checks time_now_def split: prod.split option.split)
qed

theorem created_threshold_is_usable_witness:
  "\<exists>tid ts w' t. CreateThreshold ex_env ex_create ex_begun = (Inr (tid, ts), w') \<and>
     t \<in> set (w_thresholds w') \<and> th_ThresholdID t = tid \<and> usable_threshold t \<and> th_UpperBound t = Fin 60"
proof -
  obtain tid ts w' where run: "CreateThreshold ex_env ex_create ex_begun = (Inr (tid, ts), w')"
    using ex_create_run by blast
  from created_threshold_is_usable [OF run] run show ?thesis
    by (auto simp: ex_create_def)
qed

text \<open>
  No update disables a threshold: a row that is enabled is enabled after every \<open>UpdateThreshold\<close>,
  of whatever request, since a false flag in the request is taken for an absent one.
\<close>

lemma update_never_disables:
  assumes "thresholds_inv w" "UpdateThreshold E req w = (r, w')" "t \<in> set (w_thresholds w)" "th_Enabled t"
  shows "\<exists>t' \<in> set (w_thresholds w'). th_ThresholdID t' = th_ThresholdID t \<and> th_Enabled t'"
  using UpdateThreshold_keeps_enabled [OF assms(2-4)] assms(1) by (simp add: thresholds_inv_def)

definition ex_update :: update_threshold_request where
  "ex_update = \<lparr>utr_ThresholdId = ''t1'', utr_LowerBound = Fin 0, utr_UpperBound = Fin 40,
     utr_ChangePercent = Fin 0, utr_Severity = 0, utr_Enabled = False\<rparr>"

lemma ex_begun_thresholds: "thresholds_inv ex_begun"
  by (simp add: thresholds_inv_def threshold_checks_def ex_threshold_def alert_device_ids_def ex_device_def
      threshold_types_def severities_def no_nul_def utf8_len_def)

text \<open>
  An update through the gateway whose body names no declared severity, as one that only
  changes a bound, sets the severity of the threshold to WARNING.
\<close>

theorem gateway_update_resets_severity:
  assumes "gw_updateThreshold err_text (UpdateThreshold E) tid (Some body) w = ((200, m), w')"
    "enum_value AlertSeverity_name (ub_Severity body) = None"
    "t \<in> set (w_thresholds w')" "th_ThresholdID t = tid"
  shows "th_Severity t = ''WARNING''"
  by (rule gw_updateThreshold_severity [OF assms])

definition ex_update_body :: update_threshold_body where
  "ex_update_body = \<lparr>ub_LowerBound = Fin 0, ub_UpperBound = Fin 40, ub_ChangePercent = Fin 0,
     ub_Severity = '''', ub_Enabled = True\<rparr>"

lemma ex_update_run:
  "\<exists>m t w'. gw_updateThreshold st_msg (UpdateThreshold ex_env) ''t1'' (Some ex_update_body) ex_begun =
     ((200, m), w') \<and> t \<in> set (w_thresholds w') \<and> th_ThresholdID t = ''t1''"
  by (simp add: gw_updateThreshold_def gw_update_request_def ex_update_body_def enum_or_def enum_value_def
      UpdateThreshold_def threshold_updates_def f_gt_def UpdateThreshold_db_def ext_fault_def time_now_def
      sql_update_threshold_def threshold_columns_def no_nul_def ex_threshold_def set_column_def
      threshold_checks_def utf8_len_def threshold_types_def severities_def alert_device_ids_def ex_device_def
      AlertSeverity_name_def enum_string_def rpc_reply_def Let_def)

theorem gateway_update_resets_severity_witness:
  "\<exists>m t w'. gw_updateThreshold st_msg (UpdateThreshold ex_env) ''t1'' (Some ex_update_body) ex_begun =
     ((200, m), w') \<and> t \<in> set (w_thresholds w') \<and> th_Severity t = ''WARNING''"
proof -
  obtain m t w' where run: "gw_updateThreshold st_msg (UpdateThreshold ex_env) ''t1'' (Some ex_update_body)
      ex_begun = ((200, m), w')" "t \<in> set (w_thresholds w')" "th_ThresholdID t = ''t1''"
    using ex_update_run by blast
  have "enum_value AlertSeverity_name (ub_Severity ex_update_body) = None"
    by (simp add: ex_update_body_def enum_value_def AlertSeverity_name_def)
  from gateway_update_resets_severity [OF run(1) this run(2,3)] run show ?thesis by blast
qed

section \<open>Reports\<close>

text \<open>
  The statistics of a device are consistent: the counts by severity add up to the number of alerts of
  the window, each severity is named once, and nothing is changed.
\<close>

lemma severity_counts_add_up:
  assumes "GetAlertStats_db E d a b w = (Inr s, w')"
  shows "sum_list (map snd (as_by_severity s)) = as_total_alerts s \<and>
    as_total_alerts s = of_nat (length (alerts_between d a b (map fst (w_alerts w)))) \<and>
    distinct (map fst (as_by_severity s)) \<and> same_data w' w"
proof -
  have "as_by_severity s = group_by_severity (alerts_between d a b (map fst (w_alerts w)))"
    "as_total_alerts s = of_nat (length (alerts_between d a b (map fst (w_alerts w))))"
    using assms by (auto simp: GetAlertStats_db_def ext_fault_def Let_def split: option.splits if_splits)
  then show ?thesis
    using GetAlertStats_db_same_data [OF assms] group_by_severity_total
    by (simp add: group_by_severity_def comp_def)
qed


definition ex_active :: get_active_alerts_request where
  "ex_active = \<lparr>aar_DeviceId = ''d1'', aar_MinSeverity = 0, aar_Limit = 0, aar_Offset = 0\<rparr>"


text \<open>
  A device whose last-seen time was recorded is silent exactly where the clock is more than fifteen
  minutes past the recorded second.
\<close>

lemma silent_after_fifteen_minutes:
  assumes "e_redis E = Some R" "set_get_law R" "SetDeviceLastSeen E d t ttl w = (None, w1)"
  shows "fst (IsDeviceSilent E d w1) =
    Inr (time_sub (e_clock E (w_tick w1)) (time_unix (unix_secs t)) > minutes 15)"
  by (rule last_seen_stored [OF assms])
    (simp add: IsDeviceSilent_def assms(1) parse_unix_dec time_now_def defaultLastSeenMaxAge_def Let_def)

section \<open>Alerts that must be raised\<close>

text \<open>A sample that was stored is valid, and its evaluation is the last one queued.\<close>

lemma stored_sample:
  assumes "SubmitMetric E True req w = Some (Inr resp, w1)" "smp_Message resp = ''metric stored successfully''"
  shows "isFinite (smr_Value req)" "smr_MetricName req \<noteq> []"
    "w_tasks w1 = w_tasks w @ [(smr_DeviceId req, smr_MetricName req, smr_Value req)]"
proof -
  have "validateSubmitRequest req = None"
    using assms(1)
  proof (cases rule: SubmitMetric_cases)
    case early
    then have "smp_Message resp = ''duplicate ignored''" by (rule submit_prefix_early_message)
    with assms(2) show ?thesis by simp
  next
    case (stored point w1 w2)
    then obtain ts w0 where "validateAndResolveMetricTimestamp E req w = (Inr ts, w0)"
      by (cases rule: submit_prefix_cases [where E = E and req = req and w = w]) auto
    then show ?thesis by (auto simp: validateAndResolveMetricTimestamp_def split: option.splits)
  qed simp
  then show "isFinite (smr_Value req)" "smr_MetricName req \<noteq> []" by (simp_all add: validateSubmitRequest_None)
  show "w_tasks w1 = w_tasks w @ [(smr_DeviceId req, smr_MetricName req, smr_Value req)]"
    using assms by (elim SubmitMetric_stored) simp_all
qed

text \<open>
  C8. From a sample to its alert: where a sample was stored and violates an enabled threshold of its device
  and metric, the evaluation it started stores a new unsilenced alert of that device, metric and value
  for such a threshold and, with a publisher, publishes it, provided that no rule silences the metric, the
  device is not marked, no external call fails, no alert has the time the clock will show, and the device
  identifier has at most 230 characters.
\<close>

theorem accepted_violation_raises_alert:
  assumes "SubmitMetric E True req w = Some (Inr resp, w1)" "smp_Message resp = ''metric stored successfully''"
    "run_evaluation E (length (w_tasks w)) (ev, w1) = Some (ev', w2)"
    "thresholds_inv w1" "t \<in> thresholds_for (smr_DeviceId req) (smr_MetricName req) w1"
    "violates t (smr_Value req)" "utf8_len (smr_DeviceId req) \<le> 230" "unmarked E (smr_DeviceId req) w1"
    "\<not> silenced_at (smr_DeviceId req) (smr_MetricName req) (e_clock E (w_tick w1 + 2)) w1"
    "quiet_from E (w_tick w1)" "fresh_clock E w1" "\<forall>k \<ge> w_tick w1. json_time_ok (e_clock E k)"
  shows "\<exists>a t'. t' \<in> thresholds_for (smr_DeviceId req) (smr_MetricName req) w1 \<and>
    alert_for (smr_DeviceId req) (smr_MetricName req) (smr_Value req) False t' a \<and>
    a \<in> fst ` set (w_alerts w2) \<and> length (w_alerts w1) < length (w_alerts w2) \<and>
    (ev_mqttPub ev \<longrightarrow> (''alerts/'' @ smr_DeviceId req, AlertPayload (alert_message a)) \<in> set (w_published w2))"
proof -
  note s = stored_sample [OF assms(1,2)]
  let ?w = "w1\<lparr>w_tasks := w_tasks w\<rparr>"
  have run: "evaluate E (smr_DeviceId req) (smr_MetricName req) (smr_Value req) (ev, ?w) = (ev', w2)"
    using assms(3) s(3) by (simp add: run_evaluation_def)
  have th: "thresholds_for (smr_DeviceId req) (smr_MetricName req) ?w =
      thresholds_for (smr_DeviceId req) (smr_MetricName req) w1" by (simp add: thresholds_for_def)
  have "smr_DeviceId req \<in> alert_device_ids w1"
    using assms(4,5) by (auto simp: thresholds_for_def thresholds_inv_def)
  then have "may_raise E (smr_DeviceId req) (smr_Value req) ?w"
    using assms(7,8,10-12) isFinite_not_special [OF s(1)]
    by (simp add: may_raise_def unmarked_def fresh_clock_def alert_device_ids_def)
  moreover have "thresholds_inv ?w" using assms(4) by (simp add: thresholds_inv_def alert_device_ids_def)
  moreover have "\<not> silenced_at (smr_DeviceId req) (smr_MetricName req) (e_clock E (w_tick ?w + 2)) ?w"
    using assms(9) by (simp add: silenced_at_def)
  ultimately have "raised (smr_DeviceId req) (smr_MetricName req) (smr_Value req) (ev_mqttPub ev)
      (thresholds_for (smr_DeviceId req) (smr_MetricName req) ?w) ?w w2"
    using evaluate_raises [OF _ _ s(2) assms(6) _ _ run] assms(5) th by blast
  then show ?thesis unfolding raised_def th by simp
qed

theorem accepted_violation_raises_alert_witness:
  "\<exists>a. a \<in> fst ` set (w_alerts ex_world2) \<and> al_MetricValue a = Fin 35 \<and>
     (''alerts/d1'', AlertPayload (alert_message a)) \<in> set (w_published ex_world2)"
proof -
  have run: "run_evaluation ex_env (length (w_tasks ex_world)) (ex_evaluator, ex_world1) = Some (ex_evaluator, ex_world2)"
    using ex_eval by (simp add: run_evaluation_def ex_begun_def ex_world1_def)
  have w1: "w_thresholds ex_world1 = [ex_threshold]" "w_silences ex_world1 = []" "w_alerts ex_world1 = []"
    "w_devices ex_world1 = [ex_device]" "w_redis ex_world1 = (last_seen_key ''d1'', unix_dec ex_time) # ex_mark"
    using ex_begun_simps by (simp_all add: ex_begun_def)
  have th: "ex_threshold \<in> thresholds_for ''d1'' ''temperature'' ex_world1"
    by (simp add: thresholds_for_def w1) (simp add: ex_threshold_def)
  have viol: "violates ex_threshold (Fin 35)" by (simp add: violates_def ex_threshold_def f_gt_def)
  have inv: "thresholds_inv ex_world1"
    using ex_begun_thresholds by (simp add: ex_begun_def thresholds_inv_def alert_device_ids_def)
  have unm: "unmarked ex_env ''d1'' ex_world1"
    by (simp add: unmarked_def mem_redis_def w1 ex_mark_def alert_key_def last_seen_key_def dedup_key_def)
  have rest: "\<not> silenced_at ''d1'' ''temperature'' (ex_clock (w_tick ex_world1 + 2)) ex_world1"
    "quiet_from ex_env (w_tick ex_world1)" "fresh_clock ex_env ex_world1"
    "\<forall>k \<ge> w_tick ex_world1. json_time_ok (ex_clock k)"
    by (simp_all add: silenced_at_def quiet_from_def fresh_clock_def w1 json_time_ok_def ex_clock_def)
  from accepted_violation_raises_alert [OF ex_submit _ run inv, of ex_threshold] th viol unm rest
  show ?thesis
    by (fastforce simp: stored_response_def alert_for_def ex_evaluator_def NewAlertEvaluator_def ex_request_def utf8_len_def)
qed

end
