(* ===== verification/EvaluationRace.thy ===== *)
theory EvaluationRace
  imports AlertProperties
begin

text \<open>
  Two evaluations of one device that overlap: both look for the mark of the device before either sets it,
  so that both raise an alert, though an evaluation by itself raises at most one and none
  after another. The run is one of \<open>estep\<close>, on the deployment of \<open>Example\<close> with a clock that moves.
\<close>

definition race_env :: "mem env" where
  "race_env = ex_env\<lparr>e_clock := \<lambda>n. GoTime (63835596800 + of_nat n) 0\<rparr>"

lemma race_env_simps [simp]:
  "e_clock race_env n = GoTime (63835596800 + of_nat n) 0" "e_fault race_env n = None"
  "e_redis race_env = Some mem_redis"
  by (simp_all add: race_env_def)

abbreviation race_step :: "stage \<Rightarrow> evaluator \<times> mem world \<Rightarrow> stage \<times> evaluator \<times> mem world" where
  "race_step \<equiv> gstep race_env ''d1'' ''temperature'' (Fin 35)"

text \<open>The alert that a goroutine builds at a tick.\<close>

definition race_alert :: "nat \<Rightarrow> alert" where
  "race_alert n = new_alert race_env ''d1'' ''temperature'' (Fin 35) False ex_threshold ex_message n"

lemma race_alert_simps [simp]:
  "al_DeviceID (race_alert n) = ''d1''" "al_IsSilenced (race_alert n) = False" "first_violation (alert_checks (race_alert n)) = None"
proof -
  have "first_violation (threshold_checks ex_threshold) = None" "no_nul ex_message" "utf8_len ''d1'' \<le> 230"
    by (simp_all add: threshold_checks_def ex_threshold_def ex_message_def threshold_types_def severities_def
        no_nul_def utf8_len_def)
  then show "first_violation (alert_checks (race_alert n)) = None"
    unfolding race_alert_def by (intro new_alert_fits) (simp_all add: ex_threshold_def)
qed (simp_all add: race_alert_def new_alert_def)

text \<open>The world of the race: the deployment, with some ticks gone and some alerts raised.\<close>

definition race_world :: "nat \<Rightarrow> (alert \<times> gotime) list \<Rightarrow> mem world" where
  "race_world n as = ex_begun\<lparr>w_tick := n, w_alerts := as\<rparr>"

lemma race_begin:
  "race_step Begin (ex_evaluator, race_world n as) =
     (Silences [ex_threshold], ex_evaluator, race_world (Suc n) as)"
  by (simp add: race_world_def GetThresholds_db_def ext_fault_def no_nul_def)
    (simp add: ex_threshold_def)

lemma race_silences:
  "race_step (Silences ts) (ex_evaluator, race_world n as) =
     (Next False ts, ex_evaluator, race_world (n + 2) as)"
  by (simp add: race_world_def GetActiveSilences_def ext_fault_def time_now_def no_nul_def checkSilenced_def)

lemma race_next:
  "race_step (Next False [ex_threshold]) (ex_evaluator, w) =
     (Build False ex_threshold ex_message [], ex_evaluator, w)"
proof -
  have "th_Type ex_threshold \<noteq> ''CHANGE''" by (simp add: ex_threshold_def)
  then show ?thesis by (simp add: ex_check after_check_def)
qed

lemma race_build:
  "race_step (Build False ex_threshold ex_message []) (ex_evaluator, race_world n as) =
     (Check (race_alert n) [], ex_evaluator, race_world (n + 2) as)"
  by (simp add: race_world_def race_alert_def)

lemma race_check:
  "race_step (Check a ts) (ex_evaluator, race_world n as) =
     (Insert False a ts, ex_evaluator, race_world n as)"
  by (simp add: race_world_def redisAlertSuppressed_def redis_do_def mem_redis_def ex_mark_def
      alert_key_def last_seen_key_def dedup_key_def)

lemma race_insert:
  assumes "e_clock race_env (Suc n) \<notin> snd ` set as"
  shows "race_step (Insert False (race_alert k) ts) (ex_evaluator, race_world n as) =
    (Publish (race_alert k) ts, ex_evaluator, race_world (n + 2) (as @ [(race_alert k, e_clock race_env (Suc n))]))"
  using assms
  by (auto simp: race_world_def InsertAlert_def ext_fault_def time_now_def alert_device_ids_def ex_device_def
      image_iff)

text \<open>One goroutine up to its insert.\<close>

lemma race_to_insert:
  "grun race_env ''d1'' ''temperature'' (Fin 35) 5 (Begin, ex_evaluator, race_world n as) =
     (Insert False (race_alert (n + 3)) [], ex_evaluator, race_world (n + 5) as)"
proof -
  have five: "grun race_env d m v 5 x = grun race_env d m v (Suc (Suc (Suc (Suc (Suc 0))))) x" for d m v x
    by (simp add: eval_nat_numeral)
  show ?thesis
    unfolding five grun_simps race_begin race_silences race_next race_build race_check by (simp add: eval_nat_numeral)
qed

abbreviation race_goroutine :: "stage \<Rightarrow> goroutine" where
  "race_goroutine st \<equiv> ((''d1'', ''temperature'', Fin 35), st)"

lemma race_first:
  assumes "i < length gs" "gs ! i = race_goroutine Begin"
  shows "(estep race_env)\<^sup>*\<^sup>* (gs, ex_evaluator, race_world n as)
    (gs[i := race_goroutine (Insert False (race_alert (n + 3)) [])], ex_evaluator, race_world (n + 5) as)"
  by (rule grun_steps [OF assms race_to_insert])

lemma race_second:
  assumes "i < length gs" "gs ! i = race_goroutine (Insert False (race_alert k) [])"
    "e_clock race_env (Suc n) \<notin> snd ` set as"
  shows "estep race_env (gs, ex_evaluator, race_world n as)
    (gs[i := race_goroutine (Publish (race_alert k) [])], ex_evaluator,
     race_world (n + 2) (as @ [(race_alert k, e_clock race_env (Suc n))]))"
  by (rule estep.step [OF assms(1,2) race_insert [OF assms(3)]])

lemma race_world_2: "race_world 2 [] = ex_begun"
  by (simp add: race_world_def ex_begun_def ex_world1_def)

text \<open>
  C31. The mark of a device does not keep overlapping evaluations apart: in a run of two goroutines for
  two samples of one device, both test the mark before either sets it, and the table ends
  with two unsilenced alerts of the device, each due to be published.
\<close>

theorem overlapping_evaluations_raise_twice:
  "\<exists>gs w a b. (estep race_env)\<^sup>*\<^sup>* ([], ex_evaluator, ex_begun) (gs, ex_evaluator, w) \<and>
     map snd gs = [Publish a [], Publish b []] \<and> map fst (w_alerts w) = [a, b] \<and>
     al_DeviceID a = ''d1'' \<and> al_DeviceID b = ''d1'' \<and> \<not> al_IsSilenced a \<and> \<not> al_IsSilenced b"
proof -
  let ?ins = "\<lambda>k. race_goroutine (Insert False (race_alert k) [])"
    and ?pub = "\<lambda>k. race_goroutine (Publish (race_alert k) [])" and ?b = "race_goroutine Begin"
    and ?row = "\<lambda>k n. (race_alert k, e_clock race_env n)"
    and ?R = "estep race_env"
  have 1: "?R ([], ex_evaluator, race_world 2 []) ([?b], ex_evaluator, race_world 2 [])"
    using estep.spawn [of race_env "[]"] by simp
  have 2: "?R ([?b], ex_evaluator, race_world 2 []) ([?b, ?b], ex_evaluator, race_world 2 [])"
    using estep.spawn [of race_env "[?b]"] by simp
  have 3: "?R\<^sup>*\<^sup>* ([?b, ?b], ex_evaluator, race_world 2 []) ([?ins 5, ?b], ex_evaluator, race_world 7 [])"
    using race_first [of 0 "[?b, ?b]" 2 "[]"] by simp
  have 4: "?R\<^sup>*\<^sup>* ([?ins 5, ?b], ex_evaluator, race_world 7 []) ([?ins 5, ?ins 10], ex_evaluator, race_world 12 [])"
    using race_first [of 1 "[?ins 5, ?b]" 7 "[]"] by simp
  have 5: "?R ([?ins 5, ?ins 10], ex_evaluator, race_world 12 [])
      ([?pub 5, ?ins 10], ex_evaluator, race_world 14 [?row 5 13])"
    using race_second [of 0 "[?ins 5, ?ins 10]" 5 12 "[]"] by simp
  have 6: "?R ([?pub 5, ?ins 10], ex_evaluator, race_world 14 [?row 5 13])
      ([?pub 5, ?pub 10], ex_evaluator, race_world 16 [?row 5 13, ?row 10 15])"
    using race_second [of 1 "[?pub 5, ?ins 10]" 10 14 "[?row 5 13]"] by simp
  have "?R\<^sup>*\<^sup>* ([], ex_evaluator, ex_begun) ([?pub 5, ?pub 10], ex_evaluator, race_world 16 [?row 5 13, ?row 10 15])"
    unfolding race_world_2 [symmetric]
    using 1 2 3 4 5 6 by (meson converse_rtranclp_into_rtranclp r_into_rtranclp rtranclp_trans)
  then show ?thesis by (intro exI conjI) (assumption | simp add: race_world_def)+
qed

end
