(* ===== verification/System.thy ===== *)
theory System
  imports Gateway SilentWatchdog TelemetryIngest AlertRaising WriteQueue
begin

text \<open>
  The services on their common state: every gRPC handler, MQTT message, step of the write worker and
  its goroutines, evaluation goroutine, cache goroutine and round of the watchdog is a step on the
  world, in any order. The invariants of all tables are put together, and every step keeps them and
  what the write queue promises.
\<close>

section \<open>The invariant of the database\<close>

definition db_inv :: "'r world \<Rightarrow> bool" where
  "db_inv w \<longleftrightarrow>
     metrics_inv w \<and> devices_inv w \<and> thresholds_inv w \<and> alerts_inv w \<and> silences_inv w \<and> published_inv w"

lemma device_ids_eq: "device_ids w = alert_device_ids w"
  by (simp add: device_ids_def alert_device_ids_def)

lemma db_inv_initial:
  assumes "w_metrics w = []" "w_devices w = []" "w_certs w = []" "w_thresholds w = []" "w_alerts w = []"
    "w_silences w = []" "w_published w = []"
  shows "db_inv w"
  using assms by (simp add: db_inv_def metrics_inv_def devices_inv_def thresholds_inv_def alerts_inv_def
      silences_inv_def published_inv_def)

text \<open>What each part depends on.\<close>

lemma inv_congs:
  "w_metrics w' = w_metrics w \<Longrightarrow> alert_device_ids w \<subseteq> alert_device_ids w' \<Longrightarrow> metrics_inv w \<Longrightarrow> metrics_inv w'"
  "w_devices w' = w_devices w \<Longrightarrow> w_certs w' = w_certs w \<Longrightarrow> devices_inv w \<Longrightarrow> devices_inv w'"
  "w_thresholds w' = w_thresholds w \<Longrightarrow> alert_device_ids w \<subseteq> alert_device_ids w' \<Longrightarrow> thresholds_inv w \<Longrightarrow>
     thresholds_inv w'"
  "w_alerts w' = w_alerts w \<Longrightarrow> alert_device_ids w \<subseteq> alert_device_ids w' \<Longrightarrow> alerts_inv w \<Longrightarrow> alerts_inv w'"
  "w_silences w' = w_silences w \<Longrightarrow> alert_device_ids w \<subseteq> alert_device_ids w' \<Longrightarrow> silences_inv w \<Longrightarrow> silences_inv w'"
  "w_published w' = w_published w \<Longrightarrow> w_alerts w' = w_alerts w \<Longrightarrow> published_inv w \<Longrightarrow> published_inv w'"
  by (fastforce simp: metrics_inv_def devices_inv_def thresholds_inv_def alerts_inv_def silences_inv_def
      published_inv_def device_ids_eq)+

text \<open>
  The tables but one: \<open>keeps\<close> lists what an operation leaves alone. A device is never removed, so
  that rows that name one stay valid.
\<close>

definition but_metrics where
  "but_metrics w = (w_devices w, w_certs w, w_thresholds w, w_alerts w, w_silences w, w_published w)"
definition but_thresholds where
  "but_thresholds w = (w_devices w, w_certs w, w_metrics w, w_alerts w, w_silences w, w_published w, w_tasks w)"
definition but_silences where
  "but_silences w = (w_devices w, w_certs w, w_metrics w, w_thresholds w, w_alerts w, w_published w, w_tasks w)"
definition but_devices where
  "but_devices w = (w_metrics w, w_thresholds w, w_alerts w, w_silences w, w_published w, w_tasks w)"
definition but_alerts where
  "but_alerts w = (w_devices w, w_certs w, w_metrics w, w_thresholds w, w_silences w, w_tasks w)"

lemmas but_defs = but_metrics_def but_thresholds_def but_silences_def but_devices_def but_alerts_def

lemma alert_device_ids_mono: "w_devices w' = w_devices w \<Longrightarrow> alert_device_ids w \<subseteq> alert_device_ids w'"
  by (simp add: alert_device_ids_def)

lemma db_inv_metrics: "but_metrics w' = but_metrics w \<Longrightarrow> metrics_inv w' \<Longrightarrow> db_inv w \<Longrightarrow> db_inv w'"
  using alert_device_ids_mono [of w' w] inv_congs [of w' w] by (simp add: db_inv_def but_defs)

lemma db_inv_thresholds: "but_thresholds w' = but_thresholds w \<Longrightarrow> thresholds_inv w' \<Longrightarrow> db_inv w \<Longrightarrow> db_inv w'"
  using alert_device_ids_mono [of w' w] inv_congs [of w' w] by (simp add: db_inv_def but_defs)

lemma db_inv_silences: "but_silences w' = but_silences w \<Longrightarrow> silences_inv w' \<Longrightarrow> db_inv w \<Longrightarrow> db_inv w'"
  using alert_device_ids_mono [of w' w] inv_congs [of w' w] by (simp add: db_inv_def but_defs)

lemma db_inv_devices:
  "but_devices w' = but_devices w \<Longrightarrow> alert_device_ids w \<subseteq> alert_device_ids w' \<Longrightarrow> devices_inv w' \<Longrightarrow>
   db_inv w \<Longrightarrow> db_inv w'"
  using inv_congs [of w' w] by (simp add: db_inv_def but_defs)

lemma db_inv_alerts:
  "but_alerts w' = but_alerts w \<Longrightarrow> alerts_inv w' \<Longrightarrow> published_inv w' \<Longrightarrow> db_inv w \<Longrightarrow> db_inv w'"
  using alert_device_ids_mono [of w' w] inv_congs [of w' w] by (simp add: db_inv_def but_defs)

lemma db_inv_same: "tables_same w' w \<Longrightarrow> db_inv w \<Longrightarrow> db_inv w'"
  using alert_device_ids_mono [of w' w] inv_congs [of w' w] tables_sameD [of w' w] by (simp add: db_inv_def)

section \<open>What the handlers leave alone\<close>

lemma same_data_tables: "same_data w' w \<Longrightarrow> tables_same w' w"
  by (rule tables_same_same_data)

lemma time_now_same: "time_now E w = (t, w') \<Longrightarrow> tables_same w' w"
  by (auto simp: time_now_def tables_same_def)

lemma CreateThreshold_but: "CreateThreshold E req w = (r, w') \<Longrightarrow> but_thresholds w' = but_thresholds w"
  by (auto simp: CreateThreshold_def CreateThreshold_db_def sql_insert_threshold_def ext_fault_def time_now_def
      Let_def but_defs split: option.splits prod.splits if_splits)

lemma UpdateThreshold_but: "UpdateThreshold E req w = (r, w') \<Longrightarrow> but_thresholds w' = but_thresholds w"
  by (auto simp: UpdateThreshold_def UpdateThreshold_db_def sql_update_threshold_def ext_fault_def time_now_def
      Let_def but_defs split: option.splits prod.splits sum.splits if_splits)

lemma DeleteThreshold_but: "DeleteThreshold E tid w = (r, w') \<Longrightarrow> but_thresholds w' = but_thresholds w"
  by (auto simp: DeleteThreshold_def DeleteThreshold_db_def ext_fault_def but_defs split: option.splits prod.splits if_splits)

lemma SilenceDevice_but:
  "SilenceDevice E d m n reason w = (r, w') \<Longrightarrow> but_silences w' = but_silences w"
  by (auto simp: SilenceDevice_def sql_insert_silence_def ext_fault_def time_now_def Let_def but_defs
      split: option.splits prod.splits if_splits)

lemma cacheSilence_same: "cacheSilence E d w = (r, w') \<Longrightarrow> tables_same w' w"
  by (auto simp: cacheSilence_def split: option.splits intro: tables_same_db_part redis_do_db_part)

lemma but_same:
  assumes "tables_same w' w"
  shows "but_metrics w' = but_metrics w" "but_thresholds w' = but_thresholds w" "but_silences w' = but_silences w"
    "but_devices w' = but_devices w" "but_alerts w' = but_alerts w"
  using tables_sameD [OF assms] by (simp_all add: but_defs)

lemma silences_inv_tables_same: "tables_same w' w \<Longrightarrow> silences_inv w \<Longrightarrow> silences_inv w'"
  using tables_sameD [of w' w] by (simp add: silences_inv_def alert_device_ids_def)

lemma SilenceAlert_effect:
  assumes "SilenceAlert E req w = (r, w')" "silences_inv w"
  shows "but_silences w' = but_silences w \<and> silences_inv w'"
proof (cases "w' = w")
  case False
  with assms(1) obtain res w1 where s: "SilenceDevice E (sar_DeviceId req) (sar_MetricName req)
      (sint (sar_DurationSeconds req)) (sar_Reason req) w = (res, w1)"
    "w' = w1 \<or> (\<exists>c w2 t. cacheSilence E (sar_DeviceId req) w1 = (c, w2) \<and> time_now E w2 = (t, w'))"
    by (auto simp: SilenceAlert_def split: if_splits prod.splits option.splits)
  from s(2) have "tables_same w' w1"
    by (auto intro: tables_same_trans [OF time_now_same cacheSilence_same])
  with SilenceDevice_but [OF s(1)] SilenceDevice_inv [OF s(1) assms(2)] show ?thesis
    using but_same(3) silences_inv_tables_same by metis
qed (use assms(2) in simp)

lemma ClearSilence_effect:
  assumes "ClearSilence E d w = (r, w')" "silences_inv w"
  shows "but_silences w' = but_silences w \<and> silences_inv w'"
proof (cases "w' = w")
  case False
  with assms(1) obtain res where c: "ClearSilences E d w = (res, w')"
    by (auto simp: ClearSilence_def split: if_splits prod.splits option.splits)
  from ClearSilences_inv [OF c assms(2)] c show ?thesis
    by (auto simp: ClearSilences_def ext_fault_def but_defs split: option.splits if_splits)
qed (use assms(2) in simp)

lemma CreateDevice_effect:
  assumes "CreateDevice E P sv req w = (r, ts, w')" "devices_inv w"
  shows "but_devices w' = but_devices w \<and> alert_device_ids w \<subseteq> alert_device_ids w' \<and> devices_inv w'"
proof -
  note inv = CreateDevice_inv [OF assms]
  show ?thesis
  proof (cases r)
    case (Inl e)
    from same_dataD [OF CreateDevice_err(1) [OF assms(1) [unfolded Inl]]] inv show ?thesis
      by (simp add: but_defs alert_device_ids_def)
  next
    case (Inr resp)
    from assms(1) obtain d c w1 w2 w3 n where
      db: "CreateDevice_db E d c (w3\<lparr>w_tick := n\<rparr>) = (None, w')" and
      chain: "same_data w1 w" "same_data w2 w1" "same_data w3 w2"
      by (auto simp: CreateDevice_def Inr Let_def time_now_def split: if_splits sum.splits prod.splits bool.splits
          option.splits dest!: DeviceExists_same_data Generate_same_data Sign_same_data)
    have "same_data (w3\<lparr>w_tick := n\<rparr>) w"
      using same_data_trans [OF same_data_tick(1) same_data_trans [OF chain(3) same_data_trans [OF chain(2,1)]]] .
    note db = db this
    from CreateDevice_db_ok(1) [OF db(1)] same_dataD [OF db(2)] inv show ?thesis
      by (auto simp: but_defs alert_device_ids_def)
  qed
qed

text \<open>The handlers that only read.\<close>

lemma send_all_same: "send_all E sent ms w = (r, w') \<Longrightarrow> tables_same w' w"
proof (induction ms arbitrary: sent w)
  case (Cons m ms)
  obtain f w1 where f: "ext_fault E w = (f, w1)" by fastforce
  from Cons f ext_fault_same [OF f] show ?case by (cases f) (auto intro: tables_same_trans)
qed simp

lemma query_range_tables: "query_range E a b w = (r, w') \<Longrightarrow> tables_same w' w"
  by (rule same_data_tables [OF query_range_same])

lemma QueryMetrics_handler_same:
  assumes "QueryMetrics_handler E req w = (r, w')"
  shows "tables_same w' w"
  using assms
  by (auto simp: QueryMetrics_handler_def Let_def split: option.splits prod.splits sum.splits
      dest!: query_range_tables QueryMetrics_same_data QueryMetricsCount_same_data send_all_same
        same_data_tables
      intro: tables_same_trans)

lemma GetAggregations_same:
  assumes "GetAggregations E req w = (r, w')"
  shows "tables_same w' w"
  using assms
  by (auto simp: GetAggregations_def Let_def split: option.splits prod.splits sum.splits
      dest!: GetQueryResult_db_part CacheQueryResult_db_part QueryAggregated_same_data time_now_same
        tables_same_db_part same_data_tables
      intro: tables_same_trans)
    (meson tables_same_trans)

lemma GetMetricStats_handler_same: "GetMetricStats_handler E req w = (r, w') \<Longrightarrow> tables_same w' w"
  by (auto simp: GetMetricStats_handler_def Let_def split: option.splits prod.splits sum.splits
      dest!: GetMetricStats_same_data time_now_same same_data_tables intro: tables_same_trans)

lemma alert_reads_same:
  "GetThresholds E treq w = (rt, w') \<Longrightarrow> tables_same w' w"
  "GetActiveAlerts E areq w = (ra, w') \<Longrightarrow> tables_same w' w"
  "QueryAlertHistory E hreq w = (rh, w') \<Longrightarrow> tables_same w' w"
  "GetSilenceState E d w = (rs, w') \<Longrightarrow> tables_same w' w"
  "GetAlertStats E sreq w = (rst, w') \<Longrightarrow> tables_same w' w"
  "IsDeviceSilent E d w = (rd, w') \<Longrightarrow> tables_same w' w"
proof -
  show "GetThresholds E treq w = (rt, w') \<Longrightarrow> tables_same w' w"
    by (auto simp: GetThresholds_def split: if_splits prod.splits sum.splits
        dest!: GetThresholds_db_same_data same_data_tables)
  show "GetActiveAlerts E areq w = (ra, w') \<Longrightarrow> tables_same w' w"
    by (auto simp: GetActiveAlerts_def Let_def split: if_splits prod.splits sum.splits
        dest!: GetActiveAlerts_db_same_data same_data_tables)
  show "QueryAlertHistory E hreq w = (rh, w') \<Longrightarrow> tables_same w' w"
    by (auto simp: QueryAlertHistory_def Let_def split: if_splits prod.splits sum.splits option.splits
        dest!: QueryAlertHistory_db_same_data send_all_same same_data_tables intro: tables_same_trans)
  show "GetSilenceState E d w = (rs, w') \<Longrightarrow> tables_same w' w"
    by (auto simp: GetSilenceState_def split: if_splits prod.splits sum.splits
        dest!: GetActiveSilences_same_data same_data_tables)
  show "GetAlertStats E sreq w = (rst, w') \<Longrightarrow> tables_same w' w"
    by (auto simp: GetAlertStats_def Let_def split: if_splits prod.splits sum.splits
        dest!: GetAlertStats_db_same_data same_data_tables)
  show "IsDeviceSilent E d w = (rd, w') \<Longrightarrow> tables_same w' w"
    by (auto simp: IsDeviceSilent_def Let_def time_now_def split: option.splits prod.splits sum.splits if_splits
        dest!: redis_do_db_part tables_same_db_part) (auto simp: tables_same_def)
qed

lemma device_reads_same:
  "ListDevices E lreq w = (rl, w') \<Longrightarrow> tables_same w' w"
  "UpdateDeviceStatus E R ureq w = (ru, w') \<Longrightarrow> tables_same w' w"
  "tables_same (run_device_task E R t w) w"
proof -
  show "ListDevices E lreq w = (rl, w') \<Longrightarrow> tables_same w' w"
    by (auto simp: ListDevices_def Let_def split: prod.splits sum.splits
        dest!: ListDevices_db_same_data same_data_tables)
  show "UpdateDeviceStatus E R ureq w = (ru, w') \<Longrightarrow> tables_same w' w"
    using UpdateDeviceStatus_never [of E R ureq w] same_data_tables by auto
  show "tables_same (run_device_task E R t w) w"
  proof (cases t)
    case (CacheDevice d)
    obtain r w1 where "DeviceCache_Set E R d w = (r, w1)" by fastforce
    with CacheDevice tables_same_db_part [OF DeviceCache_db_part(1)] show ?thesis
      by (simp add: run_device_task_def cacheDevice_def)
  next
    case (RefreshDevice i)
    obtain r w1 where g: "GetDevice_db E i w = (r, w1)" by fastforce
    note w1 = same_data_tables [OF GetDevice_db_same_data [OF g]]
    show ?thesis
    proof (cases r)
      case (Inr d)
      obtain c w2 where c: "DeviceCache_Set E R d w1 = (c, w2)" by fastforce
      then have "tables_same w2 w1" by (rule tables_same_db_part [OF DeviceCache_db_part(1)])
      with w1 Inr g c RefreshDevice show ?thesis
        by (auto simp: run_device_task_def refreshDeviceInCache_def cacheDevice_def intro: tables_same_trans)
    qed (use w1 g RefreshDevice in \<open>simp add: run_device_task_def refreshDeviceInCache_def\<close>)
  qed
qed

section \<open>Submissions and evaluations\<close>

lemma but_metrics_frames:
  "same_data (w'\<lparr>w_metrics := w_metrics w\<rparr>) w \<Longrightarrow> but_metrics w' = but_metrics w"
  "tables_same (w'\<lparr>w_tasks := ts\<rparr>) w \<Longrightarrow> but_metrics w' = but_metrics w"
  using same_dataD [of "w'\<lparr>w_metrics := w_metrics w\<rparr>" w] tables_sameD [of "w'\<lparr>w_tasks := ts\<rparr>" w]
  by (simp_all add: but_defs)

text \<open>The write of a job, by the worker of the queue.\<close>

lemma InsertMetric_but: "InsertMetric E p w = (r, w') \<Longrightarrow> but_metrics w' = but_metrics w"
  by (cases r) (auto dest: InsertMetric_err_same [THEN same_data_tables, THEN but_same(1)]
      InsertMetric_frame(1) [THEN but_metrics_frames(1)])

lemma InsertMetricBatch_but: "InsertMetricBatch E ps w = (r, w') \<Longrightarrow> but_metrics w' = but_metrics w"
  by (cases r) (auto dest: InsertMetricBatch_err [THEN same_data_tables, THEN but_same(1)]
      InsertMetricBatch_ok(3) [THEN but_metrics_frames(1)])

lemma write_points_effect:
  assumes "write_points E ps w = (r, w')"
  shows "but_metrics w' = but_metrics w" "metrics_inv w \<Longrightarrow> metrics_inv w'"
  using assms InsertMetric_but InsertMetricBatch_but InsertMetric_inv InsertMetricBatch_inv
  by (auto simp: write_points_def split: if_splits)

text \<open>Alerts are only added; a publication keeps its alert.\<close>

definition alerts_grow :: "'r world \<Rightarrow> 'r world \<Rightarrow> bool" where
  "alerts_grow w w' \<longleftrightarrow>
     but_alerts w' = but_alerts w \<and> w_published w' = w_published w \<and>
     set (map fst (w_alerts w)) \<subseteq> set (map fst (w_alerts w'))"

lemma alerts_grow_trans: "alerts_grow w w1 \<Longrightarrow> alerts_grow w1 w2 \<Longrightarrow> alerts_grow w w2"
  by (auto simp: alerts_grow_def)

lemma alerts_grow_same: "tables_same w' w \<Longrightarrow> alerts_grow w w'"
  using but_same(5) [of w' w] tables_sameD [of w' w] by (simp add: alerts_grow_def)

lemma alerts_grow_insert: "InsertAlert E a w = (r, w') \<Longrightarrow> alerts_grow w w'"
  using InsertAlert_effect [of E a w r w'] by (auto simp: alerts_grow_def but_alerts_def other_than_alerts_def)

lemma alerts_grow_published:
  assumes "alerts_grow w w'" "published_inv w"
  shows "published_inv w'"
  unfolding published_inv_def
proof (intro allI impI)
  fix topic msg assume "(topic, AlertPayload msg) \<in> set (w_published w')"
  then have "(topic, AlertPayload msg) \<in> set (w_published w)" using assms(1) by (simp add: alerts_grow_def)
  from assms(2) [unfolded published_inv_def, rule_format, OF this] obtain a where
    a: "a \<in> fst ` set (w_alerts w)" "topic = ''alerts/'' @ al_DeviceID a" "msg = alert_message a" "\<not> al_IsSilenced a"
    by (elim bexE conjE) (rule that)
  have "a \<in> fst ` set (w_alerts w')" using a(1) assms(1) by (auto simp: alerts_grow_def)
  with a(2-4) show "\<exists>a \<in> fst ` set (w_alerts w'). topic = ''alerts/'' @ al_DeviceID a \<and> msg = alert_message a \<and>
      \<not> al_IsSilenced a" by (intro bexI [of _ a] conjI)
qed

lemma isSilencedInRedis_same: "isSilencedInRedis E d w = (b, w') \<Longrightarrow> tables_same w' w"
  by (auto simp: isSilencedInRedis_def split: option.splits prod.splits sum.splits
      dest!: redis_do_db_part tables_same_db_part)

lemma evaluate_all_grow: "evaluate_all E d m v ts w = (r, w') \<Longrightarrow> alerts_grow w w'"
proof (induction ts arbitrary: w)
  case Nil
  then show ?case by (simp add: alerts_grow_def)
next
  case (Cons t ts)
  show ?case
  proof (cases "service_check m v t")
    case None
    with Cons show ?thesis by simp
  next
    case (Some msg)
    obtain s w1 where s: "GetActiveSilences E d w = (s, w1)" by fastforce
    obtain b w2 where b: "isSilencedInRedis E d w1 = (b, w2)" by fastforce
    from Cons.prems Some s b obtain a r1 w5 where
      ins: "InsertAlert E a (w2\<lparr>w_tick := Suc (Suc (w_tick w2))\<rparr>) = (r1, w5)" and
      rest: "(r1 \<noteq> None \<and> w' = w5) \<or> evaluate_all E d m v ts w5 = (r, w')"
      by (auto simp: Let_def time_now_def split: prod.splits option.splits)
    have "tables_same (w2\<lparr>w_tick := Suc (Suc (w_tick w2))\<rparr>) w"
      using same_data_tables [OF GetActiveSilences_same_data [OF s]] isSilencedInRedis_same [OF b]
      by (auto intro: tables_same_trans same_data_tables same_data_tick)
    from alerts_grow_trans [OF alerts_grow_same [OF this] alerts_grow_insert [OF ins]] rest Cons.IH
    show ?thesis by (auto intro: alerts_grow_trans)
  qed
qed

lemma EvaluateMetric_grow:
  assumes "EvaluateMetric E d m v w = (r, w')"
  shows "alerts_grow w w'"
proof -
  obtain t w1 where t: "GetThresholds_db E d m True w = (t, w1)" by fastforce
  have "alerts_grow w w1" by (rule alerts_grow_same [OF same_data_tables [OF GetThresholds_db_same_data [OF t]]])
  with assms t show ?thesis
    by (auto simp: EvaluateMetric_def split: sum.splits intro: alerts_grow_trans evaluate_all_grow)
qed

text \<open>The evaluation of the telemetry service keeps the invariant of the alerts.\<close>

lemma alerts_inv_db_part: "db_part w' = db_part w \<Longrightarrow> alerts_inv w \<Longrightarrow> alerts_inv w'"
  using db_partD [of w' w] by (simp add: alerts_inv_def alert_device_ids_def)

lemma alerts_inv_tick: "alerts_inv (w\<lparr>w_tick := n\<rparr>) = alerts_inv w"
  by (simp add: alerts_inv_def alert_device_ids_def)

lemma publishAlertMQTT_alerts_inv: "alerts_inv (publishAlertMQTT E ev d a w) = alerts_inv w"
  using publishAlertMQTT_effect(1,2) [of E ev d a w]
  by (simp add: alerts_inv_def alert_device_ids_def other_than_alerts_def)

lemma evaluate_threshold_alerts_inv:
  assumes "evaluate_threshold E d m v sil t (ev, w) = (ev', w')" "alerts_inv w"
  shows "alerts_inv w'"
proof (cases rule: evaluate_threshold_cases [where ev = ev and E = E and d = d and m = m and v = v
      and sil = sil and t = t and w = w])
  case quiet
  with assms show ?thesis by simp
next
  case (silenced msg)
  let ?a = "new_alert E d m v sil t msg (w_tick w)" and ?w2 = "w\<lparr>w_tick := w_tick w + 2\<rparr>"
  obtain r where "InsertAlert E ?a ?w2 = (r, w')" using silenced(3) assms(1) by (cases "InsertAlert E ?a ?w2") auto
  from InsertAlert_inv [OF this] assms(2) show ?thesis by (simp add: alerts_inv_tick)
next
  case (suppressed msg w3)
  from alerts_inv_db_part [OF redisAlertSuppressed_db_part [OF suppressed(3)]] assms suppressed(4)
  show ?thesis by (simp add: alerts_inv_tick)
next
  case (failed msg w3 e w4)
  from alerts_inv_db_part [OF redisAlertSuppressed_db_part [OF failed(3)]] InsertAlert_inv [OF failed(4)] assms failed(5)
  show ?thesis by (simp add: alerts_inv_tick)
next
  case (fired msg w3 w4 w5)
  from alerts_inv_db_part [OF redisAlertSuppressed_db_part [OF fired(3)]] InsertAlert_inv [OF fired(4)] assms(2)
  have w5: "alerts_inv w5" unfolding fired(5) by (simp add: alerts_inv_tick publishAlertMQTT_alerts_inv)
  from fired(6) assms(1) have w': "w' = (case e_redis E of None \<Rightarrow> w5
      | Some R \<Rightarrow> snd (redis_do (r_set R (alert_key d) ''1'' alertSilenceRedisTTL) w5))" by simp
  have "db_part w' = db_part w5"
    unfolding w' by (auto split: option.splits) (metis redis_do_db_part prod.collapse)
  from alerts_inv_db_part [OF this w5] show ?thesis .
qed

lemma evaluate_alerts_inv:
  assumes "evaluate E d m v (ev, w) = (ev', w')" "alerts_inv w"
  shows "alerts_inv w'"
proof -
  have loop: "fold (evaluate_threshold E d m v sil) ts (ev, w1) = (ev', w') \<Longrightarrow> alerts_inv w1 \<Longrightarrow> alerts_inv w'"
    for sil ts ev w1
  proof (induction ts arbitrary: ev w1)
    case (Cons t ts)
    obtain ev2 w2 where step: "evaluate_threshold E d m v sil t (ev, w1) = (ev2, w2)" by fastforce
    with Cons.prems have "fold (evaluate_threshold E d m v sil) ts (ev2, w2) = (ev', w')" by simp
    with Cons.IH evaluate_threshold_alerts_inv [OF step Cons.prems(2)] show ?case by blast
  qed simp
  obtain r w1 where th: "GetThresholds_db E d m True w = (r, w1)" by fastforce
  obtain q w2 where q: "GetActiveSilences E d w1 = (q, w2)" by fastforce
  have inv: "alerts_inv w1" "alerts_inv w2"
    using assms(2) alerts_inv_same [OF GetThresholds_db_same_data [OF th]]
      alerts_inv_same [OF GetActiveSilences_same_data [OF q]] by simp_all
  show ?thesis
  proof (cases "\<exists>ts. r = Inr ts \<and> ts \<noteq> []")
    case False
    with assms(1) th have "w' = w1" by (auto simp: evaluate_def split: sum.splits)
    with inv show ?thesis by simp
  next
    case True
    with assms(1) th q obtain ts sil where "fold (evaluate_threshold E d m v sil) ts (ev, w2) = (ev', w')"
      by (auto simp: evaluate_def)
    from loop [OF this inv(2)] show ?thesis .
  qed
qed

section \<open>The system\<close>

text \<open>
  The state of the services as they are deployed: the telemetry service with its write queue, on
  the world all services share, the last values of the evaluator and the cache goroutines of the
  device service. An event is a gRPC call, a message, a step of the write worker or of a handler
  that waits for it, a goroutine that runs, a round of the watchdog, the stop of the worker, or a
  change of the Redis state from outside (a key that expires, another client).
\<close>

record 'r system =
  sy_queue :: "'r queue_state"
  sy_evaluator :: evaluator
  sy_device_tasks :: "device_task list"

abbreviation sy_world :: "'r system \<Rightarrow> 'r world" where
  "sy_world s \<equiv> qs_world (sy_queue s)"

datatype 'r event =
    RpcCreateDevice create_device_request | RpcGetDevice string | RpcListDevices list_devices_request
  | RpcUpdateDeviceStatus update_device_status_request
  | RpcSubmitMetric submit_metric_request | RpcSubmitBatch "submit_metric_request list"
  | CanceledSubmit request | WorkerWrites | WorkerEffects ctx | PostMetricWrite nat | HandlerAnswers nat
  | HandlerExpires nat go_error | StopWorkerEvent | WorkerReturns
  | RpcQueryMetrics query_metrics_request | RpcGetAggregations get_aggregations_request
  | RpcGetMetricStats get_metric_stats_request
  | RpcCreateThreshold create_threshold_request | RpcGetThresholds get_thresholds_request
  | RpcUpdateThreshold update_threshold_request | RpcDeleteThreshold string
  | RpcGetActiveAlerts get_active_alerts_request | RpcQueryAlertHistory query_alert_history_request
  | RpcSilenceAlert silence_alert_request | RpcGetSilenceState string | RpcClearSilence string
  | RpcGetAlertStats get_alert_stats_request
  | CallEvaluateMetric string string float64 | CallIsDeviceSilent string
  | MqttMessage string string | RunEvaluation nat | RunDeviceTask nat | WatchdogRound | RedisChange 'r

record ('r, 'key, 'pub, 'cert) system_conf =
  sc_env :: "'r env"
  sc_redis :: "'r redis_ops"
  sc_pki :: "('key, 'pub, 'cert) pki"
  sc_device_service :: "('key, 'cert) device_service"
  sc_decode :: "string \<Rightarrow> go_error + telemetry_payload"

definition set_world :: "'r system \<Rightarrow> 'a \<times> 'r world \<Rightarrow> 'r system" where
  "set_world s r = s\<lparr>sy_queue := (sy_queue s)\<lparr>qs_world := snd r\<rparr>\<rparr>"

definition add_tasks :: "'r system \<Rightarrow> device_task list \<times> 'r world \<Rightarrow> 'r system" where
  "add_tasks s r = (set_world s r)\<lparr>sy_device_tasks := sy_device_tasks s @ fst r\<rparr>"

text \<open>
  The events of the write queue, as a function: \<open>None\<close> where the part that is to move cannot, or
  does not return.
\<close>

definition submit_queued :: "'r env \<Rightarrow> request \<Rightarrow> 'r queue_state \<Rightarrow> 'r queue_state" where
  "submit_queued E = submit_call E DefaultWriteQueueCapacity"

definition handler_answers :: "nat \<Rightarrow> 'r queue_state \<Rightarrow> 'r queue_state option" where
  "handler_answers i q =
     (if i < length (qs_calls q) \<and> cl_result (qs_calls q ! i) = None
      then map_option (\<lambda>r. q\<lparr>qs_calls := (qs_calls q)[i := finish_call (qs_calls q ! i) r]\<rparr>)
             (cl_done (qs_calls q ! i))
      else None)"

definition handler_expires :: "nat \<Rightarrow> go_error \<Rightarrow> 'r queue_state \<Rightarrow> 'r queue_state option" where
  "handler_expires i e q =
     (if i < length (qs_calls q) \<and> cl_result (qs_calls q ! i) = None
      then Some (q\<lparr>qs_calls := (qs_calls q)[i :=
             (qs_calls q ! i)\<lparr>cl_result := Some (Inl (from_context_error e))\<rparr>]\<rparr>)
      else None)"

definition effects_event :: "'r env \<Rightarrow> ctx \<Rightarrow> 'r queue_state \<Rightarrow> 'r queue_state option" where
  "effects_event E c q = (if c = None \<or> qs_canceled q then worker_effects E True c q else None)"

definition with_queue :: "'r system \<Rightarrow> 'r queue_state \<Rightarrow> 'r system" where
  "with_queue s q = s\<lparr>sy_queue := q\<rparr>"

text \<open>The state after an event, \<open>None\<close> where the handler does not return or there is no such goroutine.\<close>

fun handle_event ::
    "('r, 'key, 'pub, 'cert) system_conf \<Rightarrow> 'r event \<Rightarrow> 'r system \<Rightarrow> 'r system option" where
  "handle_event C (RpcCreateDevice req) s =
     Some (add_tasks s (snd (CreateDevice (sc_env C) (sc_pki C) (sc_device_service C) req (sy_world s))))"
| "handle_event C (RpcGetDevice i) s = Some (add_tasks s (snd (GetDevice (sc_env C) (sc_redis C) i (sy_world s))))"
| "handle_event C (RpcListDevices req) s = Some (set_world s (ListDevices (sc_env C) req (sy_world s)))"
| "handle_event C (RpcUpdateDeviceStatus req) s =
     Some (set_world s (UpdateDeviceStatus (sc_env C) (sc_redis C) req (sy_world s)))"
| "handle_event C (RpcSubmitMetric req) s =
     Some (with_queue s (submit_queued (sc_env C) (MetricReq req) (sy_queue s)))"
| "handle_event C (RpcSubmitBatch reqs) s =
     Some (with_queue s (submit_queued (sc_env C) (BatchReq reqs) (sy_queue s)))"
| "handle_event C (CanceledSubmit req) s = Some (with_queue s (submit_canceled (sc_env C) req (sy_queue s)))"
| "handle_event C WorkerWrites s = map_option (with_queue s) (worker_write (sc_env C) (sy_queue s))"
| "handle_event C (WorkerEffects c) s = map_option (with_queue s) (effects_event (sc_env C) c (sy_queue s))"
| "handle_event C (PostMetricWrite i) s = map_option (with_queue s) (run_post (sc_env C) True i (sy_queue s))"
| "handle_event C (HandlerAnswers i) s = map_option (with_queue s) (handler_answers i (sy_queue s))"
| "handle_event C (HandlerExpires i e) s = map_option (with_queue s) (handler_expires i e (sy_queue s))"
| "handle_event C StopWorkerEvent s = Some (with_queue s (StopWriteWorker (sy_queue s)))"
| "handle_event C WorkerReturns s = map_option (with_queue s) (worker_exit (sy_queue s))"
| "handle_event C (RpcQueryMetrics req) s = Some (set_world s (QueryMetrics_handler (sc_env C) req (sy_world s)))"
| "handle_event C (RpcGetAggregations req) s = Some (set_world s (GetAggregations (sc_env C) req (sy_world s)))"
| "handle_event C (RpcGetMetricStats req) s =
     Some (set_world s (GetMetricStats_handler (sc_env C) req (sy_world s)))"
| "handle_event C (RpcCreateThreshold req) s = Some (set_world s (CreateThreshold (sc_env C) req (sy_world s)))"
| "handle_event C (RpcGetThresholds req) s = Some (set_world s (GetThresholds (sc_env C) req (sy_world s)))"
| "handle_event C (RpcUpdateThreshold req) s = Some (set_world s (UpdateThreshold (sc_env C) req (sy_world s)))"
| "handle_event C (RpcDeleteThreshold i) s = Some (set_world s (DeleteThreshold (sc_env C) i (sy_world s)))"
| "handle_event C (RpcGetActiveAlerts req) s = Some (set_world s (GetActiveAlerts (sc_env C) req (sy_world s)))"
| "handle_event C (RpcQueryAlertHistory req) s =
     Some (set_world s (QueryAlertHistory (sc_env C) req (sy_world s)))"
| "handle_event C (RpcSilenceAlert req) s = Some (set_world s (SilenceAlert (sc_env C) req (sy_world s)))"
| "handle_event C (RpcGetSilenceState i) s = Some (set_world s (GetSilenceState (sc_env C) i (sy_world s)))"
| "handle_event C (RpcClearSilence i) s = Some (set_world s (ClearSilence (sc_env C) i (sy_world s)))"
| "handle_event C (RpcGetAlertStats req) s = Some (set_world s (GetAlertStats (sc_env C) req (sy_world s)))"
| "handle_event C (CallEvaluateMetric d m v) s =
     Some (set_world s (EvaluateMetric (sc_env C) d m v (sy_world s)))"
| "handle_event C (CallIsDeviceSilent d) s = Some (set_world s (IsDeviceSilent (sc_env C) d (sy_world s)))"
| "handle_event C (MqttMessage topic raw) s =
     map_option (with_queue s)
       (handleMessage (sc_decode C)
         (\<lambda>req q. Some (length (qs_calls q), submit_queued (sc_env C) (MetricReq req) q)) topic raw (sy_queue s))"
| "handle_event C (RunEvaluation i) s =
     map_option (\<lambda>(ev, w). (set_world s (ev, w))\<lparr>sy_evaluator := ev\<rparr>)
       (run_evaluation (sc_env C) i (sy_evaluator s, sy_world s))"
| "handle_event C (RunDeviceTask i) s =
     (if i < length (sy_device_tasks s)
      then Some ((set_world s (i, run_device_task (sc_env C) (sc_redis C) (sy_device_tasks s ! i) (sy_world s)))
             \<lparr>sy_device_tasks := take i (sy_device_tasks s) @ drop (Suc i) (sy_device_tasks s)\<rparr>)
      else None)"
| "handle_event C WatchdogRound s =
     map_option (add_tasks s)
       (runSilentScan (sc_env C) (sc_redis C) (ev_mqttPub (sy_evaluator s)) (sy_world s))"
| "handle_event C (RedisChange r) s = Some (set_world s (r, (sy_world s)\<lparr>w_redis := r\<rparr>))"

text \<open>A run of events; one that gives \<open>None\<close> ends it.\<close>

fun run_events ::
    "('r, 'key, 'pub, 'cert) system_conf \<Rightarrow> 'r event list \<Rightarrow> 'r system \<Rightarrow> 'r system option" where
  "run_events C [] s = Some s"
| "run_events C (e # es) s =
     (case handle_event C e s of None \<Rightarrow> None | Some s' \<Rightarrow> run_events C es s')"

section \<open>Every event keeps the invariant\<close>

lemma set_world_simps [simp]:
  "sy_queue (set_world s r) = (sy_queue s)\<lparr>qs_world := snd r\<rparr>"
  "sy_queue (add_tasks s q) = (sy_queue s)\<lparr>qs_world := snd q\<rparr>" "sy_queue (with_queue s q') = q'"
  by (simp_all add: set_world_def add_tasks_def with_queue_def)

text \<open>The parts of the invariant, for the lemmas on one table.\<close>

lemma db_invD:
  assumes "db_inv w"
  shows "metrics_inv w" "devices_inv w" "thresholds_inv w" "alerts_inv w" "silences_inv w" "published_inv w"
  using assms by (simp_all add: db_inv_def)

text \<open>The write queue: every event of it is a step.\<close>

lemma queue_event_step:
  "qstep E True DefaultWriteQueueCapacity q (submit_queued E req q)"
  "effects_event E c q = Some q' \<Longrightarrow> qstep E True DefaultWriteQueueCapacity q q'"
  "handler_answers i q = Some q' \<Longrightarrow> qstep E True DefaultWriteQueueCapacity q q'"
  "handler_expires i e q = Some q' \<Longrightarrow> qstep E True DefaultWriteQueueCapacity q q'"
  by (auto simp: submit_queued_def effects_event_def handler_answers_def handler_expires_def
      intro: qstep.intros split: if_splits)

lemma qstep_but_metrics:
  assumes "qstep E ev cap q q'" "metrics_inv (qs_world q)"
  shows "but_metrics (qs_world q') = but_metrics (qs_world q) \<and> metrics_inv (qs_world q')"
proof -
  have same: "but_metrics w' = but_metrics (qs_world q) \<and> metrics_inv w'" if "tables_same w' (qs_world q)" for w'
    using but_same(1) [OF that] metrics_inv_cong [OF tables_sameD(1,2) [OF that]] assms(2) by simp
  have tasks: "but_metrics w' = but_metrics (qs_world q) \<and> metrics_inv w'"
    if "tables_same (w'\<lparr>w_tasks := ts\<rparr>) (qs_world q)" for w' ts
    using but_metrics_frames(2) [OF that] metrics_inv_cong [OF tables_same_tasksD(1,2) [OF that]] assms(2) by simp
  show ?thesis
    using assms(1)
  proof (cases rule: qstep.cases)
    case (submit req)
    obtain r w1 where p: "handler_prefix E req (qs_world q) = (r, w1)" by fastforce
    with submit same [OF handler_prefix_same [OF p]] show ?thesis
      by (auto simp: submit_call_def split: sum.splits prod.splits list.splits)
  next
    case (canceled req)
    obtain r w1 where p: "handler_prefix E req (qs_world q) = (r, w1)" by fastforce
    with canceled same [OF handler_prefix_same [OF p]] show ?thesis
      by (auto simp: submit_canceled_def split: sum.splits prod.splits)
  next
    case work
    then obtain ps err w1 where w: "write_points E ps (qs_world q) = (err, w1)" "qs_world q' = w1"
      by (auto simp: worker_write_def Let_def split: worker.splits list.splits prod.splits)
    with write_points_effect [OF w(1)] assms(2) show ?thesis by simp
  next
    case (effects c)
    then obtain ps w1 where w: "batch_effects E ev ps [] c (qs_world q) = Some w1" "qs_world q' = w1"
      by (auto simp: worker_effects_def split: worker.splits)
    with tasks [OF conjunct1 [OF batch_effects_effect [OF w(1)]]] show ?thesis by simp
  next
    case (post i)
    then obtain p w1 where w: "postMetricWrite E ev p (qs_world q) = Some w1" "qs_world q' = w1"
      by (auto simp: run_post_def split: if_splits)
    with tasks [OF postMetricWrite_effect(1) [OF w(1)]] show ?thesis by simp
  qed (use assms(2) in \<open>auto dest: worker_exit_Some\<close>)
qed

lemma db_inv_qstep: "qstep E ev cap q q' \<Longrightarrow> db_inv (qs_world q) \<Longrightarrow> db_inv (qs_world q')"
  using qstep_but_metrics [of E ev cap q q'] db_inv_metrics [of "qs_world q'" "qs_world q"] by (simp add: db_invD(1))

text \<open>
  Every other event: the invariant is kept, the metric table left alone, and no evaluation started.
\<close>

definition keeps :: "'r world \<Rightarrow> 'r world \<Rightarrow> bool" where
  "keeps w w' \<longleftrightarrow> (db_inv w \<longrightarrow> db_inv w') \<and> w_metrics w' = w_metrics w \<and> set (w_tasks w') \<subseteq> set (w_tasks w)"

lemma keeps_same: "tables_same w' w \<Longrightarrow> keeps w w'"
  using db_inv_same [of w' w] tables_sameD(1,8) [of w' w] by (simp add: keeps_def)

lemma keeps_CreateDevice:
  assumes "CreateDevice E P sv req w = (r, ts, w')" "db_inv w"
  shows "keeps w w'"
  using CreateDevice_effect [OF assms(1) db_invD(2) [OF assms(2)]] db_inv_devices [of w' w] assms(2)
  by (simp add: keeps_def but_devices_def)

lemma keeps_thresholds: "but_thresholds w' = but_thresholds w \<Longrightarrow> (thresholds_inv w \<Longrightarrow> thresholds_inv w') \<Longrightarrow> keeps w w'"
  using db_inv_thresholds [of w' w] db_invD(3) [of w] by (auto simp: keeps_def but_thresholds_def)

lemma keeps_silences: "but_silences w' = but_silences w \<Longrightarrow> (silences_inv w \<Longrightarrow> silences_inv w') \<Longrightarrow> keeps w w'"
  using db_inv_silences [of w' w] db_invD(5) [of w] by (auto simp: keeps_def but_silences_def)

lemma keeps_threshold_writes:
  "CreateThreshold E creq w = (rc, w') \<Longrightarrow> keeps w w'"
  "UpdateThreshold E ureq w = (ru, w') \<Longrightarrow> keeps w w'"
  "DeleteThreshold E tid w = (rd, w') \<Longrightarrow> keeps w w'"
  using CreateThreshold_but [of E creq w rc w'] CreateThreshold_inv [of E creq w rc w']
    UpdateThreshold_but [of E ureq w ru w'] UpdateThreshold_inv [of E ureq w ru w']
    DeleteThreshold_but [of E tid w rd w'] DeleteThreshold_inv [of E tid w rd w'] keeps_thresholds [of w' w]
  by blast+

lemma keeps_silence_writes:
  "SilenceAlert E req w = (rs, w') \<Longrightarrow> db_inv w \<Longrightarrow> keeps w w'"
  "ClearSilence E d w = (rc, w') \<Longrightarrow> db_inv w \<Longrightarrow> keeps w w'"
  using SilenceAlert_effect [of E req w rs w'] ClearSilence_effect [of E d w rc w'] keeps_silences [of w' w]
    db_invD(5) [of w] by blast+

lemma keeps_EvaluateMetric: "EvaluateMetric E d m v w = (r, w') \<Longrightarrow> keeps w w'"
  using EvaluateMetric_grow [of E d m v w r w'] EvaluateMetric_inv [of E d m v w r w'] alerts_grow_published [of w w']
    db_inv_alerts [of w' w] by (auto simp: keeps_def db_inv_def alerts_grow_def but_alerts_def)

lemma db_inv_tasks: "db_inv (w\<lparr>w_tasks := ts\<rparr>) = db_inv w"
  by (simp add: db_inv_def metrics_inv_def devices_inv_def thresholds_inv_def alerts_inv_def silences_inv_def
      published_inv_def device_ids_def alert_device_ids_def)

lemma keeps_evaluation:
  assumes "run_evaluation E i (ev, w) = Some (ev', w')" "db_inv w"
  shows "keeps w w'"
proof -
  from assms(1) obtain d m v ts where r: "evaluate E d m v (ev, w\<lparr>w_tasks := ts\<rparr>) = (ev', w')"
    and ts: "set ts \<subseteq> set (w_tasks w)"
  proof -
    have "set (take i xs @ drop (Suc i) xs) \<subseteq> set xs" for xs :: "(string \<times> string \<times> float64) list"
      by (auto dest: in_set_takeD in_set_dropD)
    with assms(1) that show thesis by (auto simp: run_evaluation_def split: if_splits prod.splits)
  qed
  have inv: "db_inv (w\<lparr>w_tasks := ts\<rparr>)" using assms(2) by (simp add: db_inv_tasks)
  from evaluate_contract [OF r] obtain sil where
    eff: "evaluation_effect d m v sil (thresholds_for d m (w\<lparr>w_tasks := ts\<rparr>)) (w\<lparr>w_tasks := ts\<rparr>) w'" by metis
  then have but: "but_alerts w' = but_alerts (w\<lparr>w_tasks := ts\<rparr>)"
    by (auto simp: evaluation_effect_def other_than_alerts_def but_alerts_def)
  with evaluate_alerts_inv [OF r] evaluation_effect_published [OF eff] inv have "db_inv w'"
    by (intro db_inv_alerts [of w' "w\<lparr>w_tasks := ts\<rparr>"]) (auto simp: db_inv_def)
  with but ts show ?thesis by (simp add: keeps_def but_alerts_def)
qed

text \<open>
  Every event is a step of the write queue or leaves all of it but the world, in which it keeps the
  invariant and the metric table.
\<close>

lemma handle_event_parts:
  assumes "handle_event C e s = Some s'" "db_inv (sy_world s)"
  shows "qstep (sc_env C) True DefaultWriteQueueCapacity (sy_queue s) (sy_queue s') \<or> sy_queue s' = sy_queue s \<or>
    (\<exists>w'. sy_queue s' = (sy_queue s)\<lparr>qs_world := w'\<rparr> \<and> keeps (sy_world s) w')"
proof -
  let ?w = "sy_world s" and ?E = "sc_env C" and ?R = "sc_redis C"
  have reads: "tables_same (snd (QueryMetrics_handler ?E qr ?w)) ?w" "tables_same (snd (GetAggregations ?E ar ?w)) ?w"
    "tables_same (snd (GetMetricStats_handler ?E sr ?w)) ?w" "tables_same (snd (GetThresholds ?E tr ?w)) ?w"
    "tables_same (snd (GetActiveAlerts ?E aar ?w)) ?w" "tables_same (snd (QueryAlertHistory ?E hr ?w)) ?w"
    "tables_same (snd (GetSilenceState ?E i ?w)) ?w" "tables_same (snd (GetAlertStats ?E asr ?w)) ?w"
    "tables_same (snd (IsDeviceSilent ?E i ?w)) ?w" "tables_same (snd (ListDevices ?E lr ?w)) ?w"
    "tables_same (snd (UpdateDeviceStatus ?E ?R ur ?w)) ?w" "tables_same (snd (snd (GetDevice ?E ?R i ?w))) ?w"
    for qr ar sr tr aar hr i asr lr ur
    using QueryMetrics_handler_same GetAggregations_same GetMetricStats_handler_same alert_reads_same
      device_reads_same GetDevice_same by (metis prod.collapse)+
  have redis: "tables_same (?w\<lparr>w_redis := r\<rparr>) ?w" for r by (simp add: tables_same_def)
  have writes: "keeps ?w (snd (CreateThreshold ?E ctr ?w))" "keeps ?w (snd (UpdateThreshold ?E utr ?w))"
    "keeps ?w (snd (DeleteThreshold ?E i ?w))" "keeps ?w (snd (SilenceAlert ?E sar ?w))" "keeps ?w (snd (ClearSilence ?E i ?w))"
    "keeps ?w (snd (EvaluateMetric ?E i m v ?w))"
    "keeps ?w (snd (snd (CreateDevice ?E (sc_pki C) (sc_device_service C) cr ?w)))" for ctr utr i sar m v cr
    using assms(2) keeps_threshold_writes keeps_silence_writes keeps_EvaluateMetric keeps_CreateDevice
    by (metis prod.collapse)+
  note reads = reads [THEN keeps_same] redis [THEN keeps_same]
  note step = queue_event_step qstep.work qstep.post qstep.canceled qstep.stop qstep.exit
  show ?thesis
  proof (cases e)
    case (MqttMessage topic raw)
    then obtain q where "handleMessage (sc_decode C)
         (\<lambda>req q. Some (length (qs_calls q), submit_queued ?E (MetricReq req) q)) topic raw (sy_queue s) = Some q"
      "s' = with_queue s q" using assms(1) by auto
    then show ?thesis by (cases rule: handleMessage_cases) (auto intro: step)
  next
    case (RunEvaluation i)
    with assms show ?thesis by (auto dest!: keeps_evaluation)
  next
    case (RunDeviceTask i)
    let ?w' = "run_device_task ?E ?R (sy_device_tasks s ! i) ?w"
    from RunDeviceTask assms(1) have "sy_queue s' = (sy_queue s)\<lparr>qs_world := ?w'\<rparr>" by (auto split: if_splits)
    moreover have "keeps ?w ?w'" by (rule keeps_same [OF device_reads_same(3)])
    ultimately show ?thesis by blast
  next
    case WatchdogRound
    with assms(1) runSilentScan_same keeps_same show ?thesis by fastforce
  qed (use assms(1) in \<open>auto simp: writes reads intro: step\<close>)
qed

section \<open>Evaluations come after the write\<close>

text \<open>
  Whatever was started for a sample, its evaluation or the effects of its write, was started after a
  row of its device and metric was stored.
\<close>

definition stored_first :: "'r queue_state \<Rightarrow> bool" where
  "stored_first q \<longleftrightarrow>
     (\<forall>(d, m, v) \<in> set (w_tasks (qs_world q)). \<exists>ts. (ts, d, m) \<in> metric_keys (qs_world q)) \<and>
     stored_points q (qs_post q) \<and> (\<forall>ps. qs_worker q = Effects ps \<longrightarrow> stored_points q ps)"

lemma stored_first_later:
  assumes "stored_first q" "metric_keys (qs_world q) \<subseteq> metric_keys (qs_world q')" "stored_points q' ps"
    "set (w_tasks (qs_world q')) \<subseteq> set (w_tasks (qs_world q)) \<union>
       (\<lambda>p. (mp_DeviceID p, mp_MetricName p, mp_Value p)) ` set ps"
    "stored_points q' (qs_post q')" "\<And>ps. qs_worker q' = Effects ps \<Longrightarrow> stored_points q' ps"
  shows "stored_first q'"
proof -
  have "\<exists>ts. (ts, d, m) \<in> metric_keys (qs_world q')" if "(d, m, v) \<in> set (w_tasks (qs_world q'))" for d m v
  proof -
    from that assms(4) consider "(d, m, v) \<in> set (w_tasks (qs_world q))"
      | p where "p \<in> set ps" "d = mp_DeviceID p" "m = mp_MetricName p" by auto
    then show ?thesis
    proof cases
      case 1
      with assms(1,2) show ?thesis by (fastforce simp: stored_first_def)
    next
      case (2 p)
      with assms(3) have "metric_key (row_of_point p) \<in> metric_keys (qs_world q')" by (auto simp: stored_points_def)
      with 2 show ?thesis by (auto simp: metric_key_def row_of_point_def)
    qed
  qed
  with assms(5,6) show ?thesis by (auto simp: stored_first_def)
qed

text \<open>Steps that start nothing new.\<close>

lemma stored_first_same:
  assumes "stored_first q" "metric_keys (qs_world q) \<subseteq> metric_keys (qs_world q')"
    "set (w_tasks (qs_world q')) \<subseteq> set (w_tasks (qs_world q))" "qs_post q' = qs_post q"
    "qs_worker q' = qs_worker q \<or> qs_worker q' = Stopped"
  shows "stored_first q'"
proof (rule stored_first_later [OF assms(1,2), of "[]"])
  have old: "stored_points q' ps" if "stored_points q ps" for ps
    using that assms(2) by (auto simp: stored_points_def)
  show "stored_points q' (qs_post q')" "stored_points q' []"
    using old assms(1,4) by (simp_all add: stored_first_def stored_points_def)
  show "stored_points q' ps" if "qs_worker q' = Effects ps" for ps
    using that old assms(1,5) by (auto simp: stored_first_def)
qed (use assms(3) in simp)

lemma write_points_tasks: "write_points E ps w = (r, w') \<Longrightarrow> w_tasks w' = w_tasks w"
proof -
  assume w: "write_points E ps w = (r, w')"
  show "w_tasks w' = w_tasks w"
  proof (cases "length ps = 1")
    case True
    with w have "InsertMetric E (hd ps) w = (r, w')" by (simp add: write_points_def)
    from same_dataD(8) [OF InsertMetric_frame(1) [OF this]] show ?thesis by simp
  next
    case False
    with w have b: "InsertMetricBatch E ps w = (r, w')" by (simp add: write_points_def)
    show ?thesis
    proof (cases r)
      case None
      from same_dataD(8) [OF InsertMetricBatch_ok(3) [OF b [unfolded None]]] show ?thesis by simp
    next
      case (Some e)
      from same_dataD(8) [OF InsertMetricBatch_err [OF b [unfolded Some]]] show ?thesis .
    qed
  qed
qed

lemma qstep_stored_first:
  assumes "qstep E ev cap q q'" "stored_first q"
  shows "stored_first q'"
proof -
  note keys = qstep_keys [OF assms(1)] and same = stored_first_same [OF assms(2) qstep_keys [OF assms(1)]]
  note later = stored_first_later [OF assms(2) qstep_keys [OF assms(1)]]
  have old: "stored_points q' ps" if "stored_points q ps" for ps
    using that keys by (auto simp: stored_points_def)
  show ?thesis
    using assms(1)
  proof (cases rule: qstep.cases)
    case (submit req)
    obtain r w1 where p: "handler_prefix E req (qs_world q) = (r, w1)" by fastforce
    with submit tables_sameD(8) [OF handler_prefix_same [OF p]] show ?thesis
      by (intro same) (auto simp: submit_call_def split: sum.splits prod.splits list.splits)
  next
    case (canceled req)
    obtain r w1 where p: "handler_prefix E req (qs_world q) = (r, w1)" by fastforce
    with canceled tables_sameD(8) [OF handler_prefix_same [OF p]] show ?thesis
      by (intro same) (auto simp: submit_canceled_def split: sum.splits prod.splits)
  next
    case work
    then obtain job jobs where j: "qs_worker q = Idle" "qs_queue q = job # jobs" by (auto elim!: worker_write_calls)
    obtain err w1 where w1: "write_points E (wj_points job) (qs_world q) = (err, w1)" by fastforce
    with work j have parts: "qs_world q' = w1"
      "qs_post q' = qs_post q @ (if err = None \<and> length (wj_points job) = 1 then [hd (wj_points job)] else [])"
      "qs_worker q' = (if err = None \<and> length (wj_points job) \<noteq> 1 then Effects (wj_points job) else Idle)"
      by (auto simp: worker_write_def Let_def split: if_splits)
    note w = w1 parts
    have new: "stored_points q' (wj_points job)" if "err = None"
      using write_points_keys [OF w(1)] that w(2) by (simp add: stored_points_def)
    have "stored_points q' (qs_post q')"
    proof (cases "err = None \<and> length (wj_points job) = 1")
      case True
      then have "stored_points q' [hd (wj_points job)]" using new by (cases "wj_points job") (auto simp: stored_points_def)
      with old [of "qs_post q"] assms(2) w(3) True show ?thesis by (auto simp: stored_points_def stored_first_def)
    qed (use old [of "qs_post q"] assms(2) w(3) in \<open>auto simp: stored_first_def\<close>)
    moreover have "stored_points q' []" by (simp add: stored_points_def)
    ultimately show ?thesis
      using new w(2,4) write_points_tasks [OF w(1)] by (intro later [of "[]"]) (auto split: if_splits)
  next
    case (effects c)
    then obtain ps w1 where w: "batch_effects E ev ps [] c (qs_world q) = Some w1" "qs_worker q = Effects ps"
      "q' = q\<lparr>qs_world := w1, qs_worker := Idle\<rparr>"
      by (auto simp: worker_effects_def split: worker.splits)
    from w(2) assms(2) have ps: "stored_points q' ps" "stored_points q' (qs_post q')"
      using old w(3) by (auto simp: stored_first_def)
    from conjunct2 [OF batch_effects_effect [OF w(1)]] w(3) ps show ?thesis
      by (intro later [of ps]) (auto split: if_splits)
  next
    case (post i)
    then obtain w1 where i: "i < length (qs_post q)" and w: "postMetricWrite E ev (qs_post q ! i) (qs_world q) = Some w1"
      "q' = q\<lparr>qs_world := w1, qs_post := take i (qs_post q) @ drop (Suc i) (qs_post q)\<rparr>"
      by (auto simp: run_post_def split: if_splits)
    have all: "stored_points q' (qs_post q)" using old assms(2) by (simp add: stored_first_def)
    then have "stored_points q' (qs_post q')" "stored_points q' [qs_post q ! i]"
      using w(2) i by (auto simp: stored_points_def dest: in_set_takeD in_set_dropD)
    moreover have "stored_points q' ps" if "qs_worker q' = Effects ps" for ps
      using that old assms(2) w(2) by (simp add: stored_first_def)
    ultimately show ?thesis
      using postMetricWrite_effect(2) [OF w(1)] w(2) by (intro later [of "[qs_post q ! i]"]) (auto split: if_splits)
  qed (rule same; auto dest: worker_exit_Some)+
qed

section \<open>The invariant of the system\<close>

text \<open>
  The tables, what the queue promises to the calls it has answered, and the order of write and
  evaluation.
\<close>

definition system_inv :: "'r system \<Rightarrow> bool" where
  "system_inv s \<longleftrightarrow> db_inv (sy_world s) \<and> queue_inv DefaultWriteQueueCapacity (sy_queue s) \<and>
     (\<forall>c \<in> set (qs_calls (sy_queue s)). early_ok c) \<and> stored_first (sy_queue s)"

lemma system_inv_initial:
  "db_inv w \<Longrightarrow> w_tasks w = [] \<Longrightarrow> sy_queue s = initial_queue_state w \<Longrightarrow> system_inv s"
  using queue_inv_initial [of DefaultWriteQueueCapacity w]
  by (simp add: system_inv_def initial_queue_state_def stored_first_def stored_points_def)

lemma handle_event_inv:
  assumes "handle_event C e s = Some s'" "system_inv s"
  shows "system_inv s' \<and> metric_keys (sy_world s) \<subseteq> metric_keys (sy_world s')"
proof -
  have db: "db_inv (sy_world s)" and q: "queue_inv DefaultWriteQueueCapacity (sy_queue s)"
    and early: "\<forall>c \<in> set (qs_calls (sy_queue s)). early_ok c" and first: "stored_first (sy_queue s)"
    using assms(2) by (simp_all add: system_inv_def)
  from handle_event_parts [OF assms(1) db] show ?thesis
  proof (elim disjE exE conjE)
    assume step: "qstep (sc_env C) True DefaultWriteQueueCapacity (sy_queue s) (sy_queue s')"
    from db_inv_qstep [OF step db] qstep_inv [OF step q] qstep_keys [OF step] qstep_early [OF step early]
      qstep_stored_first [OF step first] show ?thesis
      by (simp add: system_inv_def)
  next
    fix w' assume w': "sy_queue s' = (sy_queue s)\<lparr>qs_world := w'\<rparr>" "keeps (sy_world s) w'"
    then have keys: "metric_keys w' = metric_keys (sy_world s)" by (simp add: keeps_def metric_keys_def)
    have "stored_first (sy_queue s')"
      by (rule stored_first_same [OF first]) (use keys w' in \<open>auto simp: keeps_def\<close>)
    with queue_inv_world [OF q, of "sy_queue s'"] keys w' db early show ?thesis
      by (simp add: system_inv_def keeps_def)
  qed (use assms(2) in \<open>simp add: system_inv_def\<close>)
qed

text \<open>The runs of the services are the runs of a step relation that keeps the invariant.\<close>

definition system_step :: "('r, 'key, 'pub, 'cert) system_conf \<Rightarrow> 'r system \<Rightarrow> 'r system \<Rightarrow> bool" where
  "system_step C s s' \<longleftrightarrow> (\<exists>e. handle_event C e s = Some s')"

interpretation services: step_order "system_step C" system_inv
    "\<lambda>s s'. metric_keys (sy_world s) \<subseteq> metric_keys (sy_world s')"
  for C :: "('r, 'key, 'pub, 'cert) system_conf"
  by unfold_locales (auto simp: system_step_def dest: handle_event_inv)

lemma run_events_steps: "run_events C es s = Some s' \<Longrightarrow> (system_step C)\<^sup>*\<^sup>* s s'"
proof (induction es arbitrary: s)
  case (Cons e es)
  then obtain s1 where "handle_event C e s = Some s1" "(system_step C)\<^sup>*\<^sup>* s1 s'"
    by (auto split: option.splits)
  moreover from this(1) have "system_step C s s1" by (auto simp: system_step_def)
  ultimately show ?case by (auto intro: converse_rtranclp_into_rtranclp)
qed simp

lemmas run_events_inv = services.run_upwards [OF run_events_steps]

end
