(* ===== verification/Startup.thy ===== *)
theory Startup
  imports ServiceConfig WriteQueue AlertEvaluator SilentWatchdog Certs
begin

text \<open>
  Start and stop of the three services: \<open>main\<close> of \<open>cmd/telemetry-service/main.go\<close>,
  \<open>cmd/device-service/main.go\<close> and \<open>cmd/alert-service/main.go\<close>, and the constructors they call.
  What the process meets outside (PostgreSQL, Redis, the MQTT broker, the network) is the
  parameter \<open>deployment\<close>. A start gives the error of \<open>log.Fatalf\<close>, which ends the process
  without running the deferred calls, or the running service; \<open>None\<close> is a start that waits for
  ever. A stop is the list of the calls it makes, in their order.
\<close>

section \<open>What a process is deployed in\<close>

text \<open>The settings of a pool; \<open>None\<close> is the driver's default.\<close>

record pool_config =
  pc_dsn :: string
  pc_MaxConns :: "int option"
  pc_MinConns :: "int option"
  pc_MaxConnLifetime :: "int option"
  pc_MaxConnIdleTime :: "int option"
  pc_HealthCheckPeriod :: "int option"

record pg_driver =
  pg_parse :: "string \<Rightarrow> go_error option"
  pg_new :: "pool_config \<Rightarrow> go_error option"
  pg_ping :: "pool_config \<Rightarrow> go_error option"

record redis_options =
  ro_Addr :: string
  ro_DB :: int
  ro_MaxRetries :: "int option"
  ro_PoolSize :: "int option"
  ro_MinIdleConns :: "int option"

record deployment =
  dp_environ :: "string \<Rightarrow> string"
  dp_tracing :: "string \<Rightarrow> go_error option"
  dp_pg :: pg_driver
  dp_redis_ping :: "redis_options \<Rightarrow> go_error option"
  dp_broker :: broker
  dp_dial :: "string \<Rightarrow> go_error option"
  dp_listen :: "string \<Rightarrow> go_error option"

datatype action = CancelWatchdog | StopSubscriber | GracefulStop | StopWorker | DisconnectPublisher
  | CloseRedis | ClosePool | ShutdownTracer | Exit int

section \<open>Constructors\<close>

definition pool_of :: "string \<Rightarrow> pool_config" where
  "pool_of dsn = \<lparr>pc_dsn = dsn, pc_MaxConns = None, pc_MinConns = None, pc_MaxConnLifetime = None,
     pc_MaxConnIdleTime = None, pc_HealthCheckPeriod = None\<rparr>"

definition createDatabasePool :: "pg_driver \<Rightarrow> string \<Rightarrow> go_error + pool_config" where
  "createDatabasePool D dsn =
     (case pg_parse D dsn of
        Some e \<Rightarrow> Inl (ErrWrap ''invalid database URI'' e)
      | None \<Rightarrow>
          (let config = (pool_of dsn)\<lparr>pc_MaxConns := Some 25, pc_MinConns := Some 5,
                 pc_MaxConnLifetime := Some (minutes 5), pc_MaxConnIdleTime := Some (minutes 2),
                 pc_HealthCheckPeriod := Some (seconds 30)\<rparr> in
           case pg_new D config of
             Some e \<Rightarrow> Inl (ErrWrap ''failed to create connection pool'' e)
           | None \<Rightarrow>
               (case pg_ping D config of
                  Some e \<Rightarrow> Inl (ErrWrap ''failed to ping database'' e)
                | None \<Rightarrow> Inr config)))"

text \<open>\<open>pgxpool.New\<close>, which parses and creates with the driver's settings.\<close>

definition pgxpool_New :: "pg_driver \<Rightarrow> string \<Rightarrow> go_error + pool_config" where
  "pgxpool_New D dsn =
     (case pg_parse D dsn of
        Some e \<Rightarrow> Inl e
      | None \<Rightarrow> (case pg_new D (pool_of dsn) of Some e \<Rightarrow> Inl e | None \<Rightarrow> Inr (pool_of dsn)))"

definition createRedisClient :: "string \<Rightarrow> redis_options" where
  "createRedisClient addr = \<lparr>ro_Addr = addr, ro_DB = 0, ro_MaxRetries = Some 3, ro_PoolSize = Some 10,
     ro_MinIdleConns = Some 5\<rparr>"

definition plain_redis :: "string \<Rightarrow> redis_options" where
  "plain_redis addr = \<lparr>ro_Addr = addr, ro_DB = 0, ro_MaxRetries = None, ro_PoolSize = None,
     ro_MinIdleConns = None\<rparr>"

text \<open>
  The telemetry service without its database and cache, which are in the state and environment
  of its operations: the capacity of the write queue, if there is one, and the evaluator.
\<close>

record telemetry_service =
  svc_queueCap :: "nat option"
  svc_alertEval :: "evaluator option"

definition NewTelemetryServiceWithWriteQueue :: "int \<Rightarrow> evaluator list \<Rightarrow> telemetry_service" where
  "NewTelemetryServiceWithWriteQueue queueCap evaluators =
     \<lparr>svc_queueCap = (if queueCap > 0 then Some (nat queueCap) else None),
      svc_alertEval = (case evaluators of [] \<Rightarrow> None | ev # _ \<Rightarrow> Some ev)\<rparr>"

definition NewTelemetryService :: "evaluator list \<Rightarrow> telemetry_service" where
  "NewTelemetryService evaluators = NewTelemetryServiceWithWriteQueue 0 evaluators"

text \<open>The alert service: whether it has a Redis client.\<close>

definition NewAlertService :: "bool list \<Rightarrow> bool" where
  "NewAlertService redisClients = (case redisClients of [] \<Rightarrow> False | r # _ \<Rightarrow> r)"

section \<open>The telemetry service\<close>

record telemetry_process =
  tp_config :: service_config
  tp_redis :: bool
  tp_publisher :: "mqtt_client option"
  tp_service :: telemetry_service
  tp_watchdog :: bool
  tp_subscriber :: telemetry_subscriber
  tp_deferred :: "action list"

text \<open>The deferred calls are listed in the order in which \<open>main\<close> defers them.\<close>

definition telemetry_start :: "deployment \<Rightarrow> (go_error + telemetry_process) option" where
  "telemetry_start D =
     (let config = telemetry_loadConfig (dp_environ D);
          tracing = dp_tracing D ''telemetry-service'' = None in
      case createDatabasePool (dp_pg D) (cf_PostgresURI config) of
        Inl e \<Rightarrow> Some (Inl (ErrWrap ''Failed to connect to PostgreSQL'' e))
      | Inr pool \<Rightarrow>
          (let redis = dp_redis_ping D (createRedisClient (cf_RedisAddr config)) = None in
           case NewAlertPublisher (dp_broker D) (cf_MQTTBroker config) (cf_MQTTClientID config) of
             None \<Rightarrow> None
           | Some ap \<Rightarrow>
               (let pub = (case ap of Inl e \<Rightarrow> None | Inr c \<Rightarrow> Some c);
                    service = NewTelemetryServiceWithWriteQueue (int DefaultWriteQueueCapacity)
                      [NewAlertEvaluator (pub \<noteq> None)];
                    watchdog = StartSilentWatchdog redis (cf_DeviceServiceAddr config) (dp_dial D) in
                case subscriber_Start (dp_broker D)
                       \<lparr>sb_cfg = subscriber_of_config config, sb_client = None\<rparr> of
                  None \<Rightarrow> None
                | Some (_, sub) \<Rightarrow>
                    (case dp_listen D ('':'' @ cf_Port config) of
                       Some e \<Rightarrow> Some (Inl (ErrWrap (''Failed to listen on port '' @ cf_Port config) e))
                     | None \<Rightarrow>
                         Some (Inr \<lparr>tp_config = config, tp_redis = redis, tp_publisher = pub,
                           tp_service = service, tp_watchdog = watchdog, tp_subscriber = sub,
                           tp_deferred = (if tracing then [ShutdownTracer] else []) @ [ClosePool] @
                             (if pub \<noteq> None then [DisconnectPublisher] else []) @
                             [StopWorker, CancelWatchdog]\<rparr>)))))"

text \<open>After the signal: the calls of \<open>main\<close>, then the deferred ones, the last one first.\<close>

definition telemetry_stop :: "telemetry_process \<Rightarrow> action list" where
  "telemetry_stop p = [CancelWatchdog, StopSubscriber, GracefulStop] @ rev (tp_deferred p)"

text \<open>What the operations of the service run in: its Redis client and its evaluator.\<close>

definition service_env :: "bool \<Rightarrow> 'r env \<Rightarrow> 'r env" where
  "service_env has_redis E = (if has_redis then E else E\<lparr>e_redis := None\<rparr>)"

section \<open>The device service\<close>

record ('key, 'cert) device_process =
  dpr_service :: "('key, 'cert) device_service"
  dpr_deferred :: "action list"

definition grpcPort :: int where "grpcPort = 50051"

definition env_or :: "(string \<Rightarrow> string) \<Rightarrow> string \<Rightarrow> string \<Rightarrow> string" where
  "env_or environ name fallback = (if environ name = '''' then fallback else environ name)"

definition device_start ::
    "deployment \<Rightarrow> ('key, 'pub, 'cert) pki \<Rightarrow> go_error + ('key, 'cert) device_process" where
  "device_start D P =
     (let tracing = dp_tracing D ''device-service'' = None in
      case pgxpool_New (dp_pg D) (getPostgresDS (dp_environ D)) of
        Inl e \<Rightarrow> Inl (ErrWrap ''Failed to create PostgreSQL connection pool'' e)
      | Inr pool \<Rightarrow>
     (case pg_ping (dp_pg D) pool of
        Some e \<Rightarrow> Inl (ErrWrap ''Failed to ping PostgreSQL'' e)
      | None \<Rightarrow>
     (case dp_redis_ping D (plain_redis (getRedisAddr (dp_environ D))) of
        Some e \<Rightarrow> Inl (ErrWrap ''Failed to ping Redis'' e)
      | None \<Rightarrow>
          (let rootCertPath = env_or (dp_environ D) ''ROOTCA_CERT_PATH'' ''certs/ca.crt'';
               rootKeyPath = env_or (dp_environ D) ''ROOTCA_KEY_PATH'' ''certs/ca.key'' in
           case LoadRootCA P rootCertPath rootKeyPath of
             Inl e \<Rightarrow> Inl (ErrWrap ''Failed to load RootCA'' e)
           | Inr (rootCert, rootKey) \<Rightarrow>
          (case pki_check_signature P rootCert rootCert of
             Some e \<Rightarrow> Inl (ErrWrap ''RootCA signature verification failed'' e)
           | None \<Rightarrow>
          (case dp_listen D ('':'' @ format_int grpcPort) of
             Some e \<Rightarrow> Inl (ErrWrap (''Failed to listen on port '' @ format_int grpcPort) e)
           | None \<Rightarrow>
               Inr \<lparr>dpr_service = NewDeviceService P (dp_environ D ''ROOTCA_CERT_PATH'') rootCert rootKey,
                    dpr_deferred = (if tracing then [ShutdownTracer] else []) @ [ClosePool, CloseRedis]\<rparr>))))))"

definition device_stop :: "('key, 'cert) device_process \<Rightarrow> action list" where
  "device_stop p = [GracefulStop] @ rev (dpr_deferred p)"

section \<open>The alert service\<close>

record alert_process =
  ap_redis :: bool

definition alertServicePort :: int where "alertServicePort = 50053"

definition alert_start :: "deployment \<Rightarrow> go_error + alert_process" where
  "alert_start D =
     (case pgxpool_New (dp_pg D) (alert_dsn (dp_environ D)) of
        Inl e \<Rightarrow> Inl (ErrWrap ''Failed to connect to database'' e)
      | Inr pool \<Rightarrow>
     (case pg_ping (dp_pg D) pool of
        Some e \<Rightarrow> Inl (ErrWrap ''Database ping failed'' e)
      | None \<Rightarrow>
          (let redisAddr = env_or (dp_environ D) ''REDIS_ADDR'' ''redis:6379'';
               redis = dp_redis_ping D (plain_redis redisAddr) = None in
           case dp_listen D ('':'' @ format_int alertServicePort) of
             Some e \<Rightarrow> Inl (ErrWrap (''Failed to listen on port '' @ format_int alertServicePort) e)
           | None \<Rightarrow> Inr \<lparr>ap_redis = NewAlertService [redis]\<rparr>)))"

text \<open>The goroutine of the signal ends the process: the deferred calls do not run.\<close>

definition alert_stop :: "action list" where
  "alert_stop = [GracefulStop, ClosePool, Exit 0]"

end
