(* ===== verification/ConnectorMain.thy ===== *)
theory ConnectorMain
  imports Connector MqttClient
begin

text \<open>
  \<open>cmd/connector/main.go\<close>: start and stop of the connector. \<open>main\<close> loads the configuration, dials
  the telemetry service and starts one worker per broker; a worker that reports an error is left
  out. A start that waits for ever is \<open>None\<close>. At the end what a stop of a worker means for its
  messages, on the step relation of \<open>Connector\<close>.
\<close>

section \<open>A worker's connection\<close>

text \<open>The parts of the struct that the state of the step relation does not hold.\<close>

record broker_process =
  bp_cfg :: broker_config
  bp_timeout :: i64
  bp_capacity :: nat
  bp_client :: "mqtt_client option"

definition new_broker_process :: "broker_config \<Rightarrow> int \<Rightarrow> broker_process" where
  "new_broker_process cfg timeoutMS =
     \<lparr>bp_cfg = cfg, bp_timeout = word_of_int timeoutMS * 1000000, bp_capacity = nat (bc_BufferSize cfg),
      bp_client = None\<rparr>"

definition worker_options :: "broker_config \<Rightarrow> mqtt_options" where
  "worker_options cfg =
     \<lparr>mo_Broker = bc_BrokerURI cfg, mo_ClientID = bc_ClientID cfg, mo_Username = bc_Username cfg,
      mo_Password = bc_Password cfg, mo_AutoReconnect = True, mo_ConnectRetry = True,
      mo_MaxReconnectInterval = word_of_int (bc_ReconnectDelayMS cfg) * 1000000\<rparr>"

definition worker_start :: "broker \<Rightarrow> broker_process \<Rightarrow> (go_error option \<times> broker_process) option" where
  "worker_start B w =
     map_option (\<lambda>(r, c). (r, w\<lparr>bp_client := Some c\<rparr>))
       (mqtt_connect B (NewClient (worker_options (bp_cfg w))))"

text \<open>The handler of a connection: every subscription is asked for, whatever became of the others.\<close>

definition worker_on_connect :: "(string \<Rightarrow> go_error option) \<Rightarrow> broker_process \<Rightarrow> broker_process" where
  "worker_on_connect outcome w =
     w\<lparr>bp_client := map_option
         (fold (\<lambda>sub. mqtt_subscribe (outcome (sub_Topic sub)) (sub_Topic sub) (sub_QoS sub))
            (bc_Subscriptions (bp_cfg w))) (bp_client w)\<rparr>"

text \<open>The end of \<open>stop\<close>, after the cancellation and the wait for \<open>processLoop\<close>.\<close>

definition worker_stop :: "broker_process \<Rightarrow> broker_process" where
  "worker_stop w =
     (case bp_client w of
        Some c \<Rightarrow> if mc_connected c then w\<lparr>bp_client := Some (mqtt_disconnect c)\<rparr> else w
      | None \<Rightarrow> w)"

section \<open>The program\<close>

fun start_workers :: "broker \<Rightarrow> int \<Rightarrow> broker_config list \<Rightarrow> broker_process list option" where
  "start_workers B timeoutMS [] = Some []"
| "start_workers B timeoutMS (cfg # cfgs) =
     (case worker_start B (new_broker_process cfg timeoutMS) of
        None \<Rightarrow> None
      | Some (Some e, w) \<Rightarrow> start_workers B timeoutMS cfgs
      | Some (None, w) \<Rightarrow> map_option ((#) w) (start_workers B timeoutMS cfgs))"

definition connector_start ::
    "(string \<Rightarrow> go_error + string) \<Rightarrow> (string \<Rightarrow> go_error + connector_config) \<Rightarrow>
     (string \<Rightarrow> go_error option) \<Rightarrow> broker \<Rightarrow> string \<Rightarrow> (go_error + broker_process list) option" where
  "connector_start read_file unmarshal dial B cfgPath =
     (case loadConfig read_file unmarshal cfgPath of
        Inl e \<Rightarrow> Some (Inl (ErrWrap ''failed to load config'' e))
      | Inr cfg \<Rightarrow>
          (case dial (tsc_Address (cc_TelemetryService cfg)) of
             Some e \<Rightarrow> Some (Inl (ErrWrap ''failed to connect telemetry service'' e))
           | None \<Rightarrow>
               (case start_workers B (tsc_TimeoutMS (cc_TelemetryService cfg)) (cc_Brokers cfg) of
                  None \<Rightarrow> None
                | Some workers \<Rightarrow>
                    if length workers = 0 then Some (Inl (ErrText ''no broker workers started''))
                    else Some (Inr workers))))"

definition connector_stop :: "broker_process list \<Rightarrow> broker_process list" where
  "connector_stop workers = map worker_stop workers"

text \<open>
  The loop at the end of \<open>main\<close>, on what its channels deliver: at each tick the counters of all
  workers are reported, here those the tick comes with; a signal stops the workers. The result is
  the reports made and, once the loop has returned, the workers as they were left.
\<close>

datatype connector_event = StatsTick "(i64 \<times> i64 \<times> i64) list" | StopSignal

fun connector_wait ::
    "broker_process list \<Rightarrow> connector_event list \<Rightarrow>
     (string \<times> i64 \<times> i64 \<times> i64) list \<times> broker_process list option" where
  "connector_wait workers [] = ([], None)"
| "connector_wait workers (StatsTick counts # es) =
     (case connector_wait workers es of
        (reports, left) \<Rightarrow> (zip (map (bc_Name \<circ> bp_cfg) workers) counts @ reports, left))"
| "connector_wait workers (StopSignal # es) = ([], Some (connector_stop workers))"

section \<open>Which starts succeed\<close>

definition started_worker :: "int \<Rightarrow> broker_config \<Rightarrow> broker_process" where
  "started_worker timeoutMS cfg =
     (new_broker_process cfg timeoutMS)\<lparr>bp_client :=
        Some ((NewClient (worker_options cfg))\<lparr>mc_connected := True\<rparr>)\<rparr>"

lemma worker_start_retry:
  assumes "connect_retry_law up B"
  shows "worker_start B (new_broker_process cfg ms) =
    (if up (bc_BrokerURI cfg) then Some (None, started_worker ms cfg) else None)"
  using connect_retry_lawD [OF assms, of "NewClient (worker_options cfg)"]
  by (simp add: worker_start_def new_broker_process_def worker_options_def started_worker_def)

lemma start_workers_retry:
  assumes "connect_retry_law up B"
  shows "start_workers B ms cfgs =
    (if \<forall>cfg \<in> set cfgs. up (bc_BrokerURI cfg) then Some (map (started_worker ms) cfgs) else None)"
  by (induction cfgs) (simp_all add: worker_start_retry [OF assms])

lemma connector_start_retry:
  assumes "connect_retry_law up B" "loadConfig rf un path = Inr cfg" "dial (tsc_Address (cc_TelemetryService cfg)) = None"
  shows "connector_start rf un dial B path =
    (if cc_Brokers cfg = [] then Some (Inl (ErrText ''no broker workers started''))
     else if \<forall>b \<in> set (cc_Brokers cfg). up (bc_BrokerURI b)
     then Some (Inr (map (started_worker (tsc_TimeoutMS (cc_TelemetryService cfg))) (cc_Brokers cfg)))
     else None)"
  using assms(2,3) by (simp add: connector_start_def start_workers_retry [OF assms(1)])

text \<open>Every subscription that was granted is there after a connection, in the order of the file.\<close>

lemma subscribe_all:
  "mc_subscriptions (fold (\<lambda>sub. mqtt_subscribe (f (sub_Topic sub)) (sub_Topic sub) (sub_QoS sub)) subs c) =
   mc_subscriptions c @ map (\<lambda>sub. (sub_Topic sub, sub_QoS sub)) (filter (\<lambda>sub. f (sub_Topic sub) = None) subs)"
  by (induction subs arbitrary: c) (simp_all add: mqtt_subscribe_def)

lemma worker_on_connect_subscriptions:
  assumes "bp_client w = Some c"
  shows "\<exists>c'. bp_client (worker_on_connect f w) = Some c' \<and>
    mc_subscriptions c' = mc_subscriptions c @ map (\<lambda>sub. (sub_Topic sub, sub_QoS sub))
      (filter (\<lambda>sub. f (sub_Topic sub) = None) (bc_Subscriptions (bp_cfg w)))"
  using assms by (simp add: worker_on_connect_def subscribe_all)

lemma worker_stop_disconnected: "bp_client (worker_stop w) = Some c \<Longrightarrow> \<not> mc_connected c"
  by (auto simp: worker_stop_def mqtt_disconnect_def split: option.splits if_splits)

text \<open>The loop returns on a signal only, and then no connection is left up.\<close>

lemma connector_wait_stopped:
  assumes "connector_wait workers es = (reports, left)"
  shows "(left \<noteq> None \<longleftrightarrow> StopSignal \<in> set es) \<and>
    (\<forall>ws w c. left = Some ws \<and> w \<in> set ws \<and> bp_client w = Some c \<longrightarrow> \<not> mc_connected c)"
  using assms
proof (induction es arbitrary: reports)
  case (Cons e es)
  then show ?case
  proof (cases e)
    case (StatsTick counts)
    obtain rs l where "connector_wait workers es = (rs, l)" by fastforce
    with Cons StatsTick show ?thesis by fastforce
  next
    case StopSignal
    with Cons.prems have "left = Some (connector_stop workers)" by simp
    with StopSignal show ?thesis by (auto simp: connector_stop_def dest: worker_stop_disconnected)
  qed
qed simp

section \<open>After the loop has returned\<close>

text \<open>
  \<open>stop\<close> waits for \<open>processLoop\<close> before it disconnects: what is in the queue then, and what the
  handlers still receive, is never forwarded.
\<close>

lemma enqueue_select_keeps:
  assumes "enqueue_select cap g m st = (g', st')"
  shows "cs_running st' = cs_running st" "cs_busy st' = cs_busy st" "cs_done st' = cs_done st"
    "cs_fwd st' = cs_fwd st" "cs_ext st' = cs_ext st"
  using assms by (cases g; auto simp: channel_send_def drop_message_def split: if_splits list.splits)+

lemma stopped_worker_step:
  assumes "cstep cap fw st st'" "\<not> cs_running st" "cs_busy st = None"
  shows "\<not> cs_running st' \<and> cs_busy st' = None \<and> cs_done st' = cs_done st \<and> cs_fwd st' = cs_fwd st \<and>
    cs_ext st' = cs_ext st"
  using assms(1)
proof (cases rule: cstep.cases)
  case (select i g m g' st1)
  with enqueue_select_keeps [OF select(4)] assms(2,3) show ?thesis by simp
qed (use assms(2,3) in \<open>auto simp: handler_receive_def\<close>)

interpretation stopped_worker: step_order "cstep cap fw" "\<lambda>st. \<not> cs_running st \<and> cs_busy st = None"
    "\<lambda>st st'. cs_done st' = cs_done st \<and> cs_fwd st' = cs_fwd st \<and> cs_ext st' = cs_ext st" for cap fw
  by unfold_locales (auto dest: stopped_worker_step)

text \<open>A loop that has returned holds no message.\<close>

lemma creach_stopped_idle: "creach cap fw s st \<Longrightarrow> \<not> cs_running st \<Longrightarrow> cs_busy st = None"
proof (induction rule: creach.induct)
  case start
  then show ?case by (simp add: newBrokerWorker_def)
next
  case (step st st')
  from step(2) show ?case
  proof (cases rule: cstep.cases)
    case (select i g m g' st1)
    with enqueue_select_keeps [OF select(4)] step show ?thesis by simp
  qed (use step in \<open>auto simp: handler_receive_def finish_forward_def split: prod.splits\<close>)
qed

lemma creach_rtranclp: "(cstep cap fw)\<^sup>*\<^sup>* st st' \<Longrightarrow> creach cap fw s st \<Longrightarrow> creach cap fw s st'"
  by (induction rule: rtranclp_induct) (auto intro: creach.step)

end
