(* ===== verification/GatewayMain.thy ===== *)
theory GatewayMain
  imports Gateway
begin

text \<open>
  \<open>cmd/api-gateway/main.go\<close>: the start of the gateway and its table of routes. How fiber joins the
  prefix of a group with a path and matches the result against a request is the parameter
  \<open>matches\<close>; fiber takes the first route that does, and answers 404 where there is none.
\<close>

section \<open>Routes\<close>

datatype http_method = GET | POST | PUT | DELETE

datatype gw_handler = Health | HCreateDevice | HGetDevice | HListDevices | HUpdateDeviceStatus
  | HSubmitMetric | HQueryMetrics | HGetActiveAlerts | HGetAlertStats
  | HCreateThreshold | HGetThresholds | HUpdateThreshold | HDeleteThreshold | HSilenceAlert

record gw_route =
  rt_method :: http_method
  rt_group :: string
  rt_path :: string
  rt_handler :: gw_handler

definition route :: "string \<Rightarrow> http_method \<Rightarrow> string \<Rightarrow> gw_handler \<Rightarrow> gw_route" where
  "route grp meth path h = \<lparr>rt_method = meth, rt_group = grp, rt_path = path, rt_handler = h\<rparr>"

definition setupRoutes :: "gw_route list" where
  "setupRoutes =
     [route '''' GET ''/health'' Health,
      route ''/api/v1/devices'' POST '''' HCreateDevice,
      route ''/api/v1/devices'' GET ''/:id'' HGetDevice,
      route ''/api/v1/devices'' GET '''' HListDevices,
      route ''/api/v1/devices'' PUT ''/:id/status'' HUpdateDeviceStatus,
      route ''/api/v1/telemetry'' POST ''/metric'' HSubmitMetric,
      route ''/api/v1/telemetry'' GET ''/query'' HQueryMetrics,
      route ''/api/v1/alerts'' GET ''/active'' HGetActiveAlerts,
      route ''/api/v1/alerts'' GET ''/stats'' HGetAlertStats,
      route ''/api/v1/thresholds'' POST '''' HCreateThreshold,
      route ''/api/v1/thresholds'' GET '''' HGetThresholds,
      route ''/api/v1/thresholds'' PUT ''/:id'' HUpdateThreshold,
      route ''/api/v1/thresholds'' DELETE ''/:id'' HDeleteThreshold,
      route ''/api/v1/silence'' POST '''' HSilenceAlert]"

definition gw_dispatch :: "(gw_route \<Rightarrow> 'q \<Rightarrow> bool) \<Rightarrow> 'q \<Rightarrow> gw_handler option" where
  "gw_dispatch matches q = map_option rt_handler (List.find (\<lambda>r. matches r q) setupRoutes)"

section \<open>Start\<close>

record api_gateway =
  gwy_deviceAddr :: string
  gwy_telemetryAddr :: string
  gwy_alertAddr :: string
  gwy_routes :: "gw_route list"

definition NewAPIGateway ::
    "(string \<Rightarrow> string) \<Rightarrow> (string \<Rightarrow> go_error option) \<Rightarrow> go_error + api_gateway" where
  "NewAPIGateway environ dial =
     (let deviceServiceAddr = getEnv environ ''DEVICE_SERVICE_ADDR'' ''device-service:50051'';
          telemetryServiceAddr = getEnv environ ''TELEMETRY_SERVICE_ADDR'' ''telemetry-service:50052'';
          alertServiceAddr = getEnv environ ''ALERT_SERVICE_ADDR'' ''alert-service:50053'' in
      case dial deviceServiceAddr of
        Some e \<Rightarrow> Inl (ErrWrap ''failed to connect to device service'' e)
      | None \<Rightarrow>
          (case dial telemetryServiceAddr of
             Some e \<Rightarrow> Inl (ErrWrap ''failed to connect to telemetry service'' e)
           | None \<Rightarrow>
               (case dial alertServiceAddr of
                  Some e \<Rightarrow> Inl (ErrWrap ''failed to connect to alert service'' e)
                | None \<Rightarrow>
                    Inr \<lparr>gwy_deviceAddr = deviceServiceAddr, gwy_telemetryAddr = telemetryServiceAddr,
                         gwy_alertAddr = alertServiceAddr, gwy_routes = setupRoutes\<rparr>)))"

definition gateway_Start :: "(string \<Rightarrow> go_error option) \<Rightarrow> int \<Rightarrow> go_error option" where
  "gateway_Start listen port = listen ('':'' @ format_int port)"

text \<open>The error of \<open>log.Fatalf\<close>, or \<open>None\<close> for a server that ended without one.\<close>

definition gateway_main ::
    "(string \<Rightarrow> string) \<Rightarrow> (string \<Rightarrow> go_error option) \<Rightarrow> (string \<Rightarrow> go_error option) \<Rightarrow> go_error option" where
  "gateway_main environ dial listen =
     (case NewAPIGateway environ dial of
        Inl e \<Rightarrow> Some (ErrWrap ''Failed to create API gateway'' e)
      | Inr gateway \<Rightarrow>
          (case gateway_Start listen 3000 of
             Some e \<Rightarrow> Some (ErrWrap ''API gateway error'' e)
           | None \<Rightarrow> None))"

section \<open>Facts\<close>

text \<open>Every handler has one route, and no two routes have the same method and path.\<close>

lemma setupRoutes_distinct:
  "distinct (map rt_handler setupRoutes)"
  "distinct (map (\<lambda>r. (rt_method r, rt_group r, rt_path r)) setupRoutes)"
  by (simp_all add: setupRoutes_def route_def)

lemma setupRoutes_complete: "rt_handler ` set setupRoutes = UNIV"
proof
  show "UNIV \<subseteq> rt_handler ` set setupRoutes"
  proof
    fix h :: gw_handler
    show "h \<in> rt_handler ` set setupRoutes" by (cases h) (simp_all add: setupRoutes_def route_def)
  qed
qed simp

text \<open>A handler is only reached through its own route, and the routes before it come first.\<close>

lemma gw_dispatch_route:
  assumes "gw_dispatch matches q = Some h"
  shows "\<exists>r \<in> set setupRoutes. rt_handler r = h \<and> matches r q"
  using assms by (auto simp: gw_dispatch_def find_Some_iff)

lemma gateway_main_exact:
  "gateway_main environ dial listen = None \<longleftrightarrow>
     dial (getEnv environ ''DEVICE_SERVICE_ADDR'' ''device-service:50051'') = None \<and>
     dial (getEnv environ ''TELEMETRY_SERVICE_ADDR'' ''telemetry-service:50052'') = None \<and>
     dial (getEnv environ ''ALERT_SERVICE_ADDR'' ''alert-service:50053'') = None \<and> listen '':3000'' = None"
proof -
  have "format_int 3000 = ''3000''" by code_simp
  then show ?thesis
    by (auto simp: gateway_main_def NewAPIGateway_def gateway_Start_def Let_def split: option.splits)
qed

end
