(* ===== verification/Simulator.thy ===== *)
theory Simulator
  imports TelemetryIngest
begin

text \<open>
  \<open>cmd/simulator/main.go\<close>: a device worker. The generator of random numbers is a parameter, a
  function of the number of draws made so far, and so are the clock and the outcome of the
  publications. The arithmetic is that of separate binary64 operations (no fused
  multiply-add, as on amd64).
\<close>

section \<open>Configuration\<close>

record simulation_config =
  sim_BrokerURL :: string
  sim_NumDevices :: i64
  sim_MinIntervalSec :: i64
  sim_MaxIntervalSec :: i64
  sim_DuplicateRate :: float64
  sim_SpikeRate :: float64
  sim_DurationSeconds :: i64

definition valid_intervals :: "simulation_config \<Rightarrow> bool" where
  "valid_intervals cfg \<longleftrightarrow>
     \<not> (sint (sim_MinIntervalSec cfg) \<le> 0 \<or>
        sint (sim_MaxIntervalSec cfg) < sint (sim_MinIntervalSec cfg))"

definition sim_device_id :: "nat \<Rightarrow> string" where
  "sim_device_id i = ''sim_dev_'' @ pad_zeros 3 (nat_dec i)"

section \<open>The worker\<close>

text \<open>The payload has the fields the subscriber's has.\<close>

type_synonym simulated_payload = telemetry_payload

record randomness =
  rnd_Float64 :: "nat \<Rightarrow> float64"
  rnd_Intn :: "nat \<Rightarrow> int \<Rightarrow> int"
  rnd_now :: "nat \<Rightarrow> gotime"
  rnd_publish :: "nat \<Rightarrow> go_error option"

record device_worker =
  dw_deviceID :: string
  dw_cfg :: simulation_config
  dw_lastTemp :: float64
  dw_sentCount :: i64
  dw_anomalyCount :: i64
  dw_dupCount :: i64
  dw_draws :: nat
  dw_attempts :: nat
  dw_published :: "(string \<times> simulated_payload) list"

definition new_device_worker :: "simulation_config \<Rightarrow> nat \<Rightarrow> device_worker" where
  "new_device_worker cfg i =
     \<lparr>dw_deviceID = sim_device_id i, dw_cfg = cfg, dw_lastTemp = Fin 25, dw_sentCount = 0,
      dw_anomalyCount = 0, dw_dupCount = 0, dw_draws = 0, dw_attempts = 0, dw_published = []\<rparr>"

definition draw_float :: "randomness \<Rightarrow> device_worker \<Rightarrow> float64 \<times> device_worker" where
  "draw_float G w = (rnd_Float64 G (dw_draws w), w\<lparr>dw_draws := Suc (dw_draws w)\<rparr>)"

definition nextTemperature :: "randomness \<Rightarrow> device_worker \<Rightarrow> float64 \<times> device_worker" where
  "nextTemperature G w =
     (let drift = f_mul (f_sub (Fin 25) (dw_lastTemp w)) (f_round (1 / 20));
          (x, w1) = draw_float G w;
          noise = f_mul (f_sub x (Fin (1 / 2))) (f_round (6 / 5));
          t = f_add (f_add (dw_lastTemp w) drift) noise
      in (t, w1\<lparr>dw_lastTemp := t\<rparr>))"

definition nextInterval :: "randomness \<Rightarrow> device_worker \<Rightarrow> i64 \<times> device_worker" where
  "nextInterval G w =
     (let cfg = dw_cfg w in
      if sim_MinIntervalSec cfg = sim_MaxIntervalSec cfg
      then (sim_MinIntervalSec cfg * 1000000000, w)
      else
        (let rangeSec = sim_MaxIntervalSec cfg - sim_MinIntervalSec cfg + 1;
             sec = sim_MinIntervalSec cfg + word_of_int (rnd_Intn G (dw_draws w) (sint rangeSec))
         in (sec * 1000000000, w\<lparr>dw_draws := Suc (dw_draws w)\<rparr>)))"

definition publishQoS1 ::
    "randomness \<Rightarrow> string \<Rightarrow> simulated_payload \<Rightarrow> device_worker \<Rightarrow> go_error option \<times> device_worker" where
  "publishQoS1 G topic payload w =
     (let w1 = w\<lparr>dw_attempts := Suc (dw_attempts w)\<rparr> in
      case rnd_publish G (dw_attempts w) of
        Some e \<Rightarrow> (Some e, w1)
      | None \<Rightarrow> (None, w1\<lparr>dw_published := dw_published w1 @ [(topic, payload)]\<rparr>))"

definition sim_payload :: "randomness \<Rightarrow> device_worker \<Rightarrow> simulated_payload \<times> device_worker" where
  "sim_payload G w =
     (let (temp, w1) = nextTemperature G w;
          payload = \<lparr>tp_MetricName = ''temperature'', tp_Value = temp,
            tp_TimestampUnixSeconds = unix_secs (rnd_now G (dw_draws w1)), tp_Status = ''OK'',
            tp_Tags = Some [(''source'', ''simulator'')]\<rparr>;
          (x, w2) = draw_float G w1 in
      if f_lt x (sim_SpikeRate (dw_cfg w)) then
        (let (y, w3) = draw_float G w2 in
         (payload\<lparr>tp_Value := f_add temp (f_add (Fin 10) (f_mul y (Fin 15))), tp_Status := ''CRITICAL''\<rparr>,
          w3\<lparr>dw_anomalyCount := dw_anomalyCount w3 + 1\<rparr>))
      else (payload, w2))"

text \<open>\<open>json.Marshal\<close> fails on a value that is not finite, and only then.\<close>

definition publishOne :: "randomness \<Rightarrow> device_worker \<Rightarrow> device_worker" where
  "publishOne G w =
     (let (payload, w1) = sim_payload G w in
      if f_is_nan (tp_Value payload) \<or> f_is_inf (tp_Value payload) then w1
      else
        (let topic = ''devices/'' @ dw_deviceID w @ ''/telemetry'' in
         case publishQoS1 G topic payload w1 of
           (Some e, w2) \<Rightarrow> w2
         | (None, w2) \<Rightarrow>
             (let w3 = w2\<lparr>dw_sentCount := dw_sentCount w2 + 1\<rparr>;
                  (x, w4) = draw_float G w3 in
              if f_lt x (sim_DuplicateRate (dw_cfg w)) then
                (case publishQoS1 G topic payload w4 of
                   (Some e, w5) \<Rightarrow> w5
                 | (None, w5) \<Rightarrow> w5\<lparr>dw_dupCount := dw_dupCount w5 + 1\<rparr>)
              else w4)))"

text \<open>\<open>n\<close> rounds of the loop of \<open>run\<close>.\<close>

fun run_rounds :: "randomness \<Rightarrow> nat \<Rightarrow> device_worker \<Rightarrow> device_worker" where
  "run_rounds G 0 w = w"
| "run_rounds G (Suc n) w = run_rounds G n (snd (nextInterval G (publishOne G w)))"

section \<open>Intervals\<close>

text \<open>
  \<open>Intn n\<close> gives a number from 0 to \<open>n - 1\<close> for a positive \<open>n\<close>, and panics otherwise.
\<close>

definition intn_law :: "randomness \<Rightarrow> bool" where
  "intn_law G \<longleftrightarrow> (\<forall>k n. 0 < n \<longrightarrow> 0 \<le> rnd_Intn G k n \<and> rnd_Intn G k n < n)"

lemma sint_i64_diff:
  "0 < sint (a :: i64) \<Longrightarrow> sint a \<le> sint b \<Longrightarrow> sint (b - a + 1) = sint b - sint a + 1"
  using sint_i64_range [of b] by (simp add: sint_word_ariths signed_take_bit_int_eq_self)

lemma nextInterval_bounds:
  assumes "valid_intervals (dw_cfg w)" "intn_law G" "sint (sim_MaxIntervalSec (dw_cfg w)) \<le> 9223372036"
    "nextInterval G w = (d, w')"
  shows "sint (sim_MinIntervalSec (dw_cfg w)) * 1000000000 \<le> sint d"
    "sint d \<le> sint (sim_MaxIntervalSec (dw_cfg w)) * 1000000000"
proof -
  let ?a = "sim_MinIntervalSec (dw_cfg w)" and ?b = "sim_MaxIntervalSec (dw_cfg w)"
  from assms(1) have ab: "0 < sint ?a" "sint ?a \<le> sint ?b" by (auto simp: valid_intervals_def)
  have scale: "sint (x * 1000000000 :: i64) = sint x * 1000000000"
    if "0 \<le> sint x" "sint x \<le> 9223372036" for x :: i64
    using that by (simp add: sint_word_ariths signed_take_bit_int_eq_self)
  show "sint ?a * 1000000000 \<le> sint d" "sint d \<le> sint ?b * 1000000000"
  proof (atomize (full), cases "?a = ?b")
    case True
    with assms(4) have "d = ?a * 1000000000" by (auto simp: nextInterval_def)
    with True scale [of ?a] ab assms(3) show "sint ?a * 1000000000 \<le> sint d \<and> sint d \<le> sint ?b * 1000000000"
      by simp
  next
    case False
    let ?k = "rnd_Intn G (dw_draws w) (sint (?b - ?a + 1))"
    have k: "0 \<le> ?k" "?k \<le> sint ?b - sint ?a"
      using assms(2) ab sint_i64_diff [OF ab] unfolding intn_law_def
      by (smt (verit))+
    have s: "sint (?a + word_of_int ?k) = sint ?a + ?k"
      using k ab assms(3) by (simp add: sint_word_ariths signed_take_bit_int_eq_self sint_word_of_int_i64)
    from False assms(4) have "d = (?a + word_of_int ?k) * 1000000000"
      by (simp add: nextInterval_def Let_def)
    with scale [of "?a + word_of_int ?k"] s k ab assms(3)
    show "sint ?a * 1000000000 \<le> sint d \<and> sint d \<le> sint ?b * 1000000000" by simp
  qed
qed

section \<open>Messages\<close>

text \<open>
  What a worker has published: messages on its device's telemetry topic, of the metric
  \<open>temperature\<close>, finite, with a status the subscriber knows; and the two counters add up to
  their number.
\<close>

definition sim_message_ok :: "string \<Rightarrow> string \<times> telemetry_payload \<Rightarrow> bool" where
  "sim_message_ok d m \<longleftrightarrow>
     fst m = ''devices/'' @ d @ ''/telemetry'' \<and> tp_MetricName (snd m) = ''temperature'' \<and>
     tp_Status (snd m) \<in> {''OK'', ''CRITICAL''} \<and>
     \<not> f_is_nan (tp_Value (snd m)) \<and> \<not> f_is_inf (tp_Value (snd m))"

definition sim_inv :: "device_worker \<Rightarrow> bool" where
  "sim_inv w \<longleftrightarrow>
     dw_sentCount w + dw_dupCount w = of_nat (length (dw_published w)) \<and>
     (\<forall>m \<in> set (dw_published w). sim_message_ok (dw_deviceID w) m)"

lemma sim_payload_shape:
  assumes "sim_payload G w = (p, w1)"
  shows "tp_MetricName p = ''temperature''" "tp_Status p \<in> {''OK'', ''CRITICAL''}"
    "dw_deviceID w1 = dw_deviceID w" "dw_published w1 = dw_published w" "dw_cfg w1 = dw_cfg w"
    "dw_sentCount w1 = dw_sentCount w" "dw_dupCount w1 = dw_dupCount w"
    "tp_Status p = ''CRITICAL'' \<longleftrightarrow> dw_anomalyCount w1 = dw_anomalyCount w + 1"
  using assms by (auto simp: sim_payload_def nextTemperature_def draw_float_def Let_def split: if_splits)

lemma publishOne_inv [inv_intros]:
  assumes "sim_inv w"
  shows "sim_inv (publishOne G w)" "dw_deviceID (publishOne G w) = dw_deviceID w"
    "dw_cfg (publishOne G w) = dw_cfg w"
proof -
  obtain p w1 where p: "sim_payload G w = (p, w1)" by fastforce
  note shape = sim_payload_shape [OF p]
  have ok: "sim_message_ok (dw_deviceID w) (''devices/'' @ dw_deviceID w @ ''/telemetry'', p)"
    if "\<not> f_is_nan (tp_Value p)" "\<not> f_is_inf (tp_Value p)"
    using that shape(1,2) by (simp add: sim_message_ok_def)
  show "sim_inv (publishOne G w)"
    using assms shape ok
    by (auto simp: publishOne_def p publishQoS1_def draw_float_def sim_inv_def Let_def algebra_simps
        split: option.splits)
  show "dw_deviceID (publishOne G w) = dw_deviceID w" "dw_cfg (publishOne G w) = dw_cfg w"
    using shape by (auto simp: publishOne_def p publishQoS1_def draw_float_def Let_def split: option.splits)
qed

lemma nextInterval_inv:
  "sim_inv w \<Longrightarrow> sim_inv (snd (nextInterval G w)) \<and> dw_deviceID (snd (nextInterval G w)) = dw_deviceID w"
  by (simp add: nextInterval_def sim_inv_def Let_def)

lemma run_rounds_inv:
  "sim_inv w \<Longrightarrow> sim_inv (run_rounds G n w) \<and> dw_deviceID (run_rounds G n w) = dw_deviceID w"
proof (induction n arbitrary: w)
  case (Suc n)
  have "sim_inv (snd (nextInterval G (publishOne G w)))"
    "dw_deviceID (snd (nextInterval G (publishOne G w))) = dw_deviceID w"
    using publishOne_inv [OF Suc.prems] nextInterval_inv by metis+
  with Suc.IH show ?case by simp
qed simp

lemma sim_inv_new: "sim_inv (new_device_worker cfg i)"
  by (simp add: sim_inv_def new_device_worker_def)

lemma sim_device_id_ok: "sim_device_id i \<noteq> []" "CHR ''/'' \<notin> set (sim_device_id i)"
  using nat_dec_no_sep [of "CHR ''/''" i] by (auto simp: sim_device_id_def is_digit_def)

text \<open>The subscriber reads the worker's device from the topic and takes the payload as it is.\<close>

lemma sim_message_accepted:
  assumes "m \<in> set (dw_published (run_rounds G n (new_device_worker cfg i)))"
  shows "deviceIDFromTopic (fst m) = Some (sim_device_id i)"
    "dec raw = Inr (snd m) \<Longrightarrow> tp_Tags (snd m) \<noteq> None \<Longrightarrow> parsePayloadStrict dec raw = Inr (snd m)"
    "parseStatus (tp_Status (snd m)) \<in> {METRIC_STATUS_OK, METRIC_STATUS_CRITICAL}"
proof -
  have "sim_message_ok (sim_device_id i) m"
    using run_rounds_inv [OF sim_inv_new, of G n cfg i] assms
    by (auto simp: sim_inv_def new_device_worker_def)
  then have m: "fst m = ''devices/'' @ sim_device_id i @ ''/telemetry''"
    "tp_MetricName (snd m) = ''temperature''" "tp_Status (snd m) \<in> {''OK'', ''CRITICAL''}"
    by (auto simp: sim_message_ok_def)
  then show "deviceIDFromTopic (fst m) = Some (sim_device_id i)"
    using sim_device_id_ok by (simp only: deviceIDFromTopic_iff) simp
  show "dec raw = Inr (snd m) \<Longrightarrow> tp_Tags (snd m) \<noteq> None \<Longrightarrow> parsePayloadStrict dec raw = Inr (snd m)"
    using m(2) by (auto simp: parsePayloadStrict_def)
  show "parseStatus (tp_Status (snd m)) \<in> {METRIC_STATUS_OK, METRIC_STATUS_CRITICAL}"
    using m(3) by (auto simp: parseStatus_def to_upper_def trim_space_def upper_char_def is_space_def Let_def)
qed

end
