(* ===== verification/SimulatorMain.thy ===== *)
theory SimulatorMain
  imports Simulator MqttClient
begin

text \<open>
  \<open>cmd/simulator/main.go\<close>: the program around the workers. \<open>flags\<close> is what \<open>flag.Parse\<close> makes of the
  defaults, \<open>G i\<close> the generator, clock and publications of the worker \<open>i\<close>, and \<open>n i\<close> the number
  of rounds it makes before it sees the closed channel.
\<close>

definition sim_defaults :: simulation_config where
  "sim_defaults =
     \<lparr>sim_BrokerURL = ''tcp://localhost:1883'', sim_NumDevices = 50, sim_MinIntervalSec = 2,
      sim_MaxIntervalSec = 10, sim_DuplicateRate = f_round (3 / 100), sim_SpikeRate = f_round (1 / 20),
      sim_DurationSeconds = 0\<rparr>"

definition sim_options :: "string \<Rightarrow> gotime \<Rightarrow> mqtt_options" where
  "sim_options brokerURL now =
     \<lparr>mo_Broker = brokerURL, mo_ClientID = ''fieldpulse-simulator-'' @ format_int (sint (unix_nano now)),
      mo_Username = [], mo_Password = [], mo_AutoReconnect = True, mo_ConnectRetry = True,
      mo_MaxReconnectInterval = 0\<rparr>"

text \<open>\<open>None\<close> where the connection never comes up.\<close>

definition connectMQTT :: "broker \<Rightarrow> string \<Rightarrow> gotime \<Rightarrow> (go_error + mqtt_client) option" where
  "connectMQTT B brokerURL now =
     (case mqtt_connect B (NewClient (sim_options brokerURL now)) of
        None \<Rightarrow> None
      | Some (Some e, c) \<Rightarrow> Some (Inl e)
      | Some (None, c) \<Rightarrow> Some (Inr c))"

text \<open>The seed of the generator of a worker.\<close>

definition worker_seed :: "gotime \<Rightarrow> nat \<Rightarrow> i64" where
  "worker_seed now i = unix_nano now + of_nat i * 7919"

definition sim_workers :: "simulation_config \<Rightarrow> device_worker list" where
  "sim_workers cfg = map (new_device_worker cfg) [0..<nat (sint (sim_NumDevices cfg))]"

definition sim_start ::
    "broker \<Rightarrow> (simulation_config \<Rightarrow> simulation_config) \<Rightarrow> gotime \<Rightarrow>
     (go_error + simulation_config \<times> mqtt_client \<times> device_worker list) option" where
  "sim_start B flags now =
     (let cfg = flags sim_defaults in
      if \<not> valid_intervals cfg then Some (Inl (ErrText ''invalid interval configuration''))
      else
        (case connectMQTT B (sim_BrokerURL cfg) now of
           None \<Rightarrow> None
         | Some (Inl e) \<Rightarrow> Some (Inl (ErrWrap ''failed to connect MQTT broker'' e))
         | Some (Inr client) \<Rightarrow> Some (Inr (cfg, client, sim_workers cfg))))"

text \<open>The duration after which the program stops by itself; \<open>None\<close> is the nil channel.\<close>

definition sim_timeout :: "simulation_config \<Rightarrow> i64 option" where
  "sim_timeout cfg =
     (if 0 < sint (sim_DurationSeconds cfg) then Some (sim_DurationSeconds cfg * 1000000000) else None)"

text \<open>The workers after the channel is closed and all have returned, and the sums each adds to.\<close>

definition sim_finish :: "(nat \<Rightarrow> randomness) \<Rightarrow> (nat \<Rightarrow> nat) \<Rightarrow> device_worker list \<Rightarrow> device_worker list" where
  "sim_finish G n ws = map (\<lambda>i. run_rounds (G i) (n i) (ws ! i)) [0..<length ws]"

definition sim_totals :: "device_worker list \<Rightarrow> i64 \<times> i64 \<times> i64" where
  "sim_totals ws = (sum_list (map dw_sentCount ws), sum_list (map dw_anomalyCount ws), sum_list (map dw_dupCount ws))"

text \<open>
  The loop at the end of \<open>main\<close>, on what its channels deliver: the number of reports before it
  returns, or \<open>None\<close> while it waits. A nil timeout channel delivers nothing.
\<close>

datatype sim_event = SimTick | SimTimeout | SimSignal

fun sim_wait :: "i64 option \<Rightarrow> sim_event list \<Rightarrow> nat option" where
  "sim_wait timeout [] = None"
| "sim_wait timeout (SimTick # es) = map_option Suc (sim_wait timeout es)"
| "sim_wait timeout (SimTimeout # es) = (if timeout = None then sim_wait timeout es else Some 0)"
| "sim_wait timeout (SimSignal # es) = Some 0"

text \<open>The whole program: the totals it prints at the end.\<close>

definition sim_main ::
    "broker \<Rightarrow> (simulation_config \<Rightarrow> simulation_config) \<Rightarrow> gotime \<Rightarrow> (nat \<Rightarrow> randomness) \<Rightarrow> (nat \<Rightarrow> nat) \<Rightarrow>
     sim_event list \<Rightarrow> (go_error + i64 \<times> i64 \<times> i64) option" where
  "sim_main B flags now G n es =
     (case sim_start B flags now of
        None \<Rightarrow> None
      | Some (Inl e) \<Rightarrow> Some (Inl e)
      | Some (Inr (cfg, client, ws)) \<Rightarrow>
          map_option (\<lambda>_. Inr (sim_totals (sim_finish G n ws))) (sim_wait (sim_timeout cfg) es))"

section \<open>The totals\<close>

lemma sim_finish_workers:
  assumes "w \<in> set (sim_finish G n (sim_workers cfg))"
  shows "\<exists>i. w = run_rounds (G i) (n i) (new_device_worker cfg i)"
  using assms by (auto simp: sim_finish_def sim_workers_def)

lemma sim_totals_published:
  assumes "\<And>w. w \<in> set ws \<Longrightarrow> sim_inv w" "sim_totals ws = (sent, anomalies, dup)"
  shows "sent + dup = of_nat (length (concat (map dw_published ws)))"
proof -
  have "sum_list (map dw_sentCount ws) + sum_list (map dw_dupCount ws) =
      of_nat (length (concat (map dw_published ws)))"
    using assms(1)
  proof (induction ws)
    case (Cons w ws)
    from Cons.prems have "dw_sentCount w + dw_dupCount w = of_nat (length (dw_published w))"
      by (simp add: sim_inv_def)
    with Cons show ?case by (simp add: algebra_simps)
  qed simp
  with assms(2) show ?thesis by (simp add: sim_totals_def)
qed

lemma sim_run_totals:
  assumes "sim_totals (sim_finish G n (sim_workers cfg)) = (sent, anomalies, dup)"
  shows "sent + dup = of_nat (length (concat (map dw_published (sim_finish G n (sim_workers cfg)))))"
  using sim_totals_published [OF _ assms] sim_finish_workers run_rounds_inv [OF sim_inv_new] by metis

text \<open>
  The program ends by itself only with a duration, or by a signal; the messages sent and repeated
  that it then prints are those its workers have published.
\<close>

lemma sim_wait_iff:
  "sim_wait timeout es \<noteq> None \<longleftrightarrow> SimSignal \<in> set es \<or> timeout \<noteq> None \<and> SimTimeout \<in> set es"
proof (induction es)
  case (Cons e es)
  then show ?case by (cases e) auto
qed simp

lemma sim_main_totals:
  assumes "sim_main B flags now G n es = Some (Inr (sent, anomalies, dup))"
  shows "sent + dup = of_nat (length (concat (map dw_published (sim_finish G n (sim_workers (flags sim_defaults)))))) \<and>
    (SimSignal \<in> set es \<or> 0 < sint (sim_DurationSeconds (flags sim_defaults)) \<and> SimTimeout \<in> set es)"
proof -
  from assms obtain client where
    "sim_totals (sim_finish G n (sim_workers (flags sim_defaults))) = (sent, anomalies, dup)"
    "sim_wait (sim_timeout (flags sim_defaults)) es \<noteq> None"
    by (auto simp: sim_main_def sim_start_def Let_def split: option.splits sum.splits if_splits)
  with sim_run_totals show ?thesis
    unfolding sim_wait_iff by (auto simp: sim_timeout_def split: if_splits)
qed

end
