(* ===== verification/GoUrl.thy ===== *)
theory GoUrl
  imports GoStrings
begin

text \<open>
  \<open>url.Parse\<close> of Go 1.25.0, the version \<open>go.mod\<close> names, as far as the sources read its result:
  whether it fails, the scheme (in lower case) and the host. Paths, users and fragments are
  checked for their percent escapes, which can make the call fail, and dropped.
\<close>

section \<open>Characters and escapes\<close>

definition is_letter :: "char \<Rightarrow> bool" where
  "is_letter c \<longleftrightarrow> (let n = (of_char c :: nat) in 65 \<le> n \<and> n \<le> 90 \<or> 97 \<le> n \<and> n \<le> 122)"

definition is_ctl :: "char \<Rightarrow> bool" where
  "is_ctl c \<longleftrightarrow> (let n = (of_char c :: nat) in n < 32 \<or> n = 127)"

definition hex_value :: "char \<Rightarrow> nat option" where
  "hex_value c =
     (let n = (of_char c :: nat) in
      if 48 \<le> n \<and> n \<le> 57 then Some (n - 48)
      else if 97 \<le> n \<and> n \<le> 102 then Some (n - 87)
      else if 65 \<le> n \<and> n \<le> 70 then Some (n - 55)
      else None)"

text \<open>The ASCII bytes that may stand in a host unescaped: \<open>shouldEscape\<close> in the mode of hosts.\<close>

definition host_char :: "char \<Rightarrow> bool" where
  "host_char c \<longleftrightarrow>
     is_letter c \<or> is_digit c \<or> c \<in> set ''!$&()*+,;=:[]<>-_.~'' \<or> (of_char c :: nat) \<in> {34, 39}"

text \<open>\<open>unescape\<close> in the modes whose result is dropped: every percent sign needs two hex digits.\<close>

fun escapes_ok :: "string \<Rightarrow> bool" where
  "escapes_ok [] = True"
| "escapes_ok (c # cs) =
     (if c = CHR ''%'' then
        (case cs of
           a # b # rest \<Rightarrow> hex_value a \<noteq> None \<and> hex_value b \<noteq> None \<and> escapes_ok rest
         | _ \<Rightarrow> False)
      else escapes_ok cs)"

text \<open>\<open>unescape\<close> of a host (or, with \<open>zone\<close>, of a zone identifier).\<close>

fun unescape_host :: "bool \<Rightarrow> string \<Rightarrow> string option" where
  "unescape_host zone [] = Some []"
| "unescape_host zone (c # cs) =
     (if c = CHR ''%'' then
        (case cs of
           a # b # rest \<Rightarrow>
             (case (hex_value a, hex_value b) of
                (Some h, Some l) \<Rightarrow>
                  (let v = char_of (16 * h + l); pct25 = (a = CHR ''2'' \<and> b = CHR ''5'') in
                   if \<not> pct25 \<and> (if zone then v \<noteq> CHR '' '' \<and> \<not> host_char v else h < 8)
                   then None
                   else map_option ((#) v) (unescape_host zone rest))
              | _ \<Rightarrow> None)
         | _ \<Rightarrow> None)
      else if (of_char c :: nat) < 128 \<and> \<not> host_char c then None
      else map_option ((#) c) (unescape_host zone cs))"

section \<open>Authority\<close>

definition before_last :: "char \<Rightarrow> string \<Rightarrow> string" where
  "before_last c s = rev (drop 1 (dropWhile (\<lambda>x. x \<noteq> c) (rev s)))"

definition after_last :: "char \<Rightarrow> string \<Rightarrow> string" where
  "after_last c s = rev (takeWhile (\<lambda>x. x \<noteq> c) (rev s))"

definition valid_optional_port :: "string \<Rightarrow> bool" where
  "valid_optional_port p \<longleftrightarrow>
     (case p of [] \<Rightarrow> True | c # ds \<Rightarrow> c = CHR '':'' \<and> list_all is_digit ds)"

text \<open>The position of the zone of an IPv6 literal, the first \<open>%25\<close>.\<close>

fun cut_zone :: "string \<Rightarrow> (string \<times> string) option" where
  "cut_zone [] = None"
| "cut_zone (c # cs) =
     (if has_prefix (c # cs) ''%25'' then Some ([], c # cs)
      else map_option (\<lambda>(a, b). (c # a, b)) (cut_zone cs))"

definition parse_host :: "string \<Rightarrow> string option" where
  "parse_host host =
     (if has_prefix host ''['' then
        (if CHR '']'' \<notin> set host then None
         else
           (let inner = before_last CHR '']'' host; port = after_last CHR '']'' host in
            if \<not> valid_optional_port port then None
            else
              (case cut_zone inner of
                 Some (addr, zone) \<Rightarrow>
                   (case (unescape_host False addr, unescape_host True zone, unescape_host False (CHR '']'' # port)) of
                      (Some a, Some z, Some p) \<Rightarrow> Some (a @ z @ p)
                    | _ \<Rightarrow> None)
               | None \<Rightarrow> unescape_host False host)))
      else if CHR '':'' \<in> set host \<and> \<not> valid_optional_port (CHR '':'' # after_last CHR '':'' host) then None
      else unescape_host False host)"

definition userinfo_char :: "char \<Rightarrow> bool" where
  "userinfo_char c \<longleftrightarrow>
     is_letter c \<or> is_digit c \<or> c \<in> set ''-._:~!$&()*+,;=%@'' \<or> (of_char c :: nat) = 39"

definition parse_authority :: "string \<Rightarrow> string option" where
  "parse_authority authority =
     (if CHR ''@'' \<notin> set authority then parse_host authority
      else
        (case parse_host (after_last CHR ''@'' authority) of
           None \<Rightarrow> None
         | Some host \<Rightarrow>
             (let userinfo = before_last CHR ''@'' authority in
              if list_all userinfo_char userinfo \<and>
                 list_all escapes_ok (case split_on CHR '':'' userinfo of p # ps \<Rightarrow> [p, join_with '':'' ps])
              then Some host else None)))"

section \<open>The whole address\<close>

text \<open>\<open>getScheme\<close>: the scheme and the rest, or an error for a leading colon.\<close>

fun get_scheme :: "string \<Rightarrow> string \<Rightarrow> string \<Rightarrow> (string \<times> string) option" where
  "get_scheme raw acc [] = Some ([], raw)"
| "get_scheme raw acc (c # cs) =
     (if is_letter c then get_scheme raw (acc @ [c]) cs
      else if is_digit c \<or> c \<in> set ''+-.''
      then (if acc = [] then Some ([], raw) else get_scheme raw (acc @ [c]) cs)
      else if c = CHR '':'' then (if acc = [] then None else Some (acc, cs))
      else Some ([], raw))"

definition before_first :: "char \<Rightarrow> string \<Rightarrow> string" where
  "before_first c s = takeWhile (\<lambda>x. x \<noteq> c) s"

definition url_parse :: "string \<Rightarrow> (string \<times> string) option" where
  "url_parse raw =
     (let u = before_first CHR ''#'' raw; frag = drop (Suc (length u)) raw in
      if list_ex is_ctl u then None
      else if \<not> escapes_ok frag then None
      else if u = ''*'' then Some ([], [])
      else
        (case get_scheme u [] u of
           None \<Rightarrow> None
         | Some (scheme0, rest0) \<Rightarrow>
             (let scheme = to_lower scheme0; rest = before_first CHR ''?'' rest0 in
              if \<not> has_prefix rest ''/'' \<and> scheme \<noteq> [] then Some (scheme, [])
              else if \<not> has_prefix rest ''/'' \<and> CHR '':'' \<in> set (before_first CHR ''/'' rest) then None
              else if has_prefix rest ''//'' \<and> (scheme \<noteq> [] \<or> \<not> has_prefix rest ''///'') then
                (let authority = before_first CHR ''/'' (drop 2 rest) in
                 case parse_authority authority of
                   None \<Rightarrow> None
                 | Some host \<Rightarrow>
                     if escapes_ok (drop (2 + length authority) rest) then Some (scheme, host) else None)
              else if escapes_ok rest then Some (scheme, []) else None)))"

section \<open>Plain hosts\<close>

text \<open>A host name or an IPv4 address, with an optional port.\<close>

definition host_name_char :: "char \<Rightarrow> bool" where
  "host_name_char c \<longleftrightarrow> is_letter c \<or> is_digit c \<or> c = CHR ''-'' \<or> c = CHR ''.''"

definition plain_host :: "string \<Rightarrow> bool" where
  "plain_host s \<longleftrightarrow>
     (\<exists>name port. s = name @ port \<and> name \<noteq> [] \<and> list_all host_name_char name \<and> valid_optional_port port)"

lemma host_name_char_not:
  assumes "host_name_char c"
  shows "c \<noteq> CHR '':''" "c \<noteq> CHR ''/''" "c \<noteq> CHR ''?''" "c \<noteq> CHR ''#''" "c \<noteq> CHR ''%''" "c \<noteq> CHR ''@''"
    "c \<noteq> CHR ''[''" "c \<noteq> CHR ''*''" "\<not> is_ctl c" "\<not> is_space c" "host_char c"
  using assms by (auto simp: host_name_char_def is_letter_def is_digit_def is_ctl_def is_space_def host_char_def Let_def)

lemma is_digit_not:
  assumes "is_digit c"
  shows "c \<noteq> CHR '':''" "c \<noteq> CHR ''/''" "c \<noteq> CHR ''?''" "c \<noteq> CHR ''#''" "c \<noteq> CHR ''%''" "c \<noteq> CHR ''@''"
    "c \<noteq> CHR ''[''" "c \<noteq> CHR ''*''" "\<not> is_ctl c" "\<not> is_space c" "host_char c"
  using assms by (auto simp: is_digit_def is_ctl_def is_space_def host_char_def Let_def)

lemma plain_host_chars:
  assumes "plain_host s" "c \<in> set s"
  shows "host_name_char c \<or> is_digit c \<or> c = CHR '':''"
proof -
  from assms(1) obtain name port where s: "s = name @ port" "list_all host_name_char name" "valid_optional_port port"
    by (auto simp: plain_host_def)
  show ?thesis using assms(2) s by (cases port) (auto simp: valid_optional_port_def list_all_iff)
qed

lemma colon_host_char: "host_char CHR '':''" "\<not> is_ctl CHR '':''" "\<not> is_space CHR '':''"
  by (simp_all add: host_char_def is_ctl_def is_space_def)

lemma plain_host_no:
  assumes "plain_host s"
  shows "CHR ''/'' \<notin> set s" "CHR ''?'' \<notin> set s" "CHR ''#'' \<notin> set s" "CHR ''@'' \<notin> set s"
    "\<forall>c \<in> set s. \<not> is_ctl c" "\<forall>c \<in> set s. \<not> is_space c" "\<forall>c \<in> set s. host_char c \<and> c \<noteq> CHR ''%''" "s \<noteq> []"
    "\<not> has_prefix s ''[''"
proof -
  have chars: "c \<noteq> CHR ''/'' \<and> c \<noteq> CHR ''?'' \<and> c \<noteq> CHR ''#'' \<and> c \<noteq> CHR ''@'' \<and> c \<noteq> CHR ''%'' \<and>
      c \<noteq> CHR ''['' \<and> \<not> is_ctl c \<and> \<not> is_space c \<and> host_char c" if "c \<in> set s" for c
    using plain_host_chars [OF assms that]
  proof (elim disjE)
    assume "host_name_char c" from host_name_char_not [OF this] show ?thesis by blast
  next
    assume "is_digit c" from is_digit_not [OF this] show ?thesis by blast
  next
    assume "c = CHR '':''" then show ?thesis using colon_host_char by auto
  qed
  then show "CHR ''/'' \<notin> set s" "CHR ''?'' \<notin> set s" "CHR ''#'' \<notin> set s" "CHR ''@'' \<notin> set s"
    "\<forall>c \<in> set s. \<not> is_ctl c" "\<forall>c \<in> set s. \<not> is_space c" "\<forall>c \<in> set s. host_char c \<and> c \<noteq> CHR ''%''" by blast+
  show "s \<noteq> []" using assms by (auto simp: plain_host_def)
  then show "\<not> has_prefix s ''[''" using chars [of "hd s"] by (cases s) (auto simp: has_prefix_def)
qed

lemma unescape_host_id:
  "\<forall>c \<in> set s. host_char c \<and> c \<noteq> CHR ''%'' \<Longrightarrow> unescape_host z s = Some s"
  by (induction s) auto

lemma parse_host_plain:
  assumes "plain_host s"
  shows "parse_host s = Some s"
proof -
  from assms obtain name port where s: "s = name @ port" "list_all host_name_char name" "valid_optional_port port"
    by (auto simp: plain_host_def)
  have name: "CHR '':'' \<notin> set name" using s(2) host_name_char_not(1) by (auto simp: list_all_iff)
  have "valid_optional_port (CHR '':'' # after_last CHR '':'' s)" if "CHR '':'' \<in> set s"
  proof -
    from that name s obtain ds where ds: "port = CHR '':'' # ds" "list_all is_digit ds"
      by (auto simp: valid_optional_port_def split: list.splits)
    then have "CHR '':'' \<notin> set ds" using is_digit_not(1) by (auto simp: list_all_iff)
    then have "takeWhile (\<lambda>x. x \<noteq> CHR '':'') (rev ds @ CHR '':'' # rev name) = rev ds"
      by (intro takeWhile_dropWhile_notin) simp
    then have "after_last CHR '':'' s = ds" by (simp add: after_last_def s(1) ds(1))
    with ds(2) show ?thesis by (simp add: valid_optional_port_def)
  qed
  with plain_host_no [OF assms] unescape_host_id [of s False] show ?thesis by (auto simp: parse_host_def)
qed

lemma get_scheme_letters:
  "\<forall>c \<in> set s. is_letter c \<Longrightarrow> acc @ s \<noteq> [] \<Longrightarrow> get_scheme raw acc (s @ CHR '':'' # r) = Some (acc @ s, r)"
proof (induction s arbitrary: acc)
  case Nil
  then show ?case by (simp add: is_letter_def is_digit_def)
next
  case (Cons c s)
  then show ?case using Cons.IH [of "acc @ [c]"] by simp
qed

lemma url_parse_plain:
  assumes "plain_host h" "\<forall>c \<in> set s. is_letter c" "s \<noteq> []"
  shows "url_parse (s @ ''://'' @ h) = Some (to_lower s, h)"
proof -
  note no = plain_host_no [OF assms(1)]
  have letters: "c \<noteq> CHR ''#'' \<and> \<not> is_ctl c" if "c \<in> set s" for c
    using assms(2) that by (auto simp: is_letter_def is_ctl_def Let_def)
  have u: "before_first CHR ''#'' (s @ ''://'' @ h) = s @ ''://'' @ h"
    unfolding before_first_def using letters no(3) by (intro takeWhile_eq_all_conv [THEN iffD2]) auto
  have ctl: "\<not> list_ex is_ctl (s @ ''://'' @ h)"
    using letters no(5) by (auto simp: list_ex_iff is_ctl_def)
  have sch: "get_scheme (s @ ''://'' @ h) [] (s @ ''://'' @ h) = Some (s, ''//'' @ h)"
    using get_scheme_letters [of s "[]" "s @ ''://'' @ h" "''//'' @ h"] assms(2,3) by simp
  have rest: "before_first CHR ''?'' (''//'' @ h) = ''//'' @ h" "before_first CHR ''/'' h = h"
    unfolding before_first_def using no(1,2) by (auto intro!: takeWhile_eq_all_conv [THEN iffD2])
  have "s @ ''://'' @ h \<noteq> ''*''" using assms(3) by (cases s) auto
  moreover have "parse_authority h = Some h" using no(4) parse_host_plain [OF assms(1)] by (simp add: parse_authority_def)
  moreover have "to_lower s \<noteq> []" using assms(3) by (simp add: to_lower_def)
  ultimately show ?thesis
    using u ctl sch rest by (simp add: url_parse_def Let_def has_prefix_def)
qed

text \<open>Without a slash there is no host.\<close>

lemma get_scheme_rest: "get_scheme raw acc s = Some (p, r) \<Longrightarrow> set s \<subseteq> set raw \<Longrightarrow> set r \<subseteq> set raw"
  by (induction raw acc s rule: get_scheme.induct) (auto split: if_splits)

lemma url_parse_no_slash:
  assumes "CHR ''/'' \<notin> set raw" "url_parse raw = Some (s, h)"
  shows "h = []"
proof -
  let ?u = "before_first CHR ''#'' raw"
  have u: "set ?u \<subseteq> set raw" by (auto simp: before_first_def dest: set_takeWhileD)
  have no: "\<not> has_prefix (before_first CHR ''?'' r) ''/''" if "get_scheme ?u [] ?u = Some (p, r)" for p r
  proof
    assume "has_prefix (before_first CHR ''?'' r) ''/''"
    then have "CHR ''/'' \<in> set (before_first CHR ''?'' r)" by (auto elim!: has_prefixE)
    then have "CHR ''/'' \<in> set r" by (auto simp: before_first_def dest: set_takeWhileD)
    with get_scheme_rest [OF that] u assms(1) show False by blast
  qed
  have no2: "\<not> has_prefix (before_first CHR ''?'' r) ''//''" if "get_scheme ?u [] ?u = Some (p, r)" for p r
    using no [OF that] has_prefix_append_left [of "before_first CHR ''?'' r" "''/''" "''/''"] by auto
  from assms(2) no no2 show ?thesis
    by (auto simp: url_parse_def Let_def split: if_splits option.splits)
qed

end
