(* ===== verification/Tracing.thy ===== *)
theory Tracing
  imports GoUrl Environment
begin

text \<open>
  \<open>internal/otel\<close>: when spans are exported and where to. The OpenTelemetry SDK is the parameter
  \<open>otel_sdk\<close>; the package variables \<open>tracer\<close> and \<open>tracerProvider\<close> are the state, and the
  provider set with \<open>otel.SetTracerProvider\<close> is always the one of \<open>tracerProvider\<close>. The
  parameter \<open>environ\<close> is \<open>os.Getenv\<close>, empty for a variable that is not set.
\<close>

section \<open>The SDK\<close>

record exporter_options =
  eo_Endpoint :: string
  eo_URLPath :: string
  eo_Headers :: "(string \<times> string) list"
  eo_Gzip :: bool
  eo_Insecure :: bool

text \<open>The batch processor: queue size, largest batch and timeout in nanoseconds.\<close>

record processor_options =
  po_MaxQueueSize :: int
  po_MaxExportBatchSize :: int
  po_ExportTimeout :: int

record ('t, 'p, 'e, 's) otel_sdk =
  sdk_Tracer :: "'p option \<Rightarrow> string \<Rightarrow> 't"
  sdk_exporter :: "exporter_options \<Rightarrow> go_error + 'e"
  sdk_resource :: "string \<Rightarrow> go_error + 's"
  sdk_provider :: "'s \<Rightarrow> 'e \<Rightarrow> processor_options \<Rightarrow> 'p"
  sdk_simple :: 'p
  sdk_shutdown :: "'p \<Rightarrow> go_error option"

record ('t, 'p) tracing =
  tr_tracer :: "'t option"
  tr_provider :: "'p option"

section \<open>Start and stop\<close>

definition otelEnabled :: "(string \<Rightarrow> string) \<Rightarrow> bool" where
  "otelEnabled environ =
     (let v = trim_space (environ ''OTEL_ENABLED'') in
      if v = '''' then False
      else to_lower v \<in> {''1'', ''true'', ''yes'', ''y'', ''on''})"

definition trim_suffix :: "string \<Rightarrow> string \<Rightarrow> string" where
  "trim_suffix s p = (if has_prefix (rev s) (rev p) then take (length s - length p) s else s)"

text \<open>The endpoint without its scheme, and whether the connection is unencrypted.\<close>

definition normalize_endpoint :: "(string \<Rightarrow> string) \<Rightarrow> string \<times> bool" where
  "normalize_endpoint environ =
     (let e0 = trim_space (environ ''OTEL_EXPORTER_OTLP_ENDPOINT'');
          e1 = (if e0 = '''' then ''https://api.uptrace.dev'' else e0);
          endpoint = trim_space (trim_suffix e1 ''/'') in
      case url_parse endpoint of
        Some (scheme, host) \<Rightarrow>
          if host \<noteq> '''' then (host, to_lower scheme = ''http'')
          else (trim_prefix (trim_prefix endpoint ''https://'') ''http://'', False)
      | None \<Rightarrow> (trim_prefix (trim_prefix endpoint ''https://'') ''http://'', False))"

definition exporter_of :: "(string \<Rightarrow> string) \<Rightarrow> string \<Rightarrow> exporter_options" where
  "exporter_of environ uptraceDSN =
     (let (endpoint, insecure) = normalize_endpoint environ in
      \<lparr>eo_Endpoint = endpoint, eo_URLPath = ''/v1/traces'', eo_Headers = [(''uptrace-dsn'', uptraceDSN)],
       eo_Gzip = True, eo_Insecure = insecure\<rparr>)"

definition InitTracing ::
    "('t, 'p, 'e, 's) otel_sdk \<Rightarrow> (string \<Rightarrow> string) \<Rightarrow> string \<Rightarrow> ('t, 'p) tracing \<Rightarrow>
     go_error option \<times> ('t, 'p) tracing" where
  "InitTracing K environ serviceName st =
     (let plain = st\<lparr>tr_tracer := Some (sdk_Tracer K (tr_provider st) serviceName)\<rparr>;
          uptraceDSN = trim_space (environ ''UPTRACE_DSN'') in
      if \<not> otelEnabled environ then (None, plain)
      else if tr_provider st \<noteq> None then (None, plain)
      else if uptraceDSN = '''' then (None, plain)
      else
        (case sdk_exporter K (exporter_of environ uptraceDSN) of
           Inl e \<Rightarrow> (Some (ErrWrap ''init otlp trace exporter'' e), st)
         | Inr xp \<Rightarrow>
             (case sdk_resource K serviceName of
                Inl e \<Rightarrow> (Some (ErrWrap ''init otel resource'' e), st)
              | Inr res \<Rightarrow>
                  (let tp = sdk_provider K res xp \<lparr>po_MaxQueueSize = 10000, po_MaxExportBatchSize = 10000,
                         po_ExportTimeout = 10 * 1000000000\<rparr> in
                   (None, \<lparr>tr_tracer = Some (sdk_Tracer K (Some tp) serviceName), tr_provider = Some tp\<rparr>)))))"

definition GetTracer :: "('t, 'p, 'e, 's) otel_sdk \<Rightarrow> ('t, 'p) tracing \<Rightarrow> 't \<times> ('t, 'p) tracing" where
  "GetTracer K st =
     (case tr_tracer st of
        Some t \<Rightarrow> (t, st)
      | None \<Rightarrow>
          (let t = sdk_Tracer K (tr_provider st) ''fieldpulse-default'' in (t, st\<lparr>tr_tracer := Some t\<rparr>)))"

definition ShutdownTracing :: "('t, 'p, 'e, 's) otel_sdk \<Rightarrow> ('t, 'p) tracing \<Rightarrow> go_error option" where
  "ShutdownTracing K st = (case tr_provider st of None \<Rightarrow> None | Some tp \<Rightarrow> sdk_shutdown K tp)"

section \<open>Spans\<close>

datatype attribute = AString string | AFloat float64

record 't span =
  sp_tracer :: 't
  sp_name :: string
  sp_attributes :: "(string \<times> attribute) list"

definition start_span ::
    "('t, 'p, 'e, 's) otel_sdk \<Rightarrow> string \<Rightarrow> (string \<times> attribute) list \<Rightarrow> ('t, 'p) tracing \<Rightarrow>
     't span \<times> ('t, 'p) tracing" where
  "start_span K name attrs st =
     (let (t, st1) = GetTracer K st in (\<lparr>sp_tracer = t, sp_name = name, sp_attributes = attrs\<rparr>, st1))"

definition TraceDeviceCreate ::
    "('t, 'p, 'e, 's) otel_sdk \<Rightarrow> string \<Rightarrow> ('t, 'p) tracing \<Rightarrow> 't span \<times> ('t, 'p) tracing" where
  "TraceDeviceCreate K deviceID = start_span K ''device.create'' [(''device.id'', AString deviceID)]"

definition TraceTelemetrySubmit ::
    "('t, 'p, 'e, 's) otel_sdk \<Rightarrow> string \<Rightarrow> string \<Rightarrow> float64 \<Rightarrow> ('t, 'p) tracing \<Rightarrow>
     't span \<times> ('t, 'p) tracing" where
  "TraceTelemetrySubmit K deviceID metricName value = start_span K ''telemetry.submit''
     [(''device.id'', AString deviceID), (''metric.name'', AString metricName), (''metric.value'', AFloat value)]"

definition TraceAlertEvaluation ::
    "('t, 'p, 'e, 's) otel_sdk \<Rightarrow> string \<Rightarrow> string \<Rightarrow> ('t, 'p) tracing \<Rightarrow> 't span \<times> ('t, 'p) tracing" where
  "TraceAlertEvaluation K deviceID metricName = start_span K ''alert.evaluate''
     [(''device.id'', AString deviceID), (''metric.name'', AString metricName)]"

definition TraceAlertFire ::
    "('t, 'p, 'e, 's) otel_sdk \<Rightarrow> string \<Rightarrow> string \<Rightarrow> string \<Rightarrow> ('t, 'p) tracing \<Rightarrow>
     't span \<times> ('t, 'p) tracing" where
  "TraceAlertFire K deviceID metricName severity = start_span K ''alert.fire''
     [(''device.id'', AString deviceID), (''metric.name'', AString metricName), (''severity'', AString severity)]"

definition TraceConnectorForward ::
    "('t, 'p, 'e, 's) otel_sdk \<Rightarrow> string \<Rightarrow> string \<Rightarrow> string \<Rightarrow> string \<Rightarrow> ('t, 'p) tracing \<Rightarrow>
     't span \<times> ('t, 'p) tracing" where
  "TraceConnectorForward K brokerName topic deviceID metricName = start_span K ''connector.forward''
     [(''broker.name'', AString brokerName), (''topic'', AString topic), (''device.id'', AString deviceID),
      (''metric.name'', AString metricName)]"

section \<open>The simple provider\<close>

text \<open>\<open>jaeger_exporter.go\<close>: its variable \<open>globalTracerProvider\<close> is not the one of \<open>tracing.go\<close>.\<close>

definition InitSimpleTracerProvider ::
    "('t, 'p, 'e, 's) otel_sdk \<Rightarrow> 'p option \<Rightarrow> (go_error + 'p) \<times> 'p option" where
  "InitSimpleTracerProvider K g = (let tp = sdk_simple K in (Inr tp, Some tp))"

definition GetGlobalTracerProvider :: "('t, 'p, 'e, 's) otel_sdk \<Rightarrow> 'p option \<Rightarrow> 'p" where
  "GetGlobalTracerProvider K g = (case g of Some tp \<Rightarrow> tp | None \<Rightarrow> sdk_simple K)"

definition ShutdownTracerProvider :: "('t, 'p, 'e, 's) otel_sdk \<Rightarrow> 'p option \<Rightarrow> go_error option" where
  "ShutdownTracerProvider K g = (case g of Some tp \<Rightarrow> sdk_shutdown K tp | None \<Rightarrow> None)"

definition SetGlobalTracerProvider :: "'p option \<Rightarrow> 'p option" where
  "SetGlobalTracerProvider tp = tp"

definition UptraceConfig :: "string \<rightharpoonup> string" where
  "UptraceConfig = [''endpoint'' \<mapsto> ''https://api.uptrace.dev'', ''dsn'' \<mapsto> ''your-dsn-here'']"

section \<open>What the tracing does to a service\<close>

lemma trim_space_id:
  assumes "s \<noteq> []" "\<not> is_space (hd s)" "\<not> is_space (last s)"
  shows "trim_space s = s"
proof -
  have "dropWhile is_space s = s" using assms(1,2) by (cases s) simp_all
  moreover have "dropWhile is_space (rev s) = rev s" using assms(1,3) by (cases s rule: rev_cases) simp_all
  ultimately show ?thesis by (simp add: trim_space_def)
qed

lemma trim_suffix_append [simp]: "trim_suffix (s @ p) p = s"
  by (simp add: trim_suffix_def has_prefix_def)

lemma trim_suffix_id: "s \<noteq> [] \<Longrightarrow> last s \<noteq> c \<Longrightarrow> trim_suffix s [c] = s"
  by (cases s rule: rev_cases) (simp_all add: trim_suffix_def has_prefix_def)

text \<open>Without \<open>OTEL_ENABLED\<close> or without a DSN nothing is exported and nothing fails.\<close>

lemma InitTracing_no_export:
  assumes "\<not> otelEnabled environ \<or> trim_space (environ ''UPTRACE_DSN'') = ''''"
  shows "fst (InitTracing K environ service st) = None"
    "tr_provider (snd (InitTracing K environ service st)) = tr_provider st"
  using assms by (auto simp: InitTracing_def Let_def)

text \<open>A provider once made is kept by every later call, whatever its outcome.\<close>

lemma InitTracing_keeps_provider:
  "tr_provider st \<noteq> None \<Longrightarrow> InitTracing K environ service st = (r, st') \<Longrightarrow>
   r = None \<and> tr_provider st' = tr_provider st"
  by (auto simp: InitTracing_def Let_def split: if_splits)

text \<open>A failed start leaves the state as it was, so that a span uses the default tracer.\<close>

lemma InitTracing_error: "InitTracing K environ service st = (Some e, st') \<Longrightarrow> st' = st"
  by (auto simp: InitTracing_def Let_def split: if_splits sum.splits)

lemma GetTracer_stable:
  "GetTracer K st = (t, st') \<Longrightarrow> tr_tracer st' = Some t \<and> GetTracer K st' = (t, st')"
  by (auto simp: GetTracer_def Let_def split: option.splits)

text \<open>The endpoint of an address with a scheme, and of one without.\<close>

lemma plain_ends:
  assumes "plain_host h"
  shows "h \<noteq> []" "\<not> is_space (hd h)" "\<not> is_space (last h)" "last h \<noteq> CHR ''/''"
proof -
  note no = plain_host_no [OF assms]
  show "h \<noteq> []" by (rule no(8))
  then have "hd h \<in> set h" "last h \<in> set h" by simp_all
  with no(1,6) show "\<not> is_space (hd h)" "\<not> is_space (last h)" "last h \<noteq> CHR ''/''" by auto
qed

lemma normalize_with_scheme:
  assumes "plain_host h" "\<forall>c \<in> set s. is_letter c" "s \<noteq> []"
    "environ ''OTEL_EXPORTER_OTLP_ENDPOINT'' \<in> {s @ ''://'' @ h, s @ ''://'' @ h @ ''/''}"
  shows "normalize_endpoint environ = (h, to_lower (to_lower s) = ''http'')"
proof -
  let ?u = "s @ ''://'' @ h"
  note ends = plain_ends [OF assms(1)]
  have "is_letter (hd s)" using assms(2,3) by simp
  then have hd: "\<not> is_space (hd s)" by (auto simp: is_letter_def is_space_def Let_def)
  have trim: "trim_space ?u = ?u" "trim_space (?u @ ''/'') = ?u @ ''/''"
    using assms(3) hd ends by (auto intro!: trim_space_id simp: is_space_def)
  have cut: "trim_suffix ?u ''/'' = ?u" "trim_suffix (?u @ ''/'') ''/'' = ?u"
    using ends(1,4) trim_suffix_id [of ?u "CHR ''/''"] trim_suffix_append [of ?u "''/''"] by simp_all
  let ?e = "trim_space (environ ''OTEL_EXPORTER_OTLP_ENDPOINT'')"
  have "?e = ?u \<or> ?e = ?u @ ''/''" using assms(4) trim by auto
  then have env: "?e \<noteq> ''''" "trim_space (trim_suffix ?e ''/'') = ?u"
  proof (atomize (full), elim disjE)
    assume "?e = ?u" with cut(1) trim(1) assms(3) show "?e \<noteq> '''' \<and> trim_space (trim_suffix ?e ''/'') = ?u"
      by (simp only:) simp
  next
    assume "?e = ?u @ ''/''" with cut(2) trim(1) show "?e \<noteq> '''' \<and> trim_space (trim_suffix ?e ''/'') = ?u"
      by (simp only:) simp
  qed
  have "normalize_endpoint environ =
      (case url_parse ?u of Some (scheme, host) \<Rightarrow>
         if host \<noteq> '''' then (host, to_lower scheme = ''http'')
         else (trim_prefix (trim_prefix ?u ''https://'') ''http://'', False)
       | None \<Rightarrow> (trim_prefix (trim_prefix ?u ''https://'') ''http://'', False))"
    unfolding normalize_endpoint_def Let_def if_not_P [OF env(1)] env(2) by (rule refl)
  then show ?thesis using url_parse_plain [OF assms(1-3)] ends(1) by simp
qed

lemma normalize_plain:
  assumes "plain_host h" "environ ''OTEL_EXPORTER_OTLP_ENDPOINT'' = h"
  shows "normalize_endpoint environ = (h, False)"
proof -
  note ends = plain_ends [OF assms(1)] and no = plain_host_no [OF assms(1)]
  have "\<not> has_prefix h ''https://''" "\<not> has_prefix h ''http://''"
    using no(1) by (auto elim!: has_prefixE)
  then have "trim_prefix (trim_prefix h ''https://'') ''http://'' = h" by (simp add: trim_prefix_def)
  moreover have "trim_space h = h" "trim_suffix h ''/'' = h"
    using ends trim_space_id [of h] trim_suffix_id [of h "CHR ''/''"] by simp_all
  ultimately show ?thesis
    using assms(2) ends(1) url_parse_no_slash [OF no(1)]
    by (auto simp: normalize_endpoint_def Let_def split: option.splits)
qed

end
