(* ===== verification/TelemetryProperties.thy ===== *)
theory TelemetryProperties
  imports Example
begin

text \<open>
  The properties of the telemetry service: what an acknowledgement means with and without the
  write queue, duplicates, queries, and the caches. Each is a claim over the definitions of the
  components, followed by an instance on the deployment of \<open>Example\<close>.
\<close>

section \<open>Acknowledgements\<close>







section \<open>Duplicates\<close>




text \<open>The instance: the deployment in which the insert, the second external read, is canceled.\<close>

definition ex_fault_env :: "mem env" where
  "ex_fault_env = ex_env\<lparr>e_fault := (\<lambda>n. if n = 1 then Some ErrCanceled else None)\<rparr>"

lemma ex_fault_validate:
  "validateAndResolveMetricTimestamp ex_fault_env req w = validateAndResolveMetricTimestamp ex_env req w"
  by (simp add: validateAndResolveMetricTimestamp_def time_now_def ex_fault_env_def split: option.split)

lemma ex_fault_duplicate: "isDuplicate ex_fault_env d ts w = isDuplicate ex_env d ts w"
  by (simp add: isDuplicate_def TryMarkDedup_def ex_fault_env_def)

lemma ex_fault_prefix: "submit_prefix ex_fault_env req w = submit_prefix ex_env req w"
  by (simp add: submit_prefix_def ex_fault_validate ex_fault_duplicate split: prod.split sum.split)

lemma ex_fault_submit:
  "SubmitMetric ex_fault_env True ex_request ex_world =
     Some (Inl (insertFailureStatus (ErrWrap ''failed to insert metric'' ErrCanceled) False),
       ex_world\<lparr>w_tick := 2, w_redis := ex_mark\<rparr>)"
proof -
  have "e_fault ex_fault_env 1 = Some ErrCanceled" by (simp add: ex_fault_env_def)
  then show ?thesis by (simp add: SubmitMetric_def ex_fault_prefix ex_prefix InsertMetric_def ext_fault_def)
qed




section \<open>Timestamps\<close>

text \<open>
  C20. The check on a given timestamp. Below the bound at which the conversion wraps, a valid
  request is accepted exactly where its second is at most five seconds after the server's; from
  the bound on, where the second counts from year 1 overflow, every timestamp is accepted.
\<close>

theorem timestamp_check_exact:
  assumes "validateSubmitRequest req = None" "0 < sint (smr_TimestampUnixSeconds req)"
    "e_clock E (w_tick w) = GoTime s n" "n < 1000000000" "0 \<le> sint s" "sint s < 2 ^ 62"
  shows "(fst (validateAndResolveMetricTimestamp E req w) =
        Inr (time_unix (smr_TimestampUnixSeconds req))) \<longleftrightarrow>
    sint (smr_TimestampUnixSeconds req) + 62135596800 \<le> sint s + 5 \<or>
    2 ^ 63 \<le> sint (smr_TimestampUnixSeconds req) + 62135596800"
proof -
  let ?t = "smr_TimestampUnixSeconds req"
  have sum: "sint (?t + unix_to_internal) =
      (if sint ?t + 62135596800 < 2 ^ 63 then sint ?t + 62135596800 else sint ?t + 62135596800 - 2 ^ 64)"
  proof -
    have "?t + unix_to_internal = word_of_int (sint ?t + 62135596800)"
      by (simp add: unix_to_internal_def)
    then show ?thesis
      using assms(2) sint_i64_range [of ?t] sint_word_of_int_i64 [of "sint ?t + 62135596800"]
        sint_word_of_int_i64_wrap [of "sint ?t + 62135596800"] by simp
  qed
  have q: "(int n + 5000000000) div 1000000000 = 5" "nat ((int n + 5000000000) mod 1000000000) = n"
    using assms(4) int_div_pos_eq [of "int n + 5000000000" 1000000000 5 "int n"]
      int_mod_pos_eq [of "int n + 5000000000" 1000000000 5 "int n"] by simp_all
  have skew: "time_add (GoTime s n) futureTimestampSkew = GoTime (word_of_int (sint s + 5)) n"
    using q assms(5,6) by (simp add: time_add_def add_secs_def futureTimestampSkew_def seconds_def Let_def)
  have s5: "sint (word_of_int (sint s + 5) :: i64) = sint s + 5"
    using assms(5,6) by (intro sint_word_of_int_i64) simp

  have after: "time_after (time_unix ?t) (time_add (GoTime s n) futureTimestampSkew) \<longleftrightarrow>
      sint s + 5 < sint (?t + unix_to_internal)"
    unfolding skew using s5 by (auto simp: time_after_def time_before_def time_unix_def)
  have res: "validateAndResolveMetricTimestamp E req w =
      (if time_after (time_unix ?t) (time_add (GoTime s n) futureTimestampSkew)
       then Inl (ErrText ''future timestamps are not allowed (beyond 5s skew)'')
       else Inr (time_unix ?t), w\<lparr>w_tick := Suc (w_tick w)\<rparr>)"
    using assms(1-3) by (simp add: validateAndResolveMetricTimestamp_def time_now_def Let_def)
  show ?thesis unfolding res after sum using assms(2,5,6) sint_i64_range [of ?t] by auto
qed

theorem timestamp_check_exact_witness:
  "fst (validateAndResolveMetricTimestamp ex_env
     (ex_request\<lparr>smr_TimestampUnixSeconds := 9223372036854775807\<rparr>) ex_world) =
   Inr (time_unix 9223372036854775807)"
proof -
  let ?req = "ex_request\<lparr>smr_TimestampUnixSeconds := 9223372036854775807\<rparr>"
  have v: "validateSubmitRequest ?req = None"
    by (simp add: validateSubmitRequest_def ex_request_def isFinite_def f_1e308_def f_gt_def)
  have c: "e_clock ex_env (w_tick ex_world) = GoTime 63835596800 0" by (simp add: ex_clock_def)
  show ?thesis using timestamp_check_exact [OF v _ c] by simp
qed

section \<open>Queries\<close>


definition ex_query :: query_metrics_request where
  "ex_query = \<lparr>qmr_DeviceId = ''d1'', qmr_MetricName = ''temperature'', qmr_StartTime = Some ex_time,
     qmr_EndTime = Some (ex_clock 0), qmr_Limit = 0, qmr_Offset = 0, qmr_OrderAscending = True\<rparr>"

lemma ex_query_run:
  "\<exists>sent w'. QueryMetrics_handler ex_env ex_query ex_world1 = ((sent, None), w')"
  by (simp add: QueryMetrics_handler_def ex_query_def validateQueryRequest_def time_range_error_def
      opt_time_def as_time_def is_zero_time_def ex_time_def ex_clock_def time_before_def maxQueryLimit_def
      query_range_def QueryMetrics_def validateQueryFilter_def ext_fault_def no_nul_def
      QueryMetricsCount_def ex_send Let_def)


text \<open>
  \<open>HasMore\<close> within the range of \<open>int32\<close>: where offset and limit add up below \<open>2 ^ 31\<close> and
  fewer rows match, it says exactly whether rows follow the page, so that the page after a
  page without it is empty.
\<close>

lemma has_more_says_rows_follow:
  fixes rows :: "metric_row list"
  assumes "0 \<le> sint off" "0 \<le> sint n" "sint off + sint n < 2 ^ 31" "length rows < 2 ^ 31"
  shows "has_more off n (of_nat (length rows)) \<longleftrightarrow>
    window (nat (sint off) + nat (sint n)) (Suc 0) rows \<noteq> []"
  using has_more_exact [OF assms] by (auto simp: window_def)

text \<open>
  What is read back of a stored point: everything but its tags, which the encoding of the
  column loses.
\<close>

lemma stored_point_reads_back: "scanMetricPoint (row_of_point p) = p\<lparr>mp_Tags := []\<rparr>"
  by (simp add: scanMetricPoint_def row_of_point_def mapToJSON_def jsonToMap_def)

text \<open>
  C33. The statistics of a metric. The reported latest value and status are those of the row with
  the least time of the range, not of the greatest; first and last seen bound all rows, and the
  number of samples is their number.
\<close>

theorem stats_latest_is_oldest:
  assumes "GetMetricStats E d m a b w = (Inr s, w')"
  shows "let rows = stats_rows d m a b (w_metrics w) in
    (\<exists>r \<in> set rows. mr_Value r = ms_LatestValue s \<and> mr_Status r = ms_LatestStatus s \<and>
       mr_Time r = ms_FirstSeen s) \<and>
    (\<forall>r \<in> set rows. ms_FirstSeen s \<le> mr_Time r \<and> mr_Time r \<le> ms_LastSeen s) \<and>
    ms_TotalSamples s = of_nat (length rows) \<and> w_metrics w' = w_metrics w"
proof -
  let ?rows = "stats_rows d m a b (w_metrics w)"
  obtain r rs where rows: "sort_key mr_Time ?rows = r # rs"
    and s: "ms_LatestValue s = mr_Value r" "ms_LatestStatus s = mr_Status r" "ms_FirstSeen s = mr_Time r"
      "ms_LastSeen s = mr_Time (last (r # rs))" "ms_TotalSamples s = of_nat (length (r # rs))"
    using assms by (auto simp: GetMetricStats_def stats_query_def ext_fault_def Let_def
        split: sum.splits prod.splits option.splits list.splits if_splits)
  have set: "set ?rows = set (r # rs)" and len: "length ?rows = length (r # rs)"
    using set_sort [of mr_Time ?rows] length_sort [of mr_Time ?rows] by (simp_all only: rows)
  have sorted: "sorted (map mr_Time (r # rs))" using sorted_sort_key [of mr_Time ?rows] by (simp add: rows)
  have "mr_Time x \<le> mr_Time (last (r # rs))" if "x \<in> set (r # rs)" for x
  proof -
    from that obtain i where i: "i < length (r # rs)" "(r # rs) ! i = x" unfolding in_set_conv_nth by blast
    have "last (r # rs) = (r # rs) ! length rs" by (metis last_conv_nth diff_Suc_1 length_Cons list.discI)
    moreover have "map mr_Time (r # rs) ! i \<le> map mr_Time (r # rs) ! length rs"
      by (rule sorted_nth_mono [OF sorted]) (use i in simp_all)
    ultimately show ?thesis using i by (metis nth_map length_Cons lessI)
  qed
  moreover have "mr_Time r \<le> mr_Time x" if "x \<in> set (r # rs)" for x using sorted that by auto
  moreover have "w_metrics w' = w_metrics w"
    using same_dataD(1) [OF GetMetricStats_same_data [OF assms]] .
  ultimately show ?thesis using s set len by (auto simp: Let_def)
qed

theorem stats_latest_is_oldest_witness:
  "\<exists>s w'. GetMetricStats ex_env ''d1'' ''temperature'' ex_time (ex_clock 0) ex_world1 = (Inr s, w') \<and>
     ms_LatestValue s = Fin 35 \<and> ms_TotalSamples s = 1"
proof -
  have rows: "stats_rows ''d1'' ''temperature'' ex_time (ex_clock 0) (w_metrics ex_world1) = [row_of_point ex_point]"
    by (simp add: stats_rows_def ex_world1_def row_of_point_def less_gotime_def time_before_def ex_time_def
        ex_clock_def)
  have tick: "w_metrics (ex_world1\<lparr>w_tick := n\<rparr>) = w_metrics ex_world1" for n by simp
  obtain s w' where run: "GetMetricStats ex_env ''d1'' ''temperature'' ex_time (ex_clock 0) ex_world1 = (Inr s, w')"
    by (simp add: GetMetricStats_def stats_query_def ext_fault_def no_nul_def rows Let_def)
  from stats_latest_is_oldest [OF run] run show ?thesis
    by (simp add: rows Let_def row_of_point_def)
qed

text \<open>
  The aggregations a client can name: for every non-empty list of them the select clause
  built for the continuous aggregate is the text \<open>[]\<close>, since the names compared with are not
  those of the enum.
\<close>

lemma aggregation_select_is_empty:
  "ts \<noteq> [] \<Longrightarrow> buildAggregationSelect (aggregationTypesToStrings ts) = ''[]''"
proof -
  have none: "agg_clause (enum_string AggregationType_name t) = None" for t
  proof (cases "map_of AggregationType_name t")
    case None
    have "format_int (sint t) \<noteq> s" if "s \<in> {''AVG'', ''MAX'', ''MIN'', ''P95'', ''P99''}" for s
    proof
      assume "format_int (sint t) = s"
      with that have "hd s \<in> set (format_int (sint t))" by auto
      with format_int_char have "is_digit (hd s) \<or> hd s = CHR ''-''" by blast
      with that show False by (auto simp: is_digit_def)
    qed
    with None show ?thesis by (auto simp: agg_clause_def enum_string_def)
  next
    case (Some s)
    then have "s \<in> snd ` set AggregationType_name" by (force dest: map_of_SomeD)
    with Some show ?thesis by (auto simp: agg_clause_def enum_string_def AggregationType_name_def)
  qed
  have "List.map_filter agg_clause (map (enum_string AggregationType_name) ts) = []"
    using none by (simp add: List.map_filter_def)
  moreover assume "ts \<noteq> []"
  ultimately show ?thesis
    by (simp add: buildAggregationSelect_def aggregationTypesToStrings_def fmt_strings_def)
qed

section \<open>The worker\<close>

text \<open>
  C22. A Redis whose \<open>SCAN\<close> needs more than one page stops the store until the shutdown: once the
  worker has written a batch and entered its side effects it does not leave them: in every state reached
  later in which it was not told to stop it is still there, the jobs behind it are still queued, and it
  takes no further job.
\<close>

theorem paged_scan_stops_worker:
  assumes "(qstep E ev cap)\<^sup>*\<^sup>* s s'" "e_redis E = Some R" "paged_law R" "ps \<noteq> []"
    "qs_worker s = Effects ps" "\<not> qs_canceled s'"
  shows "qs_worker s' = Effects ps \<and> prefix (qs_queue s) (qs_queue s') \<and> worker_write E s' = None"
  using stuck_worker [OF assms] by (simp add: worker_write_def)

definition ex_paged_env :: "mem env" where
  "ex_paged_env = ex_env\<lparr>e_redis := Some paged_redis\<rparr>"

definition ex_stuck :: "mem queue_state" where
  "ex_stuck = (initial_queue_state ex_world)\<lparr>qs_worker := Effects [ex_point]\<rparr>"

theorem paged_scan_stops_worker_witness:
  "qs_worker (submit_call ex_paged_env 2 (MetricReq ex_request) ex_stuck) = Effects [ex_point] \<and>
   worker_write ex_paged_env (submit_call ex_paged_env 2 (MetricReq ex_request) ex_stuck) = None"
proof -
  have run: "(qstep ex_paged_env True 2)\<^sup>*\<^sup>* ex_stuck (submit_call ex_paged_env 2 (MetricReq ex_request) ex_stuck)"
    by (rule r_into_rtranclp) (rule qstep.submit)
  have "e_redis ex_paged_env = Some paged_redis" by (simp add: ex_paged_env_def)
  moreover have "\<not> qs_canceled (submit_call ex_paged_env 2 (MetricReq ex_request) ex_stuck)"
    by (simp add: submit_call_def ex_stuck_def initial_queue_state_def split: prod.splits sum.splits list.splits)
  ultimately show ?thesis
    using paged_scan_stops_worker [OF run _ paged_law_paged_redis, of "[ex_point]"] by (simp add: ex_stuck_def)
qed

text \<open>
  C21. Where the cache loops end, every queued job is written: from every reachable state in which it
  has not returned the worker alone can reach one with an empty queue in which each call whose job was
  queued holds an answer on its channel.
\<close>

theorem worker_drains_queue:
  assumes "(qstep E ev cap)\<^sup>*\<^sup>* (initial_queue_state w) s"
    "\<forall>ps w. batch_effects E ev ps [] None w \<noteq> None" "qs_worker s \<noteq> Stopped"
  shows "\<exists>s'. (qstep E ev cap)\<^sup>*\<^sup>* s s' \<and> qs_queue s' = [] \<and>
    (\<forall>j \<in> set (qs_queue s). cl_done (qs_calls s' ! wj_call j) \<noteq> None)"
proof -
  have inv: "queue_inv cap s" by (rule qinv.run_kept [OF assms(1) queue_inv_initial])
  then have "\<forall>j \<in> set (qs_queue s). wj_call j < length (qs_calls s)" by (simp add: queue_inv_def)
  from queue_drains [OF assms(2) this assms(3), of cap] this show ?thesis by fast
qed

text \<open>Without a cache the side effects end.\<close>

lemma batch_effects_no_cache: "e_redis E = None \<Longrightarrow> batch_effects E ev ps seen c w \<noteq> None"
  by (induction ps arbitrary: seen c w)
    (auto simp: InvalidateMetricCache_def Let_def split: prod.splits option.splits)

definition ex_plain_env :: "mem env" where
  "ex_plain_env = ex_env\<lparr>e_redis := None\<rparr>"

theorem worker_drains_queue_witness:
  "\<exists>s'. (qstep ex_plain_env True 2)\<^sup>*\<^sup>*
       (submit_call ex_plain_env 2 (MetricReq ex_request) (initial_queue_state ex_world)) s' \<and> qs_queue s' = []"
proof -
  have run: "(qstep ex_plain_env True 2)\<^sup>*\<^sup>* (initial_queue_state ex_world)
      (submit_call ex_plain_env 2 (MetricReq ex_request) (initial_queue_state ex_world))"
    by (rule r_into_rtranclp) (rule qstep.submit)
  have "e_redis ex_plain_env = None" by (simp add: ex_plain_env_def)
  then have "\<forall>ps w. batch_effects ex_plain_env True ps [] None w \<noteq> None"
    using batch_effects_no_cache by blast
  moreover have "qs_worker (submit_call ex_plain_env 2 (MetricReq ex_request) (initial_queue_state ex_world)) \<noteq> Stopped"
    by (simp add: submit_call_def initial_queue_state_def split: prod.splits sum.splits list.splits)
  ultimately show ?thesis using worker_drains_queue [OF run] by blast
qed

text \<open>
  C9. What the stop of the write worker costs: once it has returned no row is added any more, and no call
  whose job is still queued ever answers success, so that nothing acknowledged is lost. Where all calls
  have succeeded before (the order of the shutdown, which first waits for the handlers) the queue is
  empty.
\<close>

theorem shutdown_loses_only_unacknowledged:
  assumes "(qstep E ev cap)\<^sup>*\<^sup>* (initial_queue_state w) s" "qs_worker s = Stopped"
    "(qstep E ev cap)\<^sup>*\<^sup>* s s'"
  shows "w_metrics (qs_world s') = w_metrics (qs_world s) \<and>
    (\<forall>j \<in> set (qs_queue s). \<forall>rep. cl_result (qs_calls s' ! wj_call j) \<noteq> Some (Inr rep)) \<and>
    ((\<forall>c \<in> set (qs_calls s). \<exists>rep. cl_result c = Some (Inr rep)) \<longrightarrow> qs_queue s = [])"
proof -
  have run': "(qstep E ev cap)\<^sup>*\<^sup>* (initial_queue_state w) s'" using assms(1,3) by simp
  have inv: "queue_inv cap s" "wait_inv s" "queue_inv cap s'" "wait_inv s'"
    using assms(1) run' qwait.run_kept [OF _ conjI [OF queue_inv_initial wait_inv_initial]] by blast+
  note later = qstopped.run_upwards [OF assms(3,2)]
  have "set (qs_queue s) \<subseteq> set (qs_queue s')" using later set_mono_prefix by blast
  moreover have "qs_queue s = []" if "\<forall>c \<in> set (qs_calls s). \<exists>rep. cl_result c = Some (Inr rep)"
  proof (rule ccontr)
    assume "qs_queue s \<noteq> []"
    then have "hd (qs_queue s) \<in> set (qs_queue s)" by simp
    with queued_not_succeeded [OF inv(1,2)] that nth_mem show False by metis
  qed
  ultimately show ?thesis using later queued_not_succeeded(3) [OF inv(3,4)] by blast
qed

definition ex_stop :: "mem queue_state" where
  "ex_stop = StopWriteWorker (submit_call ex_plain_env 2 (MetricReq ex_request) (initial_queue_state ex_world))"

theorem shutdown_loses_only_unacknowledged_witness:
  "\<exists>s. (qstep ex_plain_env True 2)\<^sup>*\<^sup>* ex_stop s \<and> qs_worker s = Stopped \<and>
     w_metrics (qs_world (StopWriteWorker s)) = w_metrics (qs_world s)"
proof -
  have "qs_worker ex_stop = Idle" "qs_canceled ex_stop"
    by (simp_all add: ex_stop_def submit_call_def initial_queue_state_def split: prod.splits sum.splits list.splits)
  then obtain s where s: "worker_exit ex_stop = Some s" "qs_worker s = Stopped" by (simp add: worker_exit_def)
  let ?s0 = "submit_call ex_plain_env 2 (MetricReq ex_request) (initial_queue_state ex_world)"
  have "qstep ex_plain_env True 2 (initial_queue_state ex_world) ?s0" by (rule qstep.submit)
  moreover have "qstep ex_plain_env True 2 ?s0 ex_stop" unfolding ex_stop_def by (rule qstep.stop)
  moreover have step: "qstep ex_plain_env True 2 ex_stop s" by (rule qstep.exit [OF s(1)])
  ultimately have "(qstep ex_plain_env True 2)\<^sup>*\<^sup>* (initial_queue_state ex_world) s"
    by (meson rtranclp.intros)
  moreover have "(qstep ex_plain_env True 2)\<^sup>*\<^sup>* s (StopWriteWorker s)"
    by (rule r_into_rtranclp) (rule qstep.stop)
  ultimately show ?thesis using shutdown_loses_only_unacknowledged [OF _ s(2)] step s(2)
    by (meson r_into_rtranclp)
qed

section \<open>Caches\<close>

text \<open>The last-seen time of a device is read back to the second.\<close>

lemma last_seen_reads_back:
  assumes "e_redis E = Some R" "set_get_law R" "SetDeviceLastSeen E d t ttl w = (None, w1)"
  shows "fst (GetDeviceLastSeen E d w1) = Inr (time_unix (unix_secs t))"
  by (rule last_seen_roundtrip [OF assms])

text \<open>
  The keys of the marks are unambiguous, whatever the device identifiers hold, and never
  fall under the patterns a cache invalidation deletes or the last-seen keys.
\<close>

lemma dedup_keys_unambiguous:
  "(dedup_key d t = dedup_key d' t' \<longleftrightarrow> d = d' \<and> unix_secs t = unix_secs t') \<and>
   dedup_key d t \<noteq> last_seen_key d'' \<and>
   \<not> has_prefix (dedup_key d t) ''point:'' \<and> \<not> has_prefix (dedup_key d t) ''stats:''"
  using dedup_key_inject [of d t d' t'] dedup_key_not_cached [of d t] by simp

end
