(* ===== verification/Bootstrap.thy ===== *)
theory Bootstrap
  imports Certs GoStrings
begin

text \<open>
  \<open>scripts/bootstrap-ca.go\<close>: the program that creates the root certificate, the broker's and the
  services' certificates and writes them to files. The library functions are those of \<open>Certs\<close>;
  the clock, the outcome of each write, the creation of the directory and \<open>filepath.Join\<close> are
  the parameter \<open>boot_env\<close>. \<open>log.Fatalf\<close> ends the program: an error is the result, and the
  files written before it stay.
\<close>

section \<open>Calendar\<close>

text \<open>
  \<open>AddDate(n, 0, 0)\<close> in UTC: the same month, day and time of day \<open>n\<close> years later, where the 29
  February of a year without one is 1 March. Years count from March in the two conversions.
\<close>

definition civil_of_days :: "int \<Rightarrow> int \<times> int \<times> int" where
  "civil_of_days days =
     (let z = days + 719468; era = z div 146097; doe = z mod 146097;
          yoe = (doe - doe div 1460 + doe div 36524 - doe div 146096) div 365;
          doy = doe - (365 * yoe + yoe div 4 - yoe div 100);
          mp = (5 * doy + 2) div 153; d = doy - (153 * mp + 2) div 5 + 1;
          m = (if mp < 10 then mp + 3 else mp - 9) in
      (yoe + era * 400 + (if m \<le> 2 then 1 else 0), m, d))"

definition days_of_civil :: "int \<Rightarrow> int \<Rightarrow> int \<Rightarrow> int" where
  "days_of_civil y m d =
     (let y1 = (if m \<le> 2 then y - 1 else y); era = y1 div 400; yoe = y1 mod 400;
          mp = (if m > 2 then m - 3 else m + 9); doy = (153 * mp + 2) div 5 + d - 1;
          doe = yoe * 365 + yoe div 4 - yoe div 100 + doy in
      era * 146097 + doe - 719468)"

definition add_years :: "gotime \<Rightarrow> int \<Rightarrow> gotime" where
  "add_years t n =
     (let s = sint (unix_secs t); (y, m, d) = civil_of_days (s div 86400) in
      GoTime (word_of_int (days_of_civil (y + n) m d * 86400 + s mod 86400) + unix_to_internal) (tnsec t))"

section \<open>State\<close>

record boot_env =
  bo_clock :: "nat \<Rightarrow> gotime"
  bo_write :: "nat \<Rightarrow> go_error option"
  bo_mkdir :: "go_error option"
  bo_join :: "string \<Rightarrow> string \<Rightarrow> string"

record boot_state =
  bs_tick :: nat
  bs_files :: "string \<Rightarrow> string option"

definition boot_tick :: "boot_state \<Rightarrow> nat \<times> boot_state" where
  "boot_tick s = (bs_tick s, s\<lparr>bs_tick := Suc (bs_tick s)\<rparr>)"

definition boot_now :: "boot_env \<Rightarrow> boot_state \<Rightarrow> gotime \<times> boot_state" where
  "boot_now B s = (let (n, s1) = boot_tick s in (bo_clock B n, s1))"

definition WriteFile :: "boot_env \<Rightarrow> string \<Rightarrow> string \<Rightarrow> boot_state \<Rightarrow> go_error option \<times> boot_state" where
  "WriteFile B path content s =
     (let (n, s1) = boot_tick s in
      case bo_write B n of
        Some e \<Rightarrow> (Some e, s1)
      | None \<Rightarrow> (None, s1\<lparr>bs_files := (bs_files s1)(path \<mapsto> content)\<rparr>))"

section \<open>Certificates\<close>

definition generateRootCA ::
    "('key, 'pub, 'cert) pki \<Rightarrow> boot_env \<Rightarrow> boot_state \<Rightarrow> (go_error + 'cert \<times> 'key) \<times> boot_state" where
  "generateRootCA P B s =
     (let (n, s1) = boot_tick s in
      case pki_generate_key P n of
        Inl e \<Rightarrow> (Inl (ErrWrap ''failed to generate private key'' e), s1)
      | Inr privateKey \<Rightarrow>
     (let (t1, s2) = boot_now B s1; (t2, s3) = boot_now B s2; (k, s4) = boot_tick s3;
          template = \<lparr>ct_SerialNumber = 1, ct_CommonName = ''FieldPulse-RootCA'',
            ct_Organization = [''FieldPulse Industrial IoT''], ct_NotBefore = t1,
            ct_NotAfter = add_years t2 10, ct_KeyUsage = [CertSign, CRLSign], ct_ExtKeyUsage = [],
            ct_DNSNames = [], ct_IsCA = True, ct_BasicConstraintsValid = True, ct_MaxPathLen = 2\<rparr> in
      case pki_create_self P k template (pki_public P privateKey) privateKey of
        Inl e \<Rightarrow> (Inl (ErrWrap ''failed to create certificate'' e), s4)
      | Inr derBytes \<Rightarrow>
     (case pki_parse_cert P derBytes of
        Inl e \<Rightarrow> (Inl (ErrWrap ''failed to parse certificate'' e), s4)
      | Inr cert \<Rightarrow> (Inr (cert, privateKey), s4))))"

definition generateSignedCert ::
    "('key, 'pub, 'cert) pki \<Rightarrow> boot_env \<Rightarrow> string \<Rightarrow> string \<Rightarrow> int \<Rightarrow> 'cert \<Rightarrow> 'key \<Rightarrow> boot_state \<Rightarrow>
     (go_error + 'cert \<times> 'key) \<times> boot_state" where
  "generateSignedCert P B name commonName duration signerCert signerKey s =
     (let (n, s1) = boot_tick s in
      case pki_generate_key P n of
        Inl e \<Rightarrow> (Inl (ErrWrap ''failed to generate private key'' e), s1)
      | Inr privateKey \<Rightarrow>
     (let (t1, s2) = boot_now B s1; (t2, s3) = boot_now B s2; (t3, s4) = boot_now B s3;
          (k, s5) = boot_tick s4;
          template = \<lparr>ct_SerialNumber = unix_nano t1, ct_CommonName = commonName,
            ct_Organization = [''FieldPulse''], ct_NotBefore = t2, ct_NotAfter = time_add t3 duration,
            ct_KeyUsage = [DigitalSignature, KeyEncipherment], ct_ExtKeyUsage = [ServerAuth, ClientAuth],
            ct_DNSNames = [''localhost'', ''127.0.0.1'', name], ct_IsCA = False,
            ct_BasicConstraintsValid = False, ct_MaxPathLen = 0\<rparr> in
      case pki_create P k template signerCert (pki_public P privateKey) signerKey of
        Inl e \<Rightarrow> (Inl (ErrWrap ''failed to create certificate'' e), s5)
      | Inr derBytes \<Rightarrow>
     (case pki_parse_cert P derBytes of
        Inl e \<Rightarrow> (Inl (ErrWrap ''failed to parse certificate'' e), s5)
      | Inr cert \<Rightarrow> (Inr (cert, privateKey), s5))))"

definition saveCertificate ::
    "('key, 'pub, 'cert) pki \<Rightarrow> boot_env \<Rightarrow> string \<Rightarrow> 'cert \<Rightarrow> boot_state \<Rightarrow> go_error option \<times> boot_state" where
  "saveCertificate P B path cert s = WriteFile B path (pki_pem_encode P ''CERTIFICATE'' (pki_raw P cert)) s"

definition savePrivateKey ::
    "('key, 'pub, 'cert) pki \<Rightarrow> boot_env \<Rightarrow> string \<Rightarrow> 'key \<Rightarrow> boot_state \<Rightarrow> go_error option \<times> boot_state" where
  "savePrivateKey P B path key s =
     (case pki_marshal_key P key of
        Inl e \<Rightarrow> (Some (ErrWrap ''failed to marshal private key'' e), s)
      | Inr derBytes \<Rightarrow> WriteFile B path (pki_pem_encode P ''EC PRIVATE KEY'' derBytes) s)"

definition hashCert :: "('key, 'pub, 'cert) pki \<Rightarrow> 'cert \<Rightarrow> string" where
  "hashCert P cert = pki_sha256_hex P (pki_raw P cert)"

section \<open>The program\<close>

text \<open>
  The three steps \<open>main\<close> makes for the broker and for each service; the texts are those of its
  messages, \<open>what\<close> the part naming the certificate.
\<close>

definition issue ::
    "('key, 'pub, 'cert) pki \<Rightarrow> boot_env \<Rightarrow> string \<Rightarrow> string \<times> string \<times> string \<times> string \<Rightarrow>
     string \<Rightarrow> string \<Rightarrow> string \<Rightarrow> 'cert \<Rightarrow> 'key \<Rightarrow> boot_state \<Rightarrow> go_error option \<times> boot_state" where
  "issue P B outDir texts file name commonName rootCert rootKey s =
     (case texts of (gen, cert_text, key_text, svc) \<Rightarrow>
     (case generateSignedCert P B name commonName (hours (24 * 365)) rootCert rootKey s of
        (Inl e, s1) \<Rightarrow> (Some (ErrWrap (gen @ svc) e), s1)
      | (Inr (cert, key), s1) \<Rightarrow>
     (case saveCertificate P B (bo_join B outDir (file @ ''.crt'')) cert s1 of
        (Some e, s2) \<Rightarrow> (Some (ErrWrap cert_text e), s2)
      | (None, s2) \<Rightarrow>
     (case savePrivateKey P B (bo_join B outDir (file @ ''.key'')) key s2 of
        (Some e, s3) \<Rightarrow> (Some (ErrWrap key_text e), s3)
      | (None, s3) \<Rightarrow> (None, s3)))))"

definition boot_services :: "string list" where
  "boot_services = [''telemetry-service'', ''alert-service'', ''connector'']"

fun issue_services ::
    "('key, 'pub, 'cert) pki \<Rightarrow> boot_env \<Rightarrow> string \<Rightarrow> 'cert \<Rightarrow> 'key \<Rightarrow> string list \<Rightarrow> boot_state \<Rightarrow>
     go_error option \<times> boot_state" where
  "issue_services P B outDir rootCert rootKey [] s = (None, s)"
| "issue_services P B outDir rootCert rootKey (svc # svcs) s =
     (case issue P B outDir (''Failed to generate service cert for '', ''Failed to save service cert'',
             ''Failed to save service key'', svc) svc svc ''127.0.0.1'' rootCert rootKey s of
        (Some e, s1) \<Rightarrow> (Some e, s1)
      | (None, s1) \<Rightarrow> issue_services P B outDir rootCert rootKey svcs s1)"

definition bootstrap ::
    "('key, 'pub, 'cert) pki \<Rightarrow> boot_env \<Rightarrow> string \<Rightarrow> boot_state \<Rightarrow> go_error option \<times> boot_state" where
  "bootstrap P B outDir s =
     (case bo_mkdir B of
        Some e \<Rightarrow> (Some (ErrWrap ''Failed to create output directory'' e), s)
      | None \<Rightarrow>
     (case generateRootCA P B s of
        (Inl e, s1) \<Rightarrow> (Some (ErrWrap ''Failed to generate RootCA'' e), s1)
      | (Inr (rootCert, rootKey), s1) \<Rightarrow>
     (case saveCertificate P B (bo_join B outDir ''ca.crt'') rootCert s1 of
        (Some e, s2) \<Rightarrow> (Some (ErrWrap ''Failed to save CA cert'' e), s2)
      | (None, s2) \<Rightarrow>
     (case savePrivateKey P B (bo_join B outDir ''ca.key'') rootKey s2 of
        (Some e, s3) \<Rightarrow> (Some (ErrWrap ''Failed to save CA key'' e), s3)
      | (None, s3) \<Rightarrow>
     (case issue P B outDir (''Failed to generate broker cert'', ''Failed to save broker cert'',
             ''Failed to save broker key'', '''') ''broker'' ''mqtt-broker'' ''localhost'' rootCert rootKey s3 of
        (Some e, s4) \<Rightarrow> (Some e, s4)
      | (None, s4) \<Rightarrow> issue_services P B outDir rootCert rootKey boot_services s4)))))"

section \<open>The files of a run\<close>

text \<open>The file holds a certificate the library created with the root's key, as PEM.\<close>

definition holds_signed ::
    "('key, 'pub, 'cert) pki \<Rightarrow> 'cert \<Rightarrow> 'key \<Rightarrow> string \<Rightarrow> boot_state \<Rightarrow> bool" where
  "holds_signed P rootCert rootKey path s \<longleftrightarrow>
     (\<exists>n t pub der cert. pki_create P n t rootCert pub rootKey = Inr der \<and>
        pki_parse_cert P der = Inr cert \<and>
        bs_files s path = Some (pki_pem_encode P ''CERTIFICATE'' (pki_raw P cert)))"

lemma WriteFile_None:
  "WriteFile B path x s = (None, s') \<Longrightarrow> bs_files s' = (bs_files s)(path \<mapsto> x)"
  by (auto simp: WriteFile_def boot_tick_def split: option.splits)

lemma generateSignedCert_Inr:
  assumes "generateSignedCert P B name cn dur rc rk s = (Inr (cert, key), s')"
  shows "\<exists>n t der. pki_create P n t rc (pki_public P key) rk = Inr der \<and> pki_parse_cert P der = Inr cert \<and>
      ct_CommonName t = cn \<and> name \<in> set (ct_DNSNames t)" "bs_files s' = bs_files s"
  using assms
  by (fastforce simp: generateSignedCert_def boot_tick_def boot_now_def Let_def split: sum.splits)+

lemma crt_not_key: "a @ ''.crt'' \<noteq> b @ ''.key''"
  by (auto dest: arg_cong [where f = last])

text \<open>The names of the files of a list of subjects; \<open>filepath.Join\<close> keeps those of the script apart.\<close>

definition cert_files :: "string list \<Rightarrow> string set" where
  "cert_files fs = (\<lambda>f. f @ ''.crt'') ` set fs \<union> (\<lambda>f. f @ ''.key'') ` set fs"

lemma cert_files_mono: "set fs \<subseteq> set gs \<Longrightarrow> cert_files fs \<subseteq> cert_files gs"
  by (auto simp: cert_files_def)

lemma issue_None:
  assumes "issue P B out texts file name cn rc rk s = (None, s')" "inj_on (bo_join B out) (cert_files [file])"
  shows "holds_signed P rc rk (bo_join B out (file @ ''.crt'')) s'"
    "\<And>p. p \<notin> {bo_join B out (file @ ''.crt''), bo_join B out (file @ ''.key'')} \<Longrightarrow>
       bs_files s' p = bs_files s p"
proof -
  from assms(1) obtain cert key s1 s2 where
    g: "generateSignedCert P B name cn (hours (24 * 365)) rc rk s = (Inr (cert, key), s1)" and
    c: "saveCertificate P B (bo_join B out (file @ ''.crt'')) cert s1 = (None, s2)" and
    k: "savePrivateKey P B (bo_join B out (file @ ''.key'')) key s2 = (None, s')"
    by (auto simp: issue_def split: prod.splits sum.splits option.splits)
  note files = generateSignedCert_Inr(2) [OF g] WriteFile_None [OF c [unfolded saveCertificate_def]]
  from k obtain x where x: "bs_files s' = (bs_files s2)(bo_join B out (file @ ''.key'') \<mapsto> x)"
    by (auto simp: savePrivateKey_def split: sum.splits dest: WriteFile_None)
  have "bo_join B out (file @ ''.crt'') \<noteq> bo_join B out (file @ ''.key'')"
    using assms(2) crt_not_key by (auto simp: cert_files_def)
  then have "bs_files s' (bo_join B out (file @ ''.crt'')) =
      Some (pki_pem_encode P ''CERTIFICATE'' (pki_raw P cert))" using x files by simp
  with generateSignedCert_Inr(1) [OF g] show "holds_signed P rc rk (bo_join B out (file @ ''.crt'')) s'"
    unfolding holds_signed_def by blast
  show "bs_files s' p = bs_files s p"
    if "p \<notin> {bo_join B out (file @ ''.crt''), bo_join B out (file @ ''.key'')}" for p
    using that x files by simp
qed

lemma issue_services_None:
  assumes "issue_services P B out rc rk svcs s = (None, s')" "inj_on (bo_join B out) (cert_files svcs)"
  shows "\<And>p. \<forall>svc \<in> set svcs. p \<notin> {bo_join B out (svc @ ''.crt''), bo_join B out (svc @ ''.key'')} \<Longrightarrow>
       bs_files s' p = bs_files s p"
    "svc \<in> set svcs \<Longrightarrow> holds_signed P rc rk (bo_join B out (svc @ ''.crt'')) s'"
  using assms
proof (induction svcs arbitrary: s)
  case Nil
  { case 1 then show ?case by simp }
  { case 2 then show ?case by simp }
next
  case (Cons x svcs)
  have sub: "inj_on (bo_join B out) (cert_files [x])" "inj_on (bo_join B out) (cert_files svcs)"
    if "inj_on (bo_join B out) (cert_files (x # svcs))"
    by (rule inj_on_subset [OF that], rule cert_files_mono, auto)+
  { case (1 p)
    then obtain s1 where
      i: "issue P B out (''Failed to generate service cert for '', ''Failed to save service cert'',
             ''Failed to save service key'', x) x x ''127.0.0.1'' rc rk s = (None, s1)" and
      r: "issue_services P B out rc rk svcs s1 = (None, s')"
      by (auto split: prod.splits option.splits)
    from Cons.IH(1) [OF _ r sub(2)] issue_None(2) [OF i sub(1)] 1(1,3) show ?case by simp }
  { case 2
    then obtain s1 where
      i: "issue P B out (''Failed to generate service cert for '', ''Failed to save service cert'',
             ''Failed to save service key'', x) x x ''127.0.0.1'' rc rk s = (None, s1)" and
      r: "issue_services P B out rc rk svcs s1 = (None, s')"
      by (auto split: prod.splits option.splits)
    show ?case
    proof (cases "svc \<in> set svcs")
      case True
      with Cons.IH(2) [OF _ r sub(2)] 2(3) show ?thesis by blast
    next
      case False
      with 2(1) have [simp]: "svc = x" by simp
      have "\<forall>y \<in> set svcs. bo_join B out (x @ ''.crt'') \<notin>
          {bo_join B out (y @ ''.crt''), bo_join B out (y @ ''.key'')}"
        using False crt_not_key inj_onD [OF 2(3), of "x @ ''.crt''"] by (fastforce simp: cert_files_def)
      from Cons.IH(1) [OF this r sub(2)] issue_None(1) [OF i sub(1)] 2(3) show ?thesis
        by (simp add: holds_signed_def)
    qed }
qed

text \<open>
  After a run without an error: the root's certificate and key are in their files, and each other
  certificate file holds one created with that root and key.
\<close>

lemma bootstrap_files:
  assumes "bootstrap P B out s = (None, s')" "inj_on (bo_join B out) (cert_files (''ca'' # ''broker'' # boot_services))"
  obtains rc rk n t der kder where
    "pki_create_self P n t (pki_public P rk) rk = Inr der" "pki_parse_cert P der = Inr rc"
    "ct_IsCA t" "CertSign \<in> set (ct_KeyUsage t)" "pki_marshal_key P rk = Inr kder"
    "bs_files s' (bo_join B out ''ca.crt'') = Some (pki_pem_encode P ''CERTIFICATE'' (pki_raw P rc))"
    "bs_files s' (bo_join B out ''ca.key'') = Some (pki_pem_encode P ''EC PRIVATE KEY'' kder)"
    "\<And>f. f \<in> set (''broker'' # boot_services) \<Longrightarrow> holds_signed P rc rk (bo_join B out (f @ ''.crt'')) s'"
proof -
  from assms(1) obtain rc rk s1 s2 s3 s4 where
    g: "generateRootCA P B s = (Inr (rc, rk), s1)" and
    c: "saveCertificate P B (bo_join B out ''ca.crt'') rc s1 = (None, s2)" and
    k: "savePrivateKey P B (bo_join B out ''ca.key'') rk s2 = (None, s3)" and
    b: "issue P B out (''Failed to generate broker cert'', ''Failed to save broker cert'',
             ''Failed to save broker key'', '''') ''broker'' ''mqtt-broker'' ''localhost'' rc rk s3 = (None, s4)" and
    v: "issue_services P B out rc rk boot_services s4 = (None, s')"
    by (auto simp: bootstrap_def split: prod.splits sum.splits option.splits)
  from g obtain n t der where root: "pki_create_self P n t (pki_public P rk) rk = Inr der"
    "pki_parse_cert P der = Inr rc" "ct_IsCA t" "CertSign \<in> set (ct_KeyUsage t)"
    by (fastforce simp: generateRootCA_def boot_tick_def boot_now_def Let_def split: sum.splits)
  from k obtain kder where kder: "pki_marshal_key P rk = Inr kder"
    "bs_files s3 = (bs_files s2)(bo_join B out ''ca.key'' \<mapsto> pki_pem_encode P ''EC PRIVATE KEY'' kder)"
    by (auto simp: savePrivateKey_def split: sum.splits dest: WriteFile_None)
  note crt = WriteFile_None [OF c [unfolded saveCertificate_def]]
  let ?all = "cert_files (''ca'' # ''broker'' # boot_services)"
  have eq: "bo_join B out x = bo_join B out y \<longleftrightarrow> x = y" if "x \<in> ?all" "y \<in> ?all" for x y
    by (rule inj_on_eq_iff [OF assms(2) that])
  have names: "''ca.crt'' \<in> ?all" "''ca.key'' \<in> ?all" "''broker.crt'' \<in> ?all" "''broker.key'' \<in> ?all"
    by (simp_all add: cert_files_def)
  have others: "bo_join B out x \<notin> {bo_join B out (svc @ ''.crt''), bo_join B out (svc @ ''.key'')}"
    if "x \<in> {''ca.crt'', ''ca.key'', ''broker.crt'', ''broker.key''}" "svc \<in> set boot_services" for x svc
  proof -
    have x: "x \<in> ?all" using that(1) names by auto
    have svc: "svc @ ''.crt'' \<in> ?all" "svc @ ''.key'' \<in> ?all" using that(2) by (simp_all add: cert_files_def)
    have "x \<noteq> svc @ ''.crt''" "x \<noteq> svc @ ''.key''" using that by (auto simp: boot_services_def)
    then show ?thesis using eq [OF x svc(1)] eq [OF x svc(2)] by simp
  qed
  have sub: "inj_on (bo_join B out) (cert_files [''broker''])" "inj_on (bo_join B out) (cert_files boot_services)"
    by (rule inj_on_subset [OF assms(2)], rule cert_files_mono, auto)+
  have keep: "bs_files s' (bo_join B out x) = bs_files s3 (bo_join B out x)" if "x \<in> {''ca.crt'', ''ca.key''}" for x
  proof -
    have "bs_files s' (bo_join B out x) = bs_files s4 (bo_join B out x)"
      by (rule issue_services_None(1) [OF v sub(2)]) (use that others in blast)
    also have "\<dots> = bs_files s3 (bo_join B out x)"
      by (rule issue_None(2) [OF b sub(1)]) (use that eq [OF names(1,3)] eq [OF names(1,4)] eq [OF names(2,3)] eq [OF names(2,4)] in \<open>elim insertE; simp\<close>)
    finally show ?thesis .
  qed
  have broker: "holds_signed P rc rk (bo_join B out (''broker'' @ ''.crt'')) s'"
  proof -
    have "bs_files s' (bo_join B out (''broker'' @ ''.crt'')) = bs_files s4 (bo_join B out (''broker'' @ ''.crt''))"
      by (rule issue_services_None(1) [OF v sub(2)]) (use others [of "''broker.crt''"] in simp)
    with issue_None(1) [OF b sub(1)] show ?thesis by (simp add: holds_signed_def)
  qed
  show thesis
  proof (rule that [OF root kder(1)])
    show "bs_files s' (bo_join B out ''ca.crt'') = Some (pki_pem_encode P ''CERTIFICATE'' (pki_raw P rc))"
      "bs_files s' (bo_join B out ''ca.key'') = Some (pki_pem_encode P ''EC PRIVATE KEY'' kder)"
      using keep crt kder(2) eq [OF names(1,2)] by simp_all
    show "holds_signed P rc rk (bo_join B out (f @ ''.crt'')) s'" if "f \<in> set (''broker'' # boot_services)" for f
      using that broker issue_services_None(2) [OF v sub(2)] by auto
  qed
qed

section \<open>The calendar\<close>

text \<open>The days before the March of a year, and that ten years are between 3651 and 3654 days.\<close>

definition year_start :: "int \<Rightarrow> int" where
  "year_start y = 365 * y + y div 4 - y div 100 + y div 400"

lemma div_step: "0 < k \<Longrightarrow> a * k \<le> n \<Longrightarrow> n \<le> b * k \<Longrightarrow>
   y div k + a \<le> (y + n) div k \<and> (y + n) div k \<le> y div k + (b :: int)"
  using zdiv_mono1 [of "y + a * k" "y + n" k] zdiv_mono1 [of "y + n" "y + b * k" k] by simp

lemma year_start_ten: "year_start (y + 10) - year_start y \<in> {3651..3654}"
  using div_step [of 4 2 10 3 y] div_step [of 100 0 10 1 y] div_step [of 400 0 10 1 y]
  by (simp add: year_start_def)

lemma era_days:
  "y div 400 * 146097 + (y mod 400 * 365 + y mod 400 div 4 - y mod 400 div 100) = year_start y"
proof -
  define q r where "q = y div 400" and "r = y mod 400"
  then have y: "y = r + 400 * q" by simp
  have "(r + 100 * q * 4) div 4 = 100 * q + r div 4" "(r + 4 * q * 100) div 100 = 4 * q + r div 100"
    by (rule div_mult_self1, simp)+
  then have "y div 4 = 100 * q + r div 4" "y div 100 = 4 * q + r div 100"
    unfolding y by (simp_all add: mult.commute)
  then show ?thesis unfolding q_def [symmetric] r_def [symmetric] year_start_def
    by (simp add: q_def [symmetric]) (simp add: y)
qed

lemma days_of_civil_start:
  "days_of_civil y m d = year_start (if m \<le> 2 then y - 1 else y) +
     (153 * (if m > 2 then m - 3 else m + 9) + 2) div 5 + d - 719469"
  using era_days [of y] era_days [of "y - 1"] by (simp add: days_of_civil_def Let_def)

lemma ten_years: "days_of_civil (y + 10) m d - days_of_civil y m d \<in> {3651..3654}"
proof (cases "m \<le> 2")
  case True
  have "y + 10 - 1 = y - 1 + 10" by simp
  with True year_start_ten [of "y - 1"] show ?thesis
    unfolding days_of_civil_start by (simp only: if_True) simp
next
  case False
  with year_start_ten [of y] show ?thesis
    unfolding days_of_civil_start by (simp only: if_False) simp
qed

end
