(* ===== verification/DeviceProperties.thy ===== *)
theory DeviceProperties
  imports Example Bootstrap
begin

text \<open>
  The properties of the device service and the watchdog: provisioning and its certificate, reading
  through the cache, the operations that cannot succeed, and a round of the watchdog. Each is
  followed by an instance on a concrete deployment.
\<close>

section \<open>A deployment with certificates\<close>

definition ex_pki :: "(string, string, string) pki" where
  "ex_pki =
     \<lparr>pki_generate_key = (\<lambda>n. Inr ''key''), pki_public = id,
      pki_create = (\<lambda>n t c pub key. Inr (ct_CommonName t)),
      pki_create_self = (\<lambda>n t pub key. Inr (ct_CommonName t)), pki_raw = id, pki_parse_cert = Inr,
      pki_common_name = id, pki_not_after = (\<lambda>c. ex_clock 0), pki_sha256_hex = id,
      pki_pem_encode = (\<lambda>ty x. x), pki_pem_decode = Some, pki_marshal_key = Inr, pki_parse_key = Inr,
      pki_verify = (\<lambda>c roots. None), pki_check_signature = (\<lambda>c parent. None),
      pki_read_file = (\<lambda>p. Inr ''pem'')\<rparr>"

definition ex_service :: "(string, string) device_service" where
  "ex_service = NewDeviceService ex_pki '''' ''root'' ''rootkey''"

definition ex_provision :: create_device_request where
  "ex_provision = \<lparr>cdr_DeviceId = ''d2'', cdr_Floor = ''f1'', cdr_DeviceType = ''sensor'',
     cdr_FirmwareVersion = ''1''\<rparr>"

lemma ex_create_device:
  "\<exists>resp ts w'. CreateDevice ex_env ex_pki ex_service ex_provision ex_world = (Inr resp, ts, w')"
  by (simp add: CreateDevice_def ex_provision_def DeviceExists_def ext_fault_def no_nul_def ex_device_def
      GenerateDeviceKeypair_def ex_service_def NewDeviceService_def NewKeyGenerator_def ex_pki_def
      SignDeviceCertificate_def device_template_def time_now_def EncodePrivateKeyPEM_def CreateDevice_db_def
      sql_insert_device_def device_checks_def device_statuses_def utf8_len_def sql_insert_certificate_def
      certificate_checks_def Let_def)

section \<open>Provisioning\<close>

text \<open>
  C13. Provisioning is atomic: on success exactly one device and one certificate are new, for the
  requested identifier, which was free, and the certificate is the one in the answer; on an error
  nothing has changed and no cache task is left.
\<close>

theorem provisioning_is_atomic:
  assumes "CreateDevice E P s req w = (r, ts, w')"
  shows "case r of
      Inl e \<Rightarrow> same_data w' w \<and> ts = []
    | Inr resp \<Rightarrow> \<exists>d c. w_devices w' = w_devices w @ [d] \<and> w_certs w' = w_certs w @ [c] \<and>
        dv_DeviceID d = cdr_DeviceId req \<and> dv_Status d = ''active'' \<and> dc_DeviceID c = cdr_DeviceId req \<and>
        dc_RevokedAt c = None \<and> dc_CertificatePEM c = cdp_ClientCertPem resp \<and>
        cdr_DeviceId req \<notin> dv_DeviceID ` set (w_devices w) \<and> ts = [CacheDevice d]"
proof (cases r)
  case (Inl e)
  with CreateDevice_err assms show ?thesis by simp blast
next
  case (Inr resp)
  from CreateDevice_ok [OF assms [unfolded this]] show ?thesis unfolding Inr sum.case by metis
qed

theorem provisioning_is_atomic_witness:
  "\<exists>resp ts w' d. CreateDevice ex_env ex_pki ex_service ex_provision ex_world = (Inr resp, ts, w') \<and>
     w_devices w' = [ex_device, d] \<and> dv_DeviceID d = ''d2''"
proof -
  obtain resp ts w' where run: "CreateDevice ex_env ex_pki ex_service ex_provision ex_world = (Inr resp, ts, w')"
    using ex_create_device by blast
  from provisioning_is_atomic [OF run] run show ?thesis by (auto simp: ex_provision_def)
qed



section \<open>Operations that cannot succeed\<close>

text \<open>
  C24. No device ever changes its status through the API: the enum value is converted to a one-character
  text, which the table's constraint refuses, so that the gateway answers every request with an
  error and nothing is changed.
\<close>

theorem status_update_never_succeeds:
  "\<exists>code msg w'. gw_updateDeviceStatus err_text (UpdateDeviceStatus E R) deviceID body w =
     ((code, ErrorBody msg), w') \<and> code \<in> {400, 500} \<and> same_data w' w"
  by (rule gw_updateDeviceStatus_never)

text \<open>
  C25. The device list of the gateway is never answered: the absent status filter is sent as a zero byte,
  which the server refuses; and a listing with a filter, where the table's constraint holds,
  returns no device.
\<close>

theorem device_list_never_answers:
  "(\<exists>msg w'. gw_listDevices err_text (ListDevices E) query w = ((500, ErrorBody msg), w')) \<and>
   (devices_inv w \<longrightarrow> (\<forall>resp w'. ListDevices E req w = (Inr resp, w') \<longrightarrow>
      ldp_Devices resp = [] \<and> ldp_TotalCount resp = 0))"
proof (intro conjI impI allI)
  show "\<exists>msg w'. gw_listDevices err_text (ListDevices E) query w = ((500, ErrorBody msg), w')"
    by (rule gw_listDevices_never)
next
  fix resp w'
  assume inv: "devices_inv w" and run: "ListDevices E req w = (Inr resp, w')"
  have "\<forall>d \<in> set (w_devices w). dv_Status d \<in> set device_statuses"
    by (rule devices_inv_status [OF inv])
  from ListDevices_never [OF this run] show "ldp_Devices resp = []" "ldp_TotalCount resp = 0" .
qed

definition ex_list :: list_devices_request where
  "ex_list = \<lparr>ldr_FilterFloor = '''', ldr_FilterStatus = 1, ldr_Limit = 0, ldr_Offset = 0\<rparr>"

theorem device_list_never_answers_witness:
  "\<exists>resp w'. ListDevices ex_env ex_list ex_world = (Inr resp, w') \<and> ldp_Devices resp = []"
proof -
  have "devices_inv ex_world"
    by (simp add: devices_inv_def device_checks_def ex_device_def device_statuses_def no_nul_def utf8_len_def)
  moreover obtain resp w' where run: "ListDevices ex_env ex_list ex_world = (Inr resp, w')"
    by (simp add: ListDevices_def ex_list_def ListDevices_db_def ext_fault_def go_string_of_int_def
        no_nul_def sql_paging_def Let_def)
  ultimately show ?thesis using device_list_never_answers [of err_msg ex_env "\<lambda>_. ''''" ex_world] by blast
qed

section \<open>Reading through the cache\<close>


text \<open>The instance: a device with a certificate, and a codec that knows this device.\<close>

definition ex_json_env :: "mem env" where
  "ex_json_env = ex_env\<lparr>e_json_device := (\<lambda>d. Inr ''json''), e_unjson_device := (\<lambda>s. Inr ex_device)\<rparr>"

definition ex_cert :: device_certificate where
  "ex_cert = \<lparr>dc_DeviceID = ''d1'', dc_CertificatePEM = ''pem'', dc_CertificateHash = ''h'',
     dc_ExpiresAt = ex_clock 0, dc_RevokedAt = None\<rparr>"

lemma ex_read:
  "\<exists>resp. GetDevice ex_json_env mem_redis ''d1'' (ex_world\<lparr>w_certs := [ex_cert]\<rparr>) =
     (Returns resp, [CacheDevice ex_device], ex_world\<lparr>w_tick := 2, w_certs := [ex_cert]\<rparr>)"
  by (simp add: GetDevice_def DeviceCache_Get_def redis_do_def mem_redis_def GetDevice_db_def
      sql_select_device_def ext_fault_def no_nul_def ex_device_def GetDeviceCertificate_def
      sql_select_certificate_def ex_cert_def sort_desc_def ex_json_env_def)


text \<open>
  A reading of an unknown device is reported as a failed query, never as a device that was not
  found: the code compares with the sentinel of \<open>database/sql\<close>, the driver returns its own. For
  the same reason the nil certificate of the not-found branch is never used.
\<close>

lemma unknown_device_is_query_error:
  assumes "no_sql_norows E" "i \<noteq> []" "no_nul i" "DeviceCache_Get E R i w = (Inr None, w1)"
    "e_fault E (w_tick w1) = None" "i \<notin> dv_DeviceID ` set (w_devices w)"
  shows "fst (GetDevice E R i w) =
      Fails (ErrWrap ''failed to get device'' (ErrWrap ''failed to query device'' ErrPgxNoRows)) \<and>
    (\<forall>j w'. fst (GetDevice E R j w') \<noteq> Panics)"
proof -
  have "w_devices w1 = w_devices w" by (rule db_partD(2) [OF DeviceCache_db_part(2) [OF assms(4)]])
  with assms(6) have "List.find (\<lambda>d. dv_DeviceID d = i) (w_devices w1) = None"
    by (auto simp: find_None_iff)
  with assms(2-5) show ?thesis
    using GetDevice_no_panic [OF assms(1)]
    by (simp add: GetDevice_def GetDevice_db_def sql_select_device_def ext_fault_def)
qed

section \<open>The watchdog\<close>

text \<open>
  C35. The watchdog has no effect, however many rounds it makes: each calls a status update that cannot
  succeed, so that it changes no table, and publishes no event for a silent device.
\<close>

theorem watchdog_changes_nothing:
  assumes "watchdog_loop E R pub n (ts, w) = Some (ts', w')"
  shows "tables_same w' w"
  by (rule watchdog_loop_same [OF assms])

theorem watchdog_changes_nothing_witness:
  "tables_same (snd (the (watchdog_loop ex_env mem_redis True 2 ([], ex_world1)))) ex_world1"
proof -
  have "watchdog_loop ex_env mem_redis True 2 ([], ex_world1) \<noteq> None"
    by (rule watchdog_loop_returns)
  then obtain ts w' where run: "watchdog_loop ex_env mem_redis True 2 ([], ex_world1) = Some (ts, w')" by auto
  from watchdog_changes_nothing [OF run] run show ?thesis by simp
qed

section \<open>From the bootstrap to the service\<close>

text \<open>The library on the files a bootstrap has left.\<close>

definition with_files :: "boot_state \<Rightarrow> ('key, 'pub, 'cert) pki \<Rightarrow> ('key, 'pub, 'cert) pki" where
  "with_files s P = P\<lparr>pki_read_file := (\<lambda>path. case bs_files s path of
     None \<Rightarrow> Inl (ErrText ''no such file or directory'') | Some x \<Rightarrow> Inr x)\<rparr>"

text \<open>
  What the bootstrap writes the device service reads: after a bootstrap without an error, loading the root
  from its two files gives a self-signed certificate and a key with which every other certificate file of the
  bootstrap was signed, and each of them passes the service's verification against that root. The library
  decodes the PEM and the keys it encodes, parses the bytes of a parsed certificate to it again, and
  verifies what it created.
\<close>

lemma bootstrapped_root_is_loaded:
  assumes "bootstrap P B out s = (None, s')" "inj_on (bo_join B out) (cert_files (''ca'' # ''broker'' # boot_services))"
    "\<And>ty x. pki_pem_decode P (pki_pem_encode P ty x) = Some x"
    "\<And>key der. pki_marshal_key P key = Inr der \<Longrightarrow> pki_parse_key P der = Inr key"
    "\<And>der cert. pki_parse_cert P der = Inr cert \<Longrightarrow> pki_parse_cert P (pki_raw P cert) = Inr cert"
    "\<And>n t root pub key der cert. pki_create P n t root pub key = Inr der \<Longrightarrow>
       pki_parse_cert P der = Inr cert \<Longrightarrow> pki_verify P cert [root] = None"
  shows "\<exists>rc rk pem. LoadRootCA (with_files s' P) (bo_join B out ''ca.crt'') (bo_join B out ''ca.key'') = Inr (rc, rk) \<and>
    bs_files s' (bo_join B out ''ca.crt'') = Some pem \<and>
    (\<exists>n t der. pki_create_self P n t (pki_public P rk) rk = Inr der \<and> pki_parse_cert P der = Inr rc) \<and>
    (\<forall>f \<in> set (''broker'' # boot_services). \<exists>pem. bs_files s' (bo_join B out (f @ ''.crt'')) = Some pem \<and>
       VerifyDeviceCertificate P pem rc = None)"
proof (rule bootstrap_files [OF assms(1,2)])
  fix rc rk n t der kder
  assume self: "pki_create_self P n t (pki_public P rk) rk = Inr der"
    and root: "pki_parse_cert P der = Inr rc" "pki_marshal_key P rk = Inr kder"
    "bs_files s' (bo_join B out ''ca.crt'') = Some (pki_pem_encode P ''CERTIFICATE'' (pki_raw P rc))"
    "bs_files s' (bo_join B out ''ca.key'') = Some (pki_pem_encode P ''EC PRIVATE KEY'' kder)"
    and signed: "\<And>f. f \<in> set (''broker'' # boot_services) \<Longrightarrow> holds_signed P rc rk (bo_join B out (f @ ''.crt'')) s'"
  have "LoadRootCA (with_files s' P) (bo_join B out ''ca.crt'') (bo_join B out ''ca.key'') = Inr (rc, rk)"
    using root assms(3) assms(4) [OF root(2)] assms(5) [OF root(1)]
    by (simp add: LoadRootCA_def with_files_def)
  moreover have "\<exists>pem. bs_files s' (bo_join B out (f @ ''.crt'')) = Some pem \<and> VerifyDeviceCertificate P pem rc = None"
    if "f \<in> set (''broker'' # boot_services)" for f
  proof -
    from signed [OF that] obtain m u pub d c where
      c: "pki_create P m u rc pub rk = Inr d" "pki_parse_cert P d = Inr c"
        "bs_files s' (bo_join B out (f @ ''.crt'')) = Some (pki_pem_encode P ''CERTIFICATE'' (pki_raw P c))"
      unfolding holds_signed_def by blast
    have "VerifyDeviceCertificate P (pki_pem_encode P ''CERTIFICATE'' (pki_raw P c)) rc = None"
      using assms(3) assms(5) [OF c(2)] assms(6) [OF c(1,2)] by (simp add: VerifyDeviceCertificate_def)
    with c(3) show ?thesis by blast
  qed
  ultimately show ?thesis using self root(1,3) by blast
qed

definition ex_boot :: boot_env where
  "ex_boot = \<lparr>bo_clock = ex_clock, bo_write = (\<lambda>n. None), bo_mkdir = None, bo_join = (\<lambda>d f. d @ ''/'' @ f)\<rparr>"

lemma ex_bootstrap:
  "\<exists>s'. bootstrap ex_pki ex_boot ''certs'' \<lparr>bs_tick = 0, bs_files = (\<lambda>_. None)\<rparr> = (None, s')"
  by (simp add: bootstrap_def ex_boot_def generateRootCA_def boot_tick_def boot_now_def ex_pki_def
      saveCertificate_def savePrivateKey_def WriteFile_def issue_def generateSignedCert_def boot_services_def
      Let_def)

end
