(* ===== verification/EdgeProperties.thy ===== *)
theory EdgeProperties
  imports Example Simulator ServiceConfig
begin

text \<open>
  The properties of the programs around the services: the connector's bounded queue, the identities
  and statuses the connector and the MQTT subscriber read from a message, what the subscriber
  stores, and the simulator's messages. Each is followed by a concrete instance where it
  has hypotheses.
\<close>

section \<open>The connector's queue\<close>

text \<open>
  C7. The connector accounts for every message: in every state its goroutines reach, the queue is within
  its capacity; each message received is in the queue, dropped, forwarded, being forwarded or being
  sent, exactly once; the three counters count what they name; and messages leave the queue
  in the order in which they entered it.
\<close>

theorem connector_accounts_for_messages:
  assumes "creach cap fw s st"
  shows "length (cs_queue st) \<le> cap \<and>
    mset (cs_received st) = mset (cs_queue st) + mset (cs_lost st) + mset (map fst (cs_done st)) +
      mset (case cs_busy st of None \<Rightarrow> [] | Some x \<Rightarrow> [x]) + mset (map snd (cs_sending st)) \<and>
    cs_recv st = of_nat (length (cs_received st)) \<and> cs_dropped st = of_nat (length (cs_lost st)) \<and>
    cs_fwd st = of_nat (length (filter (\<lambda>(m, r). r = None) (cs_done st))) \<and>
    subseq (map fst (cs_done st)) (cs_sent st)"
proof -
  from creach_inv [OF assms] have inv: "conn_inv cap st" .
  then have "subseq (map fst (cs_done st)) (cs_sent st)"
    unfolding conn_inv_def by (meson prefixI prefix_imp_subseq subseq_order.trans)
  with inv show ?thesis by (simp add: conn_inv_def)
qed

text \<open>The instance: a queue of one message, and two messages, the first of which is dropped.\<close>

definition ex_conn :: "nat \<Rightarrow> (nat, unit) broker_worker" where
  "ex_conn k = fold (\<lambda>f st. f st)
     (take k [handler_receive 5, (\<lambda>st. channel_send 5 st\<lparr>cs_sending := []\<rparr>), handler_receive 6,
        (\<lambda>st. st\<lparr>cs_sending := [(Evict, 6)]\<rparr>),
        (\<lambda>st. drop_message 5 (st\<lparr>cs_queue := []\<rparr>)\<lparr>cs_sending := [(Retry, 6)]\<rparr>),
        (\<lambda>st. channel_send 6 st\<lparr>cs_sending := []\<rparr>)]) (newBrokerWorker ())"

lemma ex_conn_select:
  fixes st st' :: "(nat, unit) broker_worker"
  assumes "cs_sending st = [(g, m)]" "enqueue_select 1 g m st = (g', st')"
  shows "cstep 1 fw st (st'\<lparr>cs_sending := sending_update 0 g' (cs_sending st)\<rparr>)"
  using cstep.select [of 0 st g m 1 g' st' fw] assms by simp

lemma ex_conn_reach2: "creach 1 (\<lambda>m s. (None, s)) () (ex_conn 2)"
proof -
  let ?fw = "\<lambda>m s. (None, s)"
  have 1: "creach 1 ?fw () (ex_conn 1)"
    using creach.step [OF creach.start cstep.receive, of 1 ?fw "()" 5] by (simp add: ex_conn_def)
  have 2: "cstep 1 ?fw (ex_conn 1) (ex_conn 2)"
    using ex_conn_select [of "ex_conn 1" TrySend 5 _ _ ?fw] by (simp add: ex_conn_def newBrokerWorker_def handler_receive_def
        channel_send_def sending_update_def)
  show ?thesis by (rule creach.step [OF 1 2])
qed

lemma ex_conn_reach: "creach 1 (\<lambda>m s. (None, s)) () (ex_conn 6)"
proof -
  let ?fw = "\<lambda>m s. (None, s)"
  have 3: "cstep 1 ?fw (ex_conn 2) (ex_conn 3)"
    using cstep.receive [of 1 ?fw "ex_conn 2" 6] by (simp add: ex_conn_def)
  have 4: "cstep 1 ?fw (ex_conn 3) (ex_conn 4)"
    using ex_conn_select [of "ex_conn 3" TrySend 6 _ _ ?fw] by (simp add: ex_conn_def newBrokerWorker_def handler_receive_def
        channel_send_def sending_update_def)
  have 5: "cstep 1 ?fw (ex_conn 4) (ex_conn 5)"
    using ex_conn_select [of "ex_conn 4" Evict 6 _ _ ?fw] by (simp add: ex_conn_def newBrokerWorker_def handler_receive_def
        channel_send_def sending_update_def drop_message_def)
  have 6: "cstep 1 ?fw (ex_conn 5) (ex_conn 6)"
    using ex_conn_select [of "ex_conn 5" Retry 6 _ _ ?fw] by (simp add: ex_conn_def newBrokerWorker_def handler_receive_def
        channel_send_def sending_update_def drop_message_def)
  show ?thesis
    by (rule creach.step [OF creach.step [OF creach.step [OF creach.step [OF ex_conn_reach2 3] 4] 5] 6])
qed

theorem connector_accounts_for_messages_witness:
  "length (cs_queue (ex_conn 6)) \<le> 1 \<and> cs_dropped (ex_conn 6) = of_nat (length (cs_lost (ex_conn 6)))"
  using connector_accounts_for_messages [OF ex_conn_reach] by blast

text \<open>
  C12. The queue is the specification "keep the newest": with a positive capacity, messages enqueued one after
  the other leave exactly the last ones, as many as fit, in order, and every other one is
  reported as dropped; and this is what the three selects of \<open>enqueue\<close> compute where nothing happens
  between them.
\<close>

theorem queue_keeps_newest:
  fixes xs :: "'m list"
  assumes "0 < cap" "run_all (enqueue cap) xs [] = (ls, q')"
  shows "q' = lastn cap xs \<and> mset q' + mset (concat ls) = mset xs \<and>
    (\<forall>m (st :: ('m, 's) broker_worker). let (lost, q) = enqueue cap m (cs_queue st) in
       \<exists>st'. enqueue_run cap TrySend 3 m st = (None, st') \<and> cs_queue st' = q \<and>
         cs_lost st' = cs_lost st @ lost)"
proof (intro conjI allI)
  show "q' = lastn cap xs" using enqueue_all_lastn [OF assms] by simp
  show "mset q' + mset (concat ls) = mset xs" using enqueue_all_mset [OF assms(2)] by simp
next
  fix m and st :: "('m, 's) broker_worker"
  obtain lost q where "enqueue cap m (cs_queue st) = (lost, q)" by fastforce
  with enqueue_run_eq [of cap m st lost q] show "let (lost, q) = enqueue cap m (cs_queue st) in
       \<exists>st'. enqueue_run cap TrySend 3 m st = (None, st') \<and> cs_queue st' = q \<and>
         cs_lost st' = cs_lost st @ lost"
    by auto
qed

theorem queue_keeps_newest_witness:
  "snd (run_all (enqueue 2) [5, 6, 7 :: nat] []) = [6, 7]"
proof -
  obtain ls q' where run: "run_all (enqueue 2) [5, 6, 7 :: nat] [] = (ls, q')" by fastforce
  have "q' = lastn 2 [5, 6, 7]" using queue_keeps_newest [OF _ run, THEN conjunct1] by simp
  with run show ?thesis by (simp add: lastn_def)
qed

section \<open>Identities and statuses\<close>


definition ex_subscription :: subscription_config where
  "ex_subscription = \<lparr>sub_Topic = ''devices/+/telemetry'', sub_QoS = 1, sub_DeviceIDPath = '''',
     sub_DeviceIDSegment = 0, sub_MetricName = ''''\<rparr>"


section \<open>From the broker to the table\<close>

text \<open>
  C26. A message of the broker adds at most one row to the table, and that row belongs to the device its topic
  names and holds the metric and the value of its payload.
\<close>

theorem message_adds_its_own_row:
  assumes "handleMessage dec (SubmitMetric E ev) topic raw w = Some w'"
  shows "w_metrics w' = w_metrics w \<or>
    (\<exists>row payload. w_metrics w' = w_metrics w @ [row] \<and> dec raw = Inr payload \<and>
       topic = ''devices/'' @ mr_DeviceID row @ ''/telemetry'' \<and>
       mr_MetricName row = tp_MetricName payload \<and> mr_Value row = tp_Value payload)"
  by (rule handleMessage_rows [OF assms])

definition ex_payload :: telemetry_payload where
  "ex_payload = \<lparr>tp_MetricName = ''temperature'', tp_Value = Fin 35, tp_TimestampUnixSeconds = 1699999990,
     tp_Status = ''OK'', tp_Tags = None\<rparr>"

lemma ex_message:
  "handleMessage (\<lambda>raw. Inr ex_payload) (SubmitMetric ex_env True) ''devices/d1/telemetry'' raw ex_world =
     Some ex_world1"
proof -
  have d: "deviceIDFromTopic ''devices/d1/telemetry'' = Some ''d1''"
    by (simp only: deviceIDFromTopic_iff) simp
  have "parseStatus ''OK'' = 1"
    by (simp add: parseStatus_def to_upper_def trim_space_def upper_char_def is_space_def Let_def)
  then have "request_of_payload ''d1'' (ex_payload\<lparr>tp_Tags := Some []\<rparr>) = ex_request"
    by (simp add: request_of_payload_def ex_payload_def ex_request_def)
  moreover have "parsePayloadStrict (\<lambda>raw. Inr ex_payload) raw = Inr (ex_payload\<lparr>tp_Tags := Some []\<rparr>)"
    by (simp add: parsePayloadStrict_def ex_payload_def)
  ultimately show ?thesis by (simp add: handleMessage_def d ex_submit)
qed

theorem message_adds_its_own_row_witness:
  "\<exists>row. w_metrics ex_world1 = [row] \<and> mr_DeviceID row = ''d1'' \<and> mr_Value row = Fin 35"
proof -
  have "w_metrics ex_world1 \<noteq> []" by (simp add: ex_world1_def)
  with message_adds_its_own_row [OF ex_message] obtain row where
    "w_metrics ex_world1 = [row]" "''devices/d1/telemetry'' = ''devices/'' @ mr_DeviceID row @ ''/telemetry''"
    "mr_Value row = Fin 35" by (auto simp: ex_payload_def)
  then show ?thesis using append_same_eq [of "''d1''" "''/telemetry''" "mr_DeviceID row"] by auto
qed

text \<open>
  C28. What the simulator sends is what the subscriber takes: each message a simulated device has published is
  submitted as a finite temperature of that device, with one of the two statuses it uses; and the
  simulator's counters of sent and duplicated messages add up to the number published.
\<close>

theorem simulated_message_is_submitted:
  assumes "m \<in> set (dw_published (run_rounds G n (new_device_worker cfg i)))" "dec raw = Inr (snd m)"
  shows "handleMessage dec submit (fst m) raw s =
      map_option snd (submit (request_of_payload (sim_device_id i) (snd m)) s) \<and>
    tp_MetricName (snd m) = ''temperature'' \<and> json_float_ok (tp_Value (snd m)) \<and>
    parseStatus (tp_Status (snd m)) \<in> {METRIC_STATUS_OK, METRIC_STATUS_CRITICAL} \<and>
    (let w = run_rounds G n (new_device_worker cfg i) in
       dw_sentCount w + dw_dupCount w = of_nat (length (dw_published w)))"
proof -
  let ?w = "run_rounds G n (new_device_worker cfg i)"
  have inv: "sim_inv ?w" "dw_deviceID ?w = sim_device_id i"
    using run_rounds_inv [OF sim_inv_new, of G n cfg i] by (simp_all add: new_device_worker_def)
  with assms(1) have ok: "sim_message_ok (sim_device_id i) m" by (simp add: sim_inv_def)
  have "request_of_payload d (p\<lparr>tp_Tags := Some []\<rparr>) = request_of_payload d p" if "tp_Tags p = None" for d p
    using that by (simp add: request_of_payload_def)
  with ok assms(2) sim_message_accepted(1) [OF assms(1)] have "handleMessage dec submit (fst m) raw s =
      map_option snd (submit (request_of_payload (sim_device_id i) (snd m)) s)"
    by (simp add: handleMessage_def parsePayloadStrict_def sim_message_ok_def split: option.split)
  with ok inv sim_message_accepted(3) [OF assms(1)] show ?thesis
    by (simp add: sim_message_ok_def sim_inv_def json_float_ok_def Let_def)
qed

definition ex_random :: randomness where
  "ex_random = \<lparr>rnd_Float64 = (\<lambda>n. Fin (1 / 2)), rnd_Intn = (\<lambda>k n. 0), rnd_now = ex_clock,
     rnd_publish = (\<lambda>n. None)\<rparr>"

definition ex_sim_config :: simulation_config where
  "ex_sim_config = \<lparr>sim_BrokerURL = [], sim_NumDevices = 1, sim_MinIntervalSec = 1, sim_MaxIntervalSec = 1,
     sim_DuplicateRate = Fin 0, sim_SpikeRate = Fin 0,
     sim_DurationSeconds = 0\<rparr>"

lemma ex_float_facts:
  "f_is_inf (f_round (6 / 5)) = False" "f_round (6 / 5) \<noteq> NaN"
  "f_is_inf (f_round (1 / 20)) = False" "f_round (1 / 20) \<noteq> NaN" "f_round 25 = Fin 25"
proof -
  have e: "rat_exponent (6 / 5) = 0" "rat_exponent (1 / 20) = -5" "rat_exponent 25 = 4" by code_simp+
  show "f_is_inf (f_round (6 / 5)) = False" "f_round (6 / 5) \<noteq> NaN"
    "f_is_inf (f_round (1 / 20)) = False" "f_round (1 / 20) \<noteq> NaN" "f_round 25 = Fin 25"
    by (simp_all add: f_round_def round_mag_def e round_half_even_def rat_pow2_def Let_def f_is_inf_def)
qed

lemma ex_sim:
  "\<exists>p. (''devices/'' @ sim_device_id 7 @ ''/telemetry'', p) \<in>
     set (dw_published (run_rounds ex_random 1 (new_device_worker ex_sim_config 7)))"
proof -
  have zero: "f_mul (Fin 0) x \<in> {Fin 0, NegZero}" if "\<not> f_is_inf x" "x \<noteq> NaN" for x
    using that by (auto simp: f_mul_def f_is_inf_def f_signed_zero_def)
  have add: "f_add (Fin 25) z = Fin 25" if "z \<in> {Fin 0, NegZero}" for z
    using that by (auto simp: ex_float_facts)
  let ?w = "new_device_worker ex_sim_config 7"
  have r: "rnd_Float64 ex_random n = Fin (1 / 2)" "rnd_publish ex_random n = None"
    "sim_SpikeRate ex_sim_config = Fin 0" "sim_DuplicateRate ex_sim_config = Fin 0" for n
    by (simp_all add: ex_random_def ex_sim_config_def)
  have w: "dw_lastTemp ?w = Fin 25" "dw_cfg ?w = ex_sim_config" "dw_deviceID ?w = sim_device_id 7"
    "dw_published ?w = []" by (simp_all add: new_device_worker_def)
  have "fst (nextTemperature ex_random ?w) = Fin 25"
    using zero [of "f_round (6 / 5)"] zero [of "f_round (1 / 20)"] ex_float_facts add
    by (simp add: nextTemperature_def draw_float_def r w f_sub_def Let_def)
  then obtain w0 where w0: "nextTemperature ex_random ?w = (Fin 25, w0)"
    by (cases "nextTemperature ex_random ?w") simp
  then have "dw_deviceID w0 = sim_device_id 7" "dw_cfg w0 = ex_sim_config" "dw_published w0 = []"
    using w by (auto simp: nextTemperature_def draw_float_def Let_def)
  then obtain p w1 where p: "sim_payload ex_random ?w = (p, w1)" "tp_Value p = Fin 25"
    "dw_deviceID w1 = sim_device_id 7" "dw_cfg w1 = ex_sim_config" "dw_published w1 = []"
    by (auto simp: sim_payload_def w0 draw_float_def r w)
  then have "(''devices/'' @ sim_device_id 7 @ ''/telemetry'', p) \<in> set (dw_published (publishOne ex_random ?w))"
    by (simp add: publishOne_def w f_is_nan_def f_is_inf_def publishQoS1_def draw_float_def r Let_def)
  then show ?thesis by (auto simp: nextInterval_def Let_def)
qed

theorem simulated_message_is_submitted_witness:
  "\<exists>p. handleMessage (\<lambda>raw. Inr p) (\<lambda>req s. Some ((), req # s)) (''devices/'' @ sim_device_id 7 @ ''/telemetry'') ''x'' [] =
     Some [request_of_payload (sim_device_id 7) p] \<and> tp_MetricName p = ''temperature''"
proof -
  obtain p where p: "(''devices/'' @ sim_device_id 7 @ ''/telemetry'', p) \<in>
     set (dw_published (run_rounds ex_random 1 (new_device_worker ex_sim_config 7)))"
    using ex_sim by blast
  note sub = simulated_message_is_submitted [where dec = "\<lambda>raw. Inr p" and raw = "''x''" and s = "[]"
      and submit = "\<lambda>req s. Some ((), req # s)", OF p]
  from sub [THEN conjunct1] sub [THEN conjunct2, THEN conjunct1] show ?thesis
    by (intro exI [of _ p]) simp
qed

end
