(* ===== verification/SystemProperties.thy ===== *)
theory SystemProperties
  imports System Startup ConnectorMain GatewayMain SimulatorMain Tracing TelemetryProperties DeviceProperties EdgeProperties
begin

text \<open>
  The properties of the whole: the invariant of all tables under every event, which starts of the
  programs succeed and in what order they stop, the telemetry service without Redis, the way from
  the bootstrap to a running device service, and where the spans go. Each is followed by an
  instance on a concrete deployment.
\<close>

section \<open>Every event\<close>


definition ex_conf :: "(mem, string, string, string) system_conf" where
  "ex_conf = \<lparr>sc_env = ex_env, sc_redis = mem_redis, sc_pki = ex_pki, sc_device_service = ex_service,
     sc_decode = (\<lambda>raw. Inl (ErrText ''invalid character''))\<rparr>"

definition ex_system :: "mem system" where
  "ex_system = \<lparr>sy_queue = initial_queue_state ex_world, sy_evaluator = NewAlertEvaluator True, sy_device_tasks = []\<rparr>"

lemma ex_world_db_inv: "db_inv ex_world"
  by (simp add: db_inv_def metrics_inv_def devices_inv_def thresholds_inv_def alerts_inv_def silences_inv_def
      published_inv_def ex_device_def ex_threshold_def device_checks_def device_statuses_def threshold_checks_def
      no_nul_def utf8_len_def alert_device_ids_def device_ids_def threshold_types_def severities_def)

lemma ex_submit_queued: "submit_queued ex_env (MetricReq ex_request) (initial_queue_state ex_world) = ex_q1"
  by (simp add: submit_queued_def ex_q1_def submit_call_def handler_prefix_def initial_queue_state_def ex_prefix
      try_send_def DefaultWriteQueueCapacity_def)

lemma ex_handler_answers: "handler_answers 0 ex_q2 = Some ex_q3"
  by (simp add: handler_answers_def ex_q3_def ex_q2_def ex_q1_simps)


section \<open>The loops over Redis end\<close>

text \<open>
  C36. Whatever keys, cursors and errors Redis answers with, the loops over \<open>SCAN\<close> that run under a
  context that is done some time return: a submission without the queue always comes to its answer, the
  write worker can come to its return once it was told to stop, wherever it was, and the watchdog ends any
  number of rounds.
\<close>

theorem bounded_loops_end:
  "(\<exists>r w'. SubmitMetric E ev req w = Some (r, w')) \<and>
   (\<exists>s'. (qstep E ev cap)\<^sup>*\<^sup>* (StopWriteWorker s) s' \<and> qs_worker s' = Stopped) \<and>
   (\<exists>ts' w'. watchdog_loop E R pub n (ts, w) = Some (ts', w'))"
  using SubmitMetric_returns [of E ev req w] canceled_worker_stops [of "StopWriteWorker s" E ev cap]
    watchdog_loop_returns [of E R pub n "(ts, w)"] by auto

section \<open>The telemetry service\<close>

text \<open>The database answers: the pool can be made and pinged.\<close>

definition database_up :: "deployment \<Rightarrow> string \<Rightarrow> bool" where
  "database_up D dsn \<longleftrightarrow> (\<exists>pool. createDatabasePool (dp_pg D) dsn = Inr pool)"

lemma telemetry_start_retry:
  assumes "connect_retry_law up (dp_broker D)" "cfg = telemetry_loadConfig (dp_environ D)"
  shows "database_up D (cf_PostgresURI cfg) \<Longrightarrow> \<not> up (cf_MQTTBroker cfg) \<Longrightarrow> telemetry_start D = None"
    "database_up D (cf_PostgresURI cfg) \<Longrightarrow> up (cf_MQTTBroker cfg) \<Longrightarrow> dp_listen D ('':'' @ cf_Port cfg) = Some e \<Longrightarrow>
       telemetry_start D = Some (Inl (ErrWrap (''Failed to listen on port '' @ cf_Port cfg) e))"
    "database_up D (cf_PostgresURI cfg) \<Longrightarrow> up (cf_MQTTBroker cfg) \<Longrightarrow> dp_listen D ('':'' @ cf_Port cfg) = None \<Longrightarrow>
       \<exists>p. telemetry_start D = Some (Inr p) \<and>
         svc_queueCap (tp_service p) = Some DefaultWriteQueueCapacity \<and>
         svc_alertEval (tp_service p) = Some (NewAlertEvaluator True) \<and>
         telemetry_stop p = [CancelWatchdog, StopSubscriber, GracefulStop, CancelWatchdog, StopWorker,
           DisconnectPublisher, ClosePool] @
           (if dp_tracing D ''telemetry-service'' = None then [ShutdownTracer] else [])"
    "\<not> database_up D (cf_PostgresURI cfg) \<Longrightarrow> \<exists>e. telemetry_start D = Some (Inl e)"
proof -
  have ne: "cf_MQTTBroker cfg \<noteq> []" using telemetry_loadConfig_nonempty(2) assms(2) by simp
  have pub: "NewAlertPublisher (dp_broker D) (cf_MQTTBroker cfg) (cf_MQTTClientID cfg) =
    (if up (cf_MQTTBroker cfg)
     then Some (Inr ((NewClient (publisher_options (cf_MQTTBroker cfg) (cf_MQTTClientID cfg)))\<lparr>mc_connected := True\<rparr>))
     else None)"
    using ne connect_retry_lawD [OF assms(1), of "NewClient (publisher_options (cf_MQTTBroker cfg) (cf_MQTTClientID cfg))"]
    by (simp add: NewAlertPublisher_def publisher_options_def)
  have "sc_BrokerURL (subscriber_of_config cfg) = cf_MQTTBroker cfg"
    by (simp add: subscriber_of_config_def NewTelemetrySubscriber_def Let_def)
  then have sub: "subscriber_Start (dp_broker D) \<lparr>sb_cfg = subscriber_of_config cfg, sb_client = None\<rparr> \<noteq> None"
    if "up (cf_MQTTBroker cfg)"
    using that connect_retry_lawD [OF assms(1), of "NewClient (subscriber_options (subscriber_of_config cfg))"]
    by (simp add: subscriber_Start_def subscriber_options_def)
  note start = telemetry_start_def [of D, folded assms(2)] Let_def pub database_up_def
  show "database_up D (cf_PostgresURI cfg) \<Longrightarrow> \<not> up (cf_MQTTBroker cfg) \<Longrightarrow> telemetry_start D = None"
    by (auto simp: start)
  show "database_up D (cf_PostgresURI cfg) \<Longrightarrow> up (cf_MQTTBroker cfg) \<Longrightarrow> dp_listen D ('':'' @ cf_Port cfg) = Some e \<Longrightarrow>
       telemetry_start D = Some (Inl (ErrWrap (''Failed to listen on port '' @ cf_Port cfg) e))"
    using sub by (auto simp: start)
  show "database_up D (cf_PostgresURI cfg) \<Longrightarrow> up (cf_MQTTBroker cfg) \<Longrightarrow> dp_listen D ('':'' @ cf_Port cfg) = None \<Longrightarrow>
       \<exists>p. telemetry_start D = Some (Inr p) \<and>
         svc_queueCap (tp_service p) = Some DefaultWriteQueueCapacity \<and>
         svc_alertEval (tp_service p) = Some (NewAlertEvaluator True) \<and>
         telemetry_stop p = [CancelWatchdog, StopSubscriber, GracefulStop, CancelWatchdog, StopWorker,
           DisconnectPublisher, ClosePool] @
           (if dp_tracing D ''telemetry-service'' = None then [ShutdownTracer] else [])"
    using sub by (auto simp: start telemetry_stop_def NewTelemetryServiceWithWriteQueue_def DefaultWriteQueueCapacity_def)
  show "\<not> database_up D (cf_PostgresURI cfg) \<Longrightarrow> \<exists>e. telemetry_start D = Some (Inl e)"
    by (auto simp: start split: sum.splits)
qed

lemma telemetry_running:
  assumes "connect_retry_law up (dp_broker D)" "telemetry_start D = Some (Inr p)"
  shows "svc_queueCap (tp_service p) = Some DefaultWriteQueueCapacity \<and>
    svc_alertEval (tp_service p) = Some (NewAlertEvaluator True) \<and>
    telemetry_stop p = [CancelWatchdog, StopSubscriber, GracefulStop, CancelWatchdog, StopWorker,
      DisconnectPublisher, ClosePool] @
      (if dp_tracing D ''telemetry-service'' = None then [ShutdownTracer] else [])"
proof -
  define cfg where "cfg = telemetry_loadConfig (dp_environ D)"
  note retry = telemetry_start_retry [OF assms(1) cfg_def]
  have up: "database_up D (cf_PostgresURI cfg)" "up (cf_MQTTBroker cfg)"
    using assms(2) retry(1,4) by auto
  have "dp_listen D ('':'' @ cf_Port cfg) = None"
    using assms(2) retry(2) [OF up] by (cases "dp_listen D ('':'' @ cf_Port cfg)") auto
  from retry(3) [OF up this] assms(2) show ?thesis by auto
qed

text \<open>
  C10. Which starts of the telemetry service succeed. It waits for ever exactly where the database
  answers and the MQTT broker does not: with \<open>SetConnectRetry(true)\<close> the connection reports no error,
  so that the branches that continue without the publisher and the subscriber are not reached. It
  serves exactly where the database and the broker answer and the port is free; Redis, the device
  service and the tracing are not needed. What runs then has its write queue and its publisher, and
  stops from the outside in: no message and no call comes in any more when the queue is closed, and the
  publisher and the pool, which the worker and the evaluations use, are closed after it.
\<close>

theorem telemetry_start_exact:
  assumes "connect_retry_law up (dp_broker D)" "cfg = telemetry_loadConfig (dp_environ D)"
  shows "(telemetry_start D = None \<longleftrightarrow> database_up D (cf_PostgresURI cfg) \<and> \<not> up (cf_MQTTBroker cfg)) \<and>
    ((\<exists>p. telemetry_start D = Some (Inr p)) \<longleftrightarrow>
       database_up D (cf_PostgresURI cfg) \<and> up (cf_MQTTBroker cfg) \<and> dp_listen D ('':'' @ cf_Port cfg) = None) \<and>
    (\<forall>p. telemetry_start D = Some (Inr p) \<longrightarrow>
       svc_queueCap (tp_service p) = Some DefaultWriteQueueCapacity \<and>
       svc_alertEval (tp_service p) = Some (NewAlertEvaluator True) \<and>
       telemetry_stop p = [CancelWatchdog, StopSubscriber, GracefulStop, CancelWatchdog, StopWorker,
         DisconnectPublisher, ClosePool] @
         (if dp_tracing D ''telemetry-service'' = None then [ShutdownTracer] else []))"
proof (intro conjI allI impI)
  show "telemetry_start D = None \<longleftrightarrow> database_up D (cf_PostgresURI cfg) \<and> \<not> up (cf_MQTTBroker cfg)"
    using telemetry_start_retry [OF assms] by (cases "dp_listen D ('':'' @ cf_Port cfg)") fastforce+
  show "(\<exists>p. telemetry_start D = Some (Inr p)) \<longleftrightarrow>
      database_up D (cf_PostgresURI cfg) \<and> up (cf_MQTTBroker cfg) \<and> dp_listen D ('':'' @ cf_Port cfg) = None"
    using telemetry_start_retry [OF assms] by (cases "dp_listen D ('':'' @ cf_Port cfg)") fastforce+
qed (use telemetry_running [OF assms(1)] in simp_all)

text \<open>A deployment in which everything but Redis and the given brokers answers.\<close>

definition ex_deployment :: "(string \<Rightarrow> bool) \<Rightarrow> deployment" where
  "ex_deployment up = \<lparr>dp_environ = (\<lambda>_. []), dp_tracing = (\<lambda>_. None),
     dp_pg = \<lparr>pg_parse = (\<lambda>_. None), pg_new = (\<lambda>_. None), pg_ping = (\<lambda>_. None)\<rparr>,
     dp_redis_ping = (\<lambda>_. Some ErrCanceled),
     dp_broker = (\<lambda>opts. if up (mo_Broker opts) then Some None else None),
     dp_dial = (\<lambda>_. None), dp_listen = (\<lambda>_. None)\<rparr>"

lemma ex_deployment_law: "connect_retry_law up (dp_broker (ex_deployment up))"
  by (simp add: connect_retry_law_def ex_deployment_def)

lemma ex_database_up: "database_up (ex_deployment up) dsn"
  by (simp add: database_up_def createDatabasePool_def ex_deployment_def Let_def)

lemma ex_listen: "dp_listen (ex_deployment up) addr = None"
  by (simp add: ex_deployment_def)

theorem telemetry_start_exact_witness:
  "telemetry_start (ex_deployment (\<lambda>_. False)) = None \<and>
   (\<exists>p. telemetry_start (ex_deployment (\<lambda>_. True)) = Some (Inr p) \<and>
      telemetry_stop p = [CancelWatchdog, StopSubscriber, GracefulStop, CancelWatchdog, StopWorker,
        DisconnectPublisher, ClosePool, ShutdownTracer])"
proof -
  have tracing: "dp_tracing (ex_deployment up) name = None" for up name by (simp add: ex_deployment_def)
  note down = telemetry_start_exact [OF ex_deployment_law [of "\<lambda>_. False"] refl]
    and up = telemetry_start_exact [OF ex_deployment_law [of "\<lambda>_. True"] refl]
  obtain p where "telemetry_start (ex_deployment (\<lambda>_. True)) = Some (Inr p)"
    using up by (auto simp: ex_database_up ex_listen)
  with up down show ?thesis by (auto simp: ex_database_up tracing)
qed

section \<open>Without Redis\<close>

lemma without_redis:
  "e_redis (service_env False E) = None" "e_clock (service_env False E) = e_clock E"
  "e_fault (service_env False E) = e_fault E"
  by (simp_all add: service_env_def)

lemma isDuplicate_without_redis: "isDuplicate (service_env False E) d ts w = (Inr False, w)"
  by (simp add: isDuplicate_def TryMarkDedup_def without_redis)

lemma postMetricWrite_without_redis:
  "postMetricWrite (service_env False E) ev p w =
     Some (evaluateAsync ev (mp_DeviceID p) (mp_MetricName p) (mp_Value p) w)"
  by (simp add: postMetricWrite_def InvalidateMetricCache_def markLastSeen_def SetDeviceLastSeen_def without_redis)

lemma SubmitMetric_without_redis_returns:
  "SubmitMetric (service_env False E) ev req w \<noteq> None"
  by (auto simp: SubmitMetric_def postMetricWrite_without_redis split: prod.splits sum.splits option.splits)

lemma submit_prefix_without_redis:
  assumes "submit_prefix (service_env False E) req w = (x, w')" "0 < sint (smr_TimestampUnixSeconds req)"
  shows "(\<exists>s. x = Inl (Inl s)) \<or> x = Inr (metricPointFromRequest req (time_unix (smr_TimestampUnixSeconds req)))"
    "w_metrics w' = w_metrics w"
proof -
  show "w_metrics w' = w_metrics w" using tables_sameD(1) [OF submit_prefix_same [OF assms(1)]] .
  show "(\<exists>s. x = Inl (Inl s)) \<or> x = Inr (metricPointFromRequest req (time_unix (smr_TimestampUnixSeconds req)))"
    using assms
    by (cases rule: validateAndResolve_cases [where E = "service_env False E" and req = req and w = w])
      (auto simp: submit_prefix_def isDuplicate_without_redis)
qed

text \<open>What one submission does to the table.\<close>

lemma SubmitMetric_without_redis:
  assumes "SubmitMetric (service_env False E) ev req w = Some (r, w')" "0 < sint (smr_TimestampUnixSeconds req)"
    "row = row_of_point (metricPointFromRequest req (time_unix (smr_TimestampUnixSeconds req)))"
  shows "(\<exists>s. r = Inl s) \<and> w_metrics w' = w_metrics w \<or>
    (\<exists>resp. r = Inr resp) \<and> metric_key row \<in> metric_keys w' \<and>
      w_metrics w' = (if metric_key row \<in> metric_keys w then w_metrics w else w_metrics w @ [row])"
  using assms(1)
proof (cases rule: SubmitMetric_cases)
  case early
  with submit_prefix_without_redis [OF early assms(2)] show ?thesis by auto
next
  case (failed point w1 e)
  from same_dataD(1) [OF InsertMetric_err_same [OF failed(2)]] submit_prefix_without_redis(2) [OF failed(1) assms(2)]
    failed(3) show ?thesis by simp
next
  case (stored point w1 w2)
  note pre = submit_prefix_without_redis [OF stored(1) assms(2)]
  from stored(3) have w': "w_metrics w' = w_metrics w2"
    by (auto simp: postMetricWrite_without_redis evaluateAsync_def EvaluateAsync_def)
  from pre(1) assms(3) have "row_of_point point = row" by auto
  with stored(2,4) pre(2) w' show ?thesis
    by (cases rule: InsertMetric_cases [where E = "service_env False E" and w = w1 and p = point])
      (auto simp: metric_keys_def)
qed

text \<open>
  C11. Without Redis the telemetry service answers every submission, and loses nothing by a retry:
  whatever became of the first attempt, once a repetition of a timestamped sample is accepted the
  table holds exactly one row more, the sample's, unless it held a row with its key before. (With
  Redis the retry of a failed insert is lost.)
\<close>

theorem without_redis_retry_is_stored:
  assumes "SubmitMetric (service_env False E) ev req w = Some (r, w1)" "0 < sint (smr_TimestampUnixSeconds req)"
    "row = row_of_point (metricPointFromRequest req (time_unix (smr_TimestampUnixSeconds req)))"
  shows "\<exists>r2 w2. SubmitMetric (service_env False E) ev req w1 = Some (r2, w2) \<and>
    ((\<exists>resp. r2 = Inr resp) \<longrightarrow>
       w_metrics w2 = (if metric_key row \<in> metric_keys w then w_metrics w else w_metrics w @ [row]))"
proof -
  obtain r2 w2 where second: "SubmitMetric (service_env False E) ev req w1 = Some (r2, w2)"
    using SubmitMetric_without_redis_returns [of E ev req w1] by auto
  from SubmitMetric_without_redis [OF assms] SubmitMetric_without_redis [OF second assms(2,3)]
  have "(\<exists>resp. r2 = Inr resp) \<longrightarrow>
       w_metrics w2 = (if metric_key row \<in> metric_keys w then w_metrics w else w_metrics w @ [row])"
  proof (elim disjE conjE exE, goal_cases)
    case (4 resp resp')
    then show ?case by (cases "metric_key row \<in> metric_keys w") simp_all
  next
    case (2 s resp)
    then have "metric_keys w1 = metric_keys w" by (simp add: metric_keys_def)
    with 2 show ?case by (cases "metric_key row \<in> metric_keys w") simp_all
  qed simp_all
  with second show ?thesis by blast
qed

text \<open>The instance: the first insert is canceled, the second is not.\<close>

theorem without_redis_retry_is_stored_witness:
  "\<exists>w1 resp w2. SubmitMetric (service_env False ex_fault_env) True ex_request ex_world =
       Some (Inl (insertFailureStatus (ErrWrap ''failed to insert metric'' ErrCanceled) False), w1) \<and>
     SubmitMetric (service_env False ex_fault_env) True ex_request w1 = Some (Inr resp, w2) \<and>
     w_metrics w2 = [row_of_point ex_point]"
proof -
  let ?E = "service_env False ex_fault_env"
  have val: "validateAndResolveMetricTimestamp ?E ex_request w = (Inr ex_time, w\<lparr>w_tick := Suc (w_tick w)\<rparr>)" for w
  proof -
    have "time_now ?E w = time_now ex_env w" by (simp add: time_now_def service_env_def ex_fault_env_def)
    with ex_validate [of w] show ?thesis
      by (simp add: validateAndResolveMetricTimestamp_def split: option.splits)
  qed
  have pre: "submit_prefix ?E ex_request w = (Inr ex_point, w\<lparr>w_tick := Suc (w_tick w)\<rparr>)" for w
    by (simp add: submit_prefix_def val isDuplicate_without_redis ex_point_def)
  have fault: "e_fault ?E n = (if n = 1 then Some ErrCanceled else None)" for n
    by (simp add: without_redis ex_fault_env_def)
  have first: "SubmitMetric ?E True ex_request ex_world =
      Some (Inl (insertFailureStatus (ErrWrap ''failed to insert metric'' ErrCanceled) False), ex_world\<lparr>w_tick := 2\<rparr>)"
    by (simp add: SubmitMetric_def pre InsertMetric_def ext_fault_def fault)
  have ins: "InsertMetric ?E ex_point w = InsertMetric ex_env ex_point w" if "w_tick w \<noteq> 1" for w
  proof -
    have "pg_error ?E code = pg_error ex_env code" for code
      by (simp add: pg_error_def service_env_def ex_fault_env_def)
    then have "sql_insert_metric ?E p v = sql_insert_metric ex_env p v" for p v
      by (simp add: sql_insert_metric_def cong: if_cong option.case_cong)
    with that show ?thesis by (simp add: InsertMetric_def ext_fault_def fault)
  qed
  have pos: "0 < sint (smr_TimestampUnixSeconds ex_request)" by (simp add: ex_request_def)
  have "time_unix (smr_TimestampUnixSeconds ex_request) = ex_time"
    by (simp add: ex_request_def ex_time_def time_unix_def unix_to_internal_def)
  then have row: "row_of_point ex_point = row_of_point (metricPointFromRequest ex_request
      (time_unix (smr_TimestampUnixSeconds ex_request)))" by (simp add: ex_point_def)
  obtain r2 w2 where two: "SubmitMetric ?E True ex_request (ex_world\<lparr>w_tick := 2\<rparr>) = Some (r2, w2)"
    "(\<exists>resp. r2 = Inr resp) \<longrightarrow> w_metrics w2 = [row_of_point ex_point]"
    using without_redis_retry_is_stored [OF first pos row] by (auto simp: metric_keys_def)
  have "\<exists>resp. r2 = Inr resp"
    using two(1) by (auto simp: SubmitMetric_def pre ins ex_insert split: option.splits)
  with first two show ?thesis by blast
qed

section \<open>From the bootstrap to the device service\<close>


text \<open>The deployment whose Redis answers.\<close>

lemma ex_pki_laws:
  "pki_pem_decode ex_pki (pki_pem_encode ex_pki ty x) = Some x"
  "pki_marshal_key ex_pki key = Inr der \<Longrightarrow> pki_parse_key ex_pki der = Inr key"
  "pki_parse_cert ex_pki der = Inr cert \<Longrightarrow> pki_parse_cert ex_pki (pki_raw ex_pki cert) = Inr cert"
  "pki_verify ex_pki cert roots = None" "pki_check_signature ex_pki cert parent = None"
  by (simp_all add: ex_pki_def)

lemma ex_deployment_simps:
  "pgxpool_New (dp_pg (ex_deployment up)) dsn = Inr (pool_of dsn)" "pg_ping (dp_pg (ex_deployment up)) pool = None"
  "dp_environ (ex_deployment up) name = []"
  by (simp_all add: ex_deployment_def pgxpool_New_def)

lemma ex_bootstrap_join: "inj_on (bo_join ex_boot ''certs'') A"
  by (auto simp: inj_on_def ex_boot_def)


section \<open>The connector\<close>


definition ex_brokers :: connector_config where
  "ex_brokers = \<lparr>cc_Brokers = map (\<lambda>uri. \<lparr>bc_Name = uri, bc_BrokerURI = uri, bc_Username = [], bc_Password = [],
       bc_ClientID = uri, bc_BufferSize = 0, bc_ReconnectDelayMS = 0, bc_Subscriptions = []\<rparr>)
       [''tcp://a'', ''tcp://b''],
     cc_TelemetryService = \<lparr>tsc_Address = [], tsc_TimeoutMS = 0, tsc_RetryAttempts = 0\<rparr>\<rparr>"


text \<open>
  C39. Once the loop of a worker has returned, it forwards nothing any more, whatever still arrives before
  the connection is closed: what was in its queue then and what is received later stays unforwarded,
  and is counted neither as forwarded nor, unless it is pushed out of the queue, as dropped.
\<close>

theorem stopped_connector_forwards_nothing:
  assumes "creach cap fw s st" "\<not> cs_running st" "(cstep cap fw)\<^sup>*\<^sup>* st st'"
  shows "cs_done st' = cs_done st \<and> cs_fwd st' = cs_fwd st \<and> cs_ext st' = cs_ext st \<and>
    mset (cs_received st') = mset (map fst (cs_done st)) + mset (cs_lost st') + mset (cs_queue st') +
      mset (map snd (cs_sending st'))"
proof -
  have "creach cap fw s st'" by (rule creach_rtranclp [OF assms(3,1)])
  from creach_inv [OF this] stopped_worker.run_upwards [OF assms(3) conjI [OF assms(2) creach_stopped_idle [OF assms(1,2)]]] show ?thesis
    by (simp add: conn_inv_def)
qed

text \<open>The instance: a worker that is stopped with a message in its queue.\<close>

definition ex_stopped :: "(nat, unit) broker_worker" where
  "ex_stopped = (ex_conn 2)\<lparr>cs_canceled := True, cs_running := False\<rparr>"

lemma ex_stopped_reach: "creach 1 (\<lambda>m s. (None, s)) () ex_stopped"
proof -
  let ?fw = "\<lambda>m s. (None, s)" and ?c = "(ex_conn 2)\<lparr>cs_canceled := True\<rparr>"
  have "cs_running ?c" "cs_busy ?c = None" "cs_canceled ?c"
    by (simp_all add: ex_conn_def newBrokerWorker_def handler_receive_def channel_send_def)
  then have "cstep 1 ?fw ?c ex_stopped" unfolding ex_stopped_def using cstep.exit [of ?c 1 ?fw] by simp
  with creach.step [OF ex_conn_reach2 cstep.cancel] show ?thesis by (rule creach.step)
qed

theorem stopped_connector_forwards_nothing_witness:
  "cs_queue ex_stopped = [5] \<and> cs_fwd (handler_receive 7 ex_stopped) = cs_fwd ex_stopped"
proof -
  have "(cstep 1 (\<lambda>m s. (None, s)))\<^sup>*\<^sup>* ex_stopped (handler_receive 7 ex_stopped)"
    by (rule r_into_rtranclp [of "cstep 1 (\<lambda>m s. (None, s))"], rule cstep.receive)
  moreover have "\<not> cs_running ex_stopped" by (simp add: ex_stopped_def)
  ultimately have "cs_fwd (handler_receive 7 ex_stopped) = cs_fwd ex_stopped"
    using stopped_connector_forwards_nothing [OF ex_stopped_reach] by blast
  then show ?thesis
    by (simp add: ex_stopped_def ex_conn_def newBrokerWorker_def handler_receive_def channel_send_def)
qed

section \<open>Where the spans go\<close>

text \<open>
  C40. The endpoint of the exporter: an address with a scheme, with or without a slash at its end, gives its
  host and port, unencrypted only for \<open>http\<close> in any case of its letters; one without a scheme is taken
  as it is, encrypted.
\<close>

theorem endpoint_of_address:
  assumes "plain_host h" "\<forall>c \<in> set s. is_letter c" "s \<noteq> []"
  shows "(environ ''OTEL_EXPORTER_OTLP_ENDPOINT'' \<in> {s @ ''://'' @ h, s @ ''://'' @ h @ ''/''} \<longrightarrow>
      eo_Endpoint (exporter_of environ dsn) = h \<and>
      (eo_Insecure (exporter_of environ dsn) \<longleftrightarrow> to_lower s = ''http'')) \<and>
    (environ ''OTEL_EXPORTER_OTLP_ENDPOINT'' = h \<longrightarrow>
      eo_Endpoint (exporter_of environ dsn) = h \<and> \<not> eo_Insecure (exporter_of environ dsn))"
proof -
  have "lower_char (lower_char c) = lower_char c" for c by (auto simp: lower_char_def Let_def)
  then have "to_lower (to_lower s) = to_lower s" by (simp add: to_lower_def)
  then show ?thesis
    using normalize_with_scheme [OF assms, of environ] normalize_plain [OF assms(1), of environ]
    by (auto simp: exporter_of_def)
qed

theorem endpoint_of_address_witness:
  "eo_Endpoint (exporter_of (\<lambda>_. ''HTTP://otel:4318/'') []) = ''otel:4318'' \<and>
   eo_Insecure (exporter_of (\<lambda>_. ''HTTP://otel:4318/'') [])"
proof -
  have host: "plain_host (''otel'' @ '':4318'')"
    unfolding plain_host_def
    by (intro exI [of _ "''otel''"] exI [of _ "'':4318''"])
      (simp add: host_name_char_def valid_optional_port_def is_letter_def is_digit_def)
  have "\<forall>c \<in> set ''HTTP''. is_letter c" by (simp add: is_letter_def)
  moreover have "to_lower ''HTTP'' = ''http''" by code_simp
  ultimately show ?thesis using endpoint_of_address [OF host, of "''HTTP''" "\<lambda>_. ''HTTP://otel:4318/''" "[]"] by simp
qed

end
