(* ===== verification/Spec2Isabelle.thy ===== *)
theory Spec2Isabelle
  imports EvaluationRace SystemProperties
begin

text \<open>
  A verification development for FieldPulse, the Go services that provision devices, collect their
  metrics over gRPC, HTTP and MQTT, store them in PostgreSQL with Timescale, and raise alerts.

  \<^bold>\<open>The program and how its parts interact.\<close> Devices, or the simulator in their place, publish JSON messages
  on \<open>devices/<id>/telemetry\<close>. The telemetry service subscribes to this topic; the connector reads
  foreign brokers and forwards their messages to the telemetry service by gRPC; the API gateway turns HTTP
  requests into gRPC calls of the three services. A submission is validated, marked in Redis against
  duplicates and queued for the one write worker, which inserts it, answers the waiting handler, and
  then invalidates the cached results of the metric, notes the device as seen and starts an evaluation
  goroutine. An evaluation compares the value with the thresholds of the metric, asks the silence rules and the
  Redis mark of the device, inserts an alert and publishes it on \<open>alerts/<id>\<close>. The alert service writes
  thresholds and silence rules; the device service creates devices with their certificates and reads
  them through a cache; the watchdog goes through the last-seen keys in Redis and is to mark silent devices.
  The services share the database and Redis and are otherwise separate processes.

  \<^bold>\<open>The state.\<close> A \<open>world\<close> (\<open>Environment\<close>) holds the tables as lists of rows, the state of Redis (a type
  parameter), what was published on MQTT, the pending evaluations, and the number of external reads made.
  What the code does not determine is a function in the environment \<open>env\<close>: the clock and the failure of a
  call at each external read, the commands of the Redis client, the JSON and SQL functions of
  libraries, and how many Redis calls fit into a timeout. Every theorem holds for all of them, so that any
  call may fail at any time. A handler is a function from the world to its answer, an error or a
  value, and the new world, in the order of the calls of the source; a statement of SQL is the operation it
  performs on the rows, with the constraints of \<open>migrations/\<close>. Goroutines that interleave are step relations:
  \<open>qstep\<close> (the write queue), \<open>cstep\<close> (the connector), \<open>estep\<close> (the evaluation goroutines, cut at their external calls), and
  for all services together the events of \<open>handle_event\<close>.

  \<^bold>\<open>The theories.\<close> The library under the components:
  \<^item> \<open>Prelude\<close>: collections of facts (\<open>frame\<close>, \<open>inv_intros\<close>), integer types, lemmas on lists and options.
  \<^item> \<open>GoStrings\<close>, \<open>GoTime\<close>, \<open>GoFloat\<close>, \<open>GoUrl\<close>: what the sources use of Go's library: strings and numbers in
    decimal, \<open>time.Time\<close> with the wrap-around of \<open>time.Unix\<close>, binary64 with its special values and rounding,
    \<open>url.Parse\<close>.
  \<^item> \<open>Proto\<close>: the enums and messages of \<open>api/proto/*.pb.go\<close>; \<open>Grpc\<close>: statuses and streams; \<open>MqttClient\<close>: the MQTT
    client over a broker that is a parameter.
  \<^item> \<open>Environment\<close>: errors, the world, the environment, contexts of Redis calls, the frame predicates.
  \<^item> \<open>RedisLaws\<close>: the behaviour of Redis some theorems rely on, as named hypotheses; the store \<open>mem_redis\<close>
    satisfies them and serves as their instance.
  \<^item> \<open>Interfaces\<close>: the interfaces as locales, below.

  The components, each with its state, operations, invariant and lemmas:
  \<^item> \<open>TelemetryDB\<close>, \<open>AlertDB\<close>, \<open>DeviceDB\<close>: \<open>internal/db/*.go\<close>.
  \<^item> \<open>TelemetryCache\<close>, \<open>DeviceCache\<close>: \<open>internal/cache/*.go\<close>.
  \<^item> \<open>AlertPublisher\<close>, \<open>TelemetryIngest\<close>: \<open>internal/mqtt/alert_publisher.go\<close> and \<open>telemetry_ingest.go\<close>.
  \<^item> \<open>AlertEvaluator\<close> with \<open>AlertRaising\<close> (when an alert is raised) and \<open>EvaluationSteps\<close> (the goroutines
    interleaved; one that runs alone computes \<open>evaluate\<close>), \<open>AlertService\<close>, \<open>TelemetryService\<close> with \<open>WriteQueue\<close>, \<open>DeviceService\<close>,
    \<open>SilentWatchdog\<close>: \<open>internal/services/*.go\<close>.
  \<^item> \<open>Certs\<close>: \<open>internal/certs/generation.go\<close>; \<open>Bootstrap\<close>: \<open>scripts/bootstrap-ca.go\<close>; \<open>Tracing\<close>: \<open>internal/otel\<close>.
  \<^item> \<open>Connector\<close> with \<open>ConnectorMain\<close>, \<open>Gateway\<close> with \<open>GatewayMain\<close>, \<open>Simulator\<close> with \<open>SimulatorMain\<close>: \<open>main.go\<close> of
    \<open>cmd/connector\<close>, \<open>cmd/api-gateway\<close> and \<open>cmd/simulator\<close>.
  \<^item> \<open>ServiceConfig\<close>, \<open>Startup\<close>: \<open>main.go\<close> of the three services: what they read, build and stop.
  \<^item> \<open>System\<close>: the three services together as they are deployed, with the write queue.
  \<^item> \<open>EvaluationRace\<close>: a run of two overlapping evaluations.
  \<^item> \<open>Example\<close> and the theories \<open>TelemetryProperties\<close>, \<open>AlertProperties\<close>, \<open>DeviceProperties\<close>, \<open>EdgeProperties\<close> and
    \<open>SystemProperties\<close>: the properties, each with an instance on a concrete deployment where it has hypotheses.

  A definition has the name of the function, struct or constant it models; where two packages use one name,
  the one of the store carries \<open>_db\<close>, the stream and stats handlers of the telemetry service \<open>_handler\<close>, those of
  the gateway \<open>gw_\<close>, and the cache its name as a prefix. Fields of a record have a prefix of their own.

  \<^bold>\<open>The interfaces.\<close> \<open>telemetry_store\<close> (an insert that reports success has the key stored, a failed one stores
  nothing) and its extension by batches \<open>batch_store\<close> are interpreted on \<open>InsertMetric\<close> and \<open>InsertMetricBatch\<close>; the write
  worker rests on their facts. \<open>alert_log\<close> (the log grows by what was inserted with success) is interpreted on
  \<open>InsertAlert\<close>, for the evaluator. \<open>bounded_buffer\<close> (capacity kept, nothing vanishes) is interpreted on the
  send of the write queue, which refuses, and on \<open>enqueue\<close> of the connector, which drops the oldest.
  \<open>step_invariant\<close> and \<open>step_order\<close> (what every step keeps, every run keeps) are interpreted on the step relations
  with their invariants.

  \<^bold>\<open>What the theorems show.\<close>
  \<^item> What an acknowledgement means: with the queue, in every interleaving, and without; batches are stored whole
    or not at all; unknown devices are refused; the shutdown loses nothing that was acknowledged; what becomes of
    duplicates, of the retry after a failed insert, and of a service without Redis.
  \<^item> The services together keep the invariant of all tables, never lose an acknowledged row and evaluate only
    what was stored, in any order of events and whatever fails.
  \<^item> An evaluation implements its contract (\<open>evaluation_effect\<close>), raises an alert where it should, raises at most one,
    and publishes only what is stored, in every interleaving; two that overlap can raise an alert each; thresholds that were created are usable; how silences and their marks
    mute, and longer than they should.
  \<^item> Provisioning is atomic, its certificate verifies, and a bootstrap leaves what the device service needs; no
    status can be changed and no filtered list is answered.
  \<^item> Queries send exactly the page asked for; listing of alerts; the statistics give the oldest value as the
    latest.
  \<^item> The connector accounts for each message once and its bounded queue implements the specification that keeps
    the newest; after a stop it forwards nothing. Connector, subscriber and simulator agree on messages.
  \<^item> Which starts succeed, wait for ever or fail, in what order the programs stop, and where spans are sent.

  \<^bold>\<open>Loops and their bounds.\<close> No fuel is used. The loops over \<open>SCAN\<close> are \<open>partial_function (option)\<close>, with \<open>None\<close> for a
  loop that does not return. A context of Redis calls is \<open>None\<close>, never done, or \<open>Some n\<close>, done after \<open>n\<close>
  further calls, and \<open>with_timeout\<close> gives the latter with an \<open>n\<close> of the environment. Under such a context the loops
  always return (\<open>scan_del_loop_returns\<close>, \<open>silent_scan_loop_returns\<close>); under a context that is never done, the one of the
  write worker until it is stopped, a \<open>SCAN\<close> with a second page is repeated for ever (\<open>scan_del_loop_diverges\<close>). A start
  that waits for an unreachable broker is \<open>None\<close> as well. So a claim of the form \<open>f x = Some y\<close> is
  accompanied by the claim when \<open>f x\<close> is not \<open>None\<close>: C10, C11, C21, C22, C36 and C38.

  \<^bold>\<open>Not modelled.\<close>
  \<^item> The libraries: the OpenTelemetry SDK, the MQTT client behind its connection and subscriptions, fiber's matching
    of routes, gRPC's transport, encoding and reflection of the generated protobuf code with its getters, the
    cryptography of x509, the YAML and JSON decoders. They are parameters; what is relied on of them is a named
    hypothesis.
  \<^item> The database beyond the statements: microseconds instead of nanoseconds, the continuous aggregates
    (a parameter), compression, and the retention policies that drop rows after 90 days. A transaction is taken
    to be atomic and the statements of concurrent handlers to be serialised.
  \<^item> Handlers run in one step with respect to each other, apart from the queue, the evaluations, the cache
    goroutines and the connector, whose parts interleave (the events of \<open>System\<close> run an evaluation in one step); a change of Redis from outside may come between any two
    events. Spans and log lines are left out of the handlers.
  \<^item> The race at the end of the alert service, where \<open>main\<close> may return from \<open>Serve\<close> before \<open>os.Exit\<close>, and
    the helper of the integration tests (\<open>test/integration_env.go\<close>).
\<close>

end
